(* ===== verification/Prelude.thy ===== *)
theory Prelude
  imports Main "HOL-Library.Word" "HOL-Library.Char_ord" "HOL-Library.List_Lexorder"
begin

text \<open>
  What every other theory shares: the result type of fallible code (with the panics the
  source can reach kept apart from errors), state-passing actions and their sequencing,
  \<open>BTreeMap\<close> as a key-ordered association list, the signed 64-bit integer with its own
  order, and the string operations of the Rust standard library that the program uses
  (decimal printing and parsing, \<open>replace\<close>, \<open>replacen\<close>, \<open>rfind\<close>, \<open>join\<close>,
  \<open>eq_ignore_ascii_case\<close>). A \<open>String\<close> is the list of its UTF-8 bytes, so lengths and
  the order of keys are the byte lengths and byte order of Rust.
\<close>

named_theorems btree_simps \<open>equations of the ordered association lists\<close>
named_theorems act_simps \<open>equations of state-passing actions\<close>

section \<open>Results and state-passing actions\<close>

text \<open>
  \<open>Ok\<close> and \<open>Err\<close> are Rust's \<open>Result\<close>; \<open>Panic\<close> is an unwinding panic, which \<open>?\<close>
  and \<open>match\<close> never catch; \<open>Diverge\<close> is a loop of the model that ran out of fuel.
\<close>

datatype ('a, 'e) result = Ok 'a | Err 'e | Panic string | Diverge

fun bind_result :: "('a, 'e) result \<Rightarrow> ('a \<Rightarrow> ('b, 'e) result) \<Rightarrow> ('b, 'e) result" where
  "bind_result (Ok x) f = f x"
| "bind_result (Err e) f = Err e"
| "bind_result (Panic p) f = Panic p"
| "bind_result Diverge f = Diverge"

fun map_err :: "('e \<Rightarrow> 'f) \<Rightarrow> ('a, 'e) result \<Rightarrow> ('a, 'f) result" where
  "map_err f (Ok x) = Ok x"
| "map_err f (Err e) = Err (f e)"
| "map_err f (Panic p) = Panic p"
| "map_err f Diverge = Diverge"

fun map_ok :: "('a \<Rightarrow> 'b) \<Rightarrow> ('a, 'e) result \<Rightarrow> ('b, 'e) result" where
  "map_ok f (Ok x) = Ok (f x)"
| "map_ok f (Err e) = Err e"
| "map_ok f (Panic p) = Panic p"
| "map_ok f Diverge = Diverge"

text \<open>A \<open>match\<close> on a result: both arms are code, a panic passes through.\<close>

fun match_result ::
  "('a, 'e) result \<Rightarrow> ('a \<Rightarrow> ('b, 'f) result) \<Rightarrow> ('e \<Rightarrow> ('b, 'f) result) \<Rightarrow> ('b, 'f) result" where
  "match_result (Ok x) f g = f x"
| "match_result (Err e) f g = g e"
| "match_result (Panic p) f g = Panic p"
| "match_result Diverge f g = Diverge"

fun ok_or :: "'e \<Rightarrow> 'a option \<Rightarrow> ('a, 'e) result" where
  "ok_or e None = Err e"
| "ok_or e (Some x) = Ok x"

fun is_ok :: "('a, 'e) result \<Rightarrow> bool" where
  "is_ok (Ok x) = True"
| "is_ok r = False"

fun is_err :: "('a, 'e) result \<Rightarrow> bool" where
  "is_err (Err e) = True"
| "is_err r = False"

text \<open>\<open>Result::ok\<close>: the error is dropped.\<close>

fun result_ok :: "('a, 'e) result \<Rightarrow> 'a option" where
  "result_ok (Ok x) = Some x"
| "result_ok r = None"

lemma bind_result_Ok_iff:
  "bind_result r f = Ok y \<longleftrightarrow> (\<exists>x. r = Ok x \<and> f x = Ok y)"
  by (cases r) auto

lemma map_err_Ok_iff [simp]: "map_err f r = Ok x \<longleftrightarrow> r = Ok x"
  by (cases r) auto

lemma map_ok_Ok_iff: "map_ok f r = Ok y \<longleftrightarrow> (\<exists>x. r = Ok x \<and> y = f x)"
  by (cases r) auto

type_synonym ('s, 'a, 'e) act = "'s \<Rightarrow> ('a, 'e) result \<times> 's"

definition ret :: "'a \<Rightarrow> ('s, 'a, 'e) act" where
  "ret x = (\<lambda>s. (Ok x, s))"

definition fail :: "'e \<Rightarrow> ('s, 'a, 'e) act" where
  "fail e = (\<lambda>s. (Err e, s))"

definition panic :: "string \<Rightarrow> ('s, 'a, 'e) act" where
  "panic p = (\<lambda>s. (Panic p, s))"

definition diverge :: "('s, 'a, 'e) act" where
  "diverge = (\<lambda>s. (Diverge, s))"

definition lift_result :: "('a, 'e) result \<Rightarrow> ('s, 'a, 'e) act" where
  "lift_result r = (\<lambda>s. (r, s))"

text \<open>\<open>bnd m f\<close> is \<open>let x = m?; f(x)\<close>.\<close>

definition bnd :: "('s, 'a, 'e) act \<Rightarrow> ('a \<Rightarrow> ('s, 'b, 'e) act) \<Rightarrow> ('s, 'b, 'e) act" where
  "bnd m f = (\<lambda>s. case m s of
      (Ok x, s') \<Rightarrow> f x s'
    | (Err e, s') \<Rightarrow> (Err e, s')
    | (Panic p, s') \<Rightarrow> (Panic p, s')
    | (Diverge, s') \<Rightarrow> (Diverge, s'))"

definition seq :: "('s, unit, 'e) act \<Rightarrow> ('s, 'b, 'e) act \<Rightarrow> ('s, 'b, 'e) act" where
  "seq m k = bnd m (\<lambda>_. k)"

lemma ret_apply [act_simps]: "ret x s = (Ok x, s)"
  by (simp add: ret_def)

lemma fail_apply [act_simps]: "fail e s = (Err e, s)"
  by (simp add: fail_def)

lemma panic_apply [act_simps]: "panic p s = (Panic p, s)"
  by (simp add: panic_def)

lemma diverge_apply [act_simps]: "diverge s = (Diverge, s)"
  by (simp add: diverge_def)

lemma lift_result_apply [act_simps]: "lift_result r s = (r, s)"
  by (simp add: lift_result_def)

lemma bnd_Ok [act_simps]: "m s = (Ok x, s') \<Longrightarrow> bnd m f s = f x s'"
  by (simp add: bnd_def)

lemma bnd_Err [act_simps]: "m s = (Err e, s') \<Longrightarrow> bnd m f s = (Err e, s')"
  by (simp add: bnd_def)

lemma seq_Ok [act_simps]: "m s = (Ok u, s') \<Longrightarrow> seq m k s = k s'"
  by (simp add: seq_def bnd_def)

lemma seq_Err [act_simps]: "m s = (Err e, s') \<Longrightarrow> seq m k s = (Err e, s')"
  by (simp add: seq_def bnd_def)

lemma bnd_assoc: "bnd (bnd m f) g = bnd m (\<lambda>x. bnd (f x) g)"
  by (rule ext) (auto simp: bnd_def split: prod.split result.split)

lemma bnd_ret_left [simp]: "bnd (ret x) f = f x"
  by (rule ext) (simp add: bnd_def ret_def)

lemma bnd_ret_right [simp]: "bnd m ret = m"
  by (rule ext) (auto simp: bnd_def ret_def split: prod.split result.split)

text \<open>
  \<open>le_act m m'\<close>: \<open>m'\<close> does what \<open>m\<close> does wherever \<open>m\<close> has enough fuel.
\<close>

definition le_act :: "('s, 'a, 'e) act \<Rightarrow> ('s, 'a, 'e) act \<Rightarrow> bool" where
  "le_act m m' = (\<forall>s. fst (m s) \<noteq> Diverge \<longrightarrow> m' s = m s)"

lemma le_act_refl [intro!]: "le_act m m"
  by (simp add: le_act_def)

lemma le_act_diverge [intro!]: "le_act diverge m"
  by (simp add: le_act_def diverge_def)

lemma le_act_bnd [intro]: "(\<And>x. le_act (f x) (g x)) \<Longrightarrow> le_act (bnd m f) (bnd m g)"
  by (auto simp: le_act_def bnd_def split: prod.splits result.splits)

lemma le_act_seq [intro]: "le_act k k' \<Longrightarrow> le_act (seq m k) (seq m k')"
  unfolding seq_def by (rule le_act_bnd)

lemma le_act_if [intro]:
  "(b \<Longrightarrow> le_act m m') \<Longrightarrow> (\<not> b \<Longrightarrow> le_act k k') \<Longrightarrow> le_act (if b then m else k) (if b then m' else k')"
  by simp

section \<open>\<open>BTreeMap\<close>: association lists in key order\<close>

type_synonym ('k, 'v) btree = "('k \<times> 'v) list"

fun bt_insert :: "'k::linorder \<Rightarrow> 'v \<Rightarrow> ('k, 'v) btree \<Rightarrow> ('k, 'v) btree" where
  "bt_insert k v [] = [(k, v)]"
| "bt_insert k v ((k', v') # m) =
     (if k < k' then (k, v) # (k', v') # m
      else if k = k' then (k, v) # m
      else (k', v') # bt_insert k v m)"

definition bt_get :: "('k, 'v) btree \<Rightarrow> 'k \<Rightarrow> 'v option" where
  "bt_get m k = map_of m k"

definition bt_contains_key :: "('k, 'v) btree \<Rightarrow> 'k \<Rightarrow> bool" where
  "bt_contains_key m k = (bt_get m k \<noteq> None)"

definition bt_keys :: "('k, 'v) btree \<Rightarrow> 'k list" where
  "bt_keys m = map fst m"

definition bt_wf :: "('k::linorder, 'v) btree \<Rightarrow> bool" where
  "bt_wf m = sorted_wrt (<) (map fst m)"

text \<open>Inserting pair after pair, as \<open>BTreeMap::from\<close> and \<open>collect\<close> do.\<close>

fun bt_extend :: "('k::linorder, 'v) btree \<Rightarrow> ('k \<times> 'v) list \<Rightarrow> ('k, 'v) btree" where
  "bt_extend m [] = m"
| "bt_extend m ((k, v) # kvs) = bt_extend (bt_insert k v m) kvs"

definition bt_of :: "('k::linorder \<times> 'v) list \<Rightarrow> ('k, 'v) btree" where
  "bt_of kvs = bt_extend [] kvs"

lemma bt_get_Nil [simp, btree_simps]: "bt_get [] k = None"
  by (simp add: bt_get_def)

lemma bt_get_Cons [btree_simps]:
  "bt_get ((k', v) # m) k = (if k = k' then Some v else bt_get m k)"
  by (auto simp: bt_get_def)

lemma bt_get_insert [simp, btree_simps]:
  "bt_get (bt_insert k v m) k' = (if k' = k then Some v else bt_get m k')"
  by (induction k v m rule: bt_insert.induct) (auto simp: bt_get_Cons)

lemma keys_bt_insert: "set (map fst (bt_insert k v m)) = insert k (set (map fst m))"
  by (induction k v m rule: bt_insert.induct) auto

lemma bt_wf_Nil [simp, intro]: "bt_wf []"
  by (simp add: bt_wf_def)

lemma bt_wf_Cons: "bt_wf ((k, v) # m) \<longleftrightarrow> (\<forall>k' \<in> set (map fst m). k < k') \<and> bt_wf m"
  by (simp add: bt_wf_def)

lemma bt_wf_insert [simp, intro]: "bt_wf m \<Longrightarrow> bt_wf (bt_insert k v m)"
proof (induction k v m rule: bt_insert.induct)
  case (1 k v)
  then show ?case by (simp add: bt_wf_def)
next
  case (2 k v k' v' m)
  then show ?case
    using keys_bt_insert [of k v m] by (force simp: bt_wf_Cons)
qed

lemma bt_wf_extend [simp, intro]: "bt_wf m \<Longrightarrow> bt_wf (bt_extend m kvs)"
  by (induction m kvs rule: bt_extend.induct) auto

lemma bt_wf_of [simp, intro]: "bt_wf (bt_of kvs)"
  by (simp add: bt_of_def)

lemma bt_wf_distinct: "bt_wf m \<Longrightarrow> distinct (map fst m)"
  by (simp add: bt_wf_def strict_sorted_iff)

lemma bt_insert_last: "\<forall>k' \<in> set (map fst m). k' < k \<Longrightarrow> bt_insert k v m = m @ [(k, v)]"
  by (induction k v m rule: bt_insert.induct) (auto dest: order.asym)

text \<open>Reading a map back entry by entry rebuilds it: the wire decoders rely on this.\<close>

lemma bt_extend_append:
  assumes "bt_wf (m @ kvs)"
  shows "bt_extend m kvs = m @ kvs"
  using assms
proof (induction kvs arbitrary: m)
  case Nil
  then show ?case by simp
next
  case (Cons kv kvs)
  obtain k v where kv: "kv = (k, v)" by force
  have "\<forall>k' \<in> set (map fst m). k' < k"
    using Cons.prems by (auto simp: kv bt_wf_def sorted_wrt_append)
  then have "bt_insert k v m = m @ [(k, v)]"
    by (rule bt_insert_last)
  then show ?case
    using Cons.IH [of "m @ [(k, v)]"] Cons.prems by (simp add: kv)
qed

lemma bt_of_wf: "bt_wf m \<Longrightarrow> bt_of m = m"
  using bt_extend_append [of "[]" m] by (simp add: bt_of_def)

lemma bt_get_extend:
  "bt_get (bt_extend m kvs) k = (case map_of (rev kvs) k of None \<Rightarrow> bt_get m k | Some v \<Rightarrow> Some v)"
  by (induction m kvs rule: bt_extend.induct)
    (auto simp: map_add_def split: option.splits)

lemma bt_get_of: "bt_get (bt_of kvs) k = map_of (rev kvs) k"
  by (simp add: bt_of_def bt_get_extend split: option.split)

lemma bt_ext_eq:
  assumes "bt_wf m" and "bt_wf n" and "\<And>k. bt_get m k = bt_get n k"
  shows "m = n"
proof -
  have "map_of m = map_of n"
    using assms(3) by (auto simp: bt_get_def)
  moreover have "sorted (map fst m)" "sorted (map fst n)" "distinct (map fst m)" "distinct (map fst n)"
    using assms(1,2) by (auto simp: bt_wf_def strict_sorted_iff)
  moreover have "set m = set n"
    using calculation by (simp add: map_of_inject_set)
  moreover have "inj_on fst (set m \<union> set n)"
    using calculation by (simp add: distinct_map)
  ultimately show ?thesis
    by (intro map_sorted_distinct_set_unique [where f = fst]) auto
qed

definition bt_remove :: "'k \<Rightarrow> ('k, 'v) btree \<Rightarrow> ('k, 'v) btree" where
  "bt_remove k m = filter (\<lambda>(k', v). k' \<noteq> k) m"

lemma bt_get_remove [simp, btree_simps]: "bt_get (bt_remove k m) k' = (if k' = k then None else bt_get m k')"
  by (induction m) (auto simp: bt_get_def bt_remove_def)

lemma bt_wf_remove [simp, intro]: "bt_wf m \<Longrightarrow> bt_wf (bt_remove k m)"
  unfolding bt_wf_def bt_remove_def by (induction m) auto

text \<open>The values, in the order of their keys.\<close>

definition bt_values :: "('k, 'v) btree \<Rightarrow> 'v list" where
  "bt_values m = map snd m"

lemma bt_values_by_key:
  assumes "bt_wf m"
  shows "bt_values m = map (\<lambda>k. the (bt_get m k)) (sorted_list_of_set (dom (bt_get m)))"
proof -
  have d: "distinct (map fst m)" and s: "sorted (map fst m)"
    using assms by (auto simp: bt_wf_def strict_sorted_iff)
  have "bt_get m = map_of m"
    by (simp add: bt_get_def fun_eq_iff)
  then have "dom (bt_get m) = set (map fst m)"
    by (simp add: dom_map_of_conv_image_fst)
  then have "sorted_list_of_set (dom (bt_get m)) = map fst m"
    using sorted_list_of_set.idem_if_sorted_distinct [OF s d] by simp
  then show ?thesis
    using d by (auto simp: bt_values_def bt_get_def)
qed

section \<open>Machine integers\<close>

type_synonym i32 = "32 word"
type_synonym u8 = "8 word"

definition i32_val :: "i32 \<Rightarrow> int" where
  "i32_val w = sint w"

text \<open>
  An \<open>i64\<close> is a 64-bit word in two's complement. The program never adds or multiplies
  such values, but it orders them: they are the keys of the extension list, so the order
  is that of the signed value.
\<close>

datatype i64 = I64 "64 word"

fun i64_val :: "i64 \<Rightarrow> int" where
  "i64_val (I64 w) = sint w"

definition i64_of_int :: "int \<Rightarrow> i64" where
  "i64_of_int i = I64 (word_of_int i)"

definition in_i64 :: "int \<Rightarrow> bool" where
  "in_i64 i = (- (2 ^ 63) \<le> i \<and> i < 2 ^ 63)"

lemma i64_val_inject: "i64_val a = i64_val b \<longleftrightarrow> a = b"
  by (cases a; cases b) (metis i64.inject i64_val.simps signed_word_eqI)

lemma i64_val_of_int [simp]: "in_i64 i \<Longrightarrow> i64_val (i64_of_int i) = i"
  by (simp add: i64_of_int_def in_i64_def signed_of_int signed_take_bit_int_eq_self)

lemma in_i64_val [simp]: "in_i64 (i64_val a)"
proof (cases a)
  case (I64 w)
  have "- (2 ^ (LENGTH(64) - 1)) \<le> sint w" "sint w < 2 ^ (LENGTH(64) - 1)"
    by (rule sint_ge, rule sint_lt)
  with I64 show ?thesis by (simp add: in_i64_def)
qed

lemma i64_of_int_val [simp]: "i64_of_int (i64_val a) = a"
  by (simp flip: i64_val_inject)

instantiation i64 :: linorder
begin

definition less_eq_i64 :: "i64 \<Rightarrow> i64 \<Rightarrow> bool" where
  "less_eq_i64 a b = (i64_val a \<le> i64_val b)"

definition less_i64 :: "i64 \<Rightarrow> i64 \<Rightarrow> bool" where
  "less_i64 a b = (i64_val a < i64_val b)"

instance
  by standard (auto simp: less_eq_i64_def less_i64_def i64_val_inject)

end

section \<open>Strings\<close>

subsection \<open>Decimal numbers\<close>

definition digit_char :: "nat \<Rightarrow> char" where
  "digit_char d = char_of (48 + d)"

definition digit_val :: "char \<Rightarrow> int option" where
  "digit_val c = (let n = (of_char c :: nat) in if 48 \<le> n \<and> n \<le> 57 then Some (int n - 48) else None)"

fun show_nat :: "nat \<Rightarrow> string" where
  "show_nat n = (if n < 10 then [digit_char n] else show_nat (n div 10) @ [digit_char (n mod 10)])"

declare show_nat.simps [simp del]

definition show_int :: "int \<Rightarrow> string" where
  "show_int i = (if i < 0 then ''-'' @ show_nat (nat (- i)) else show_nat (nat i))"

definition show_i32 :: "i32 \<Rightarrow> string" where
  "show_i32 w = show_int (i32_val w)"

definition show_i64 :: "i64 \<Rightarrow> string" where
  "show_i64 a = show_int (i64_val a)"

text \<open>\<open>i64::from_str\<close>: an optional sign, then decimal digits, each step checked.\<close>

datatype parse_int_error = IntEmpty | InvalidDigit | PosOverflow | NegOverflow

fun parse_digits :: "int \<Rightarrow> parse_int_error \<Rightarrow> int \<Rightarrow> string \<Rightarrow> (int, parse_int_error) result" where
  "parse_digits sg ovf acc [] = Ok acc"
| "parse_digits sg ovf acc (c # cs) =
     (case digit_val c of
        None \<Rightarrow> Err InvalidDigit
      | Some d \<Rightarrow>
          (if \<not> in_i64 (acc * 10) then Err ovf
           else if \<not> in_i64 (acc * 10 + sg * d) then Err ovf
           else parse_digits sg ovf (acc * 10 + sg * d) cs))"

definition parse_i64 :: "string \<Rightarrow> (i64, parse_int_error) result" where
  "parse_i64 s = map_ok i64_of_int
     (case s of
        [] \<Rightarrow> Err IntEmpty
      | c # cs \<Rightarrow>
          (if c = CHR ''+'' then (if cs = [] then Err InvalidDigit else parse_digits 1 PosOverflow 0 cs)
           else if c = CHR ''-'' then (if cs = [] then Err InvalidDigit else parse_digits (- 1) NegOverflow 0 cs)
           else parse_digits 1 PosOverflow 0 (c # cs)))"

text \<open>The \<open>Display\<close> texts of \<open>ParseIntError\<close> in the Rust standard library.\<close>

fun show_parse_int_error :: "parse_int_error \<Rightarrow> string" where
  "show_parse_int_error IntEmpty = ''cannot parse integer from empty string''"
| "show_parse_int_error InvalidDigit = ''invalid digit found in string''"
| "show_parse_int_error PosOverflow = ''number too large to fit in target type''"
| "show_parse_int_error NegOverflow = ''number too small to fit in target type''"

lemma digit_val_char [simp]: "d < 10 \<Longrightarrow> digit_val (digit_char d) = Some (int d)"
  by (simp add: digit_val_def digit_char_def Let_def)

lemma show_nat_nonempty [simp]: "show_nat n \<noteq> []"
  by (subst show_nat.simps) simp

lemma show_nat_digits: "c \<in> set (show_nat n) \<Longrightarrow> digit_val c \<noteq> None"
proof (induction n rule: show_nat.induct)
  case (1 n)
  then show ?case
    by (cases "n < 10") (auto simp: show_nat.simps [of n])
qed

lemma hd_show_nat_not_sign: "hd (show_nat n) \<noteq> CHR ''+'' \<and> hd (show_nat n) \<noteq> CHR ''-''"
proof -
  have "digit_val (hd (show_nat n)) \<noteq> None"
    by (rule show_nat_digits [of _ n]) simp
  then show ?thesis
    by (auto simp: digit_val_def)
qed

lemma parse_digits_show_nat:
  assumes "sg = 1 \<or> sg = - 1" and "in_i64 (sg * int n)"
  shows "parse_digits sg ovf 0 (show_nat n @ cs) = parse_digits sg ovf (sg * int n) cs"
  using assms(2)
proof (induction n arbitrary: cs rule: show_nat.induct)
  case (1 n)
  show ?case
  proof (cases "n < 10")
    case True
    with "1.prems" show ?thesis
      by (simp add: show_nat.simps [of n] in_i64_def)
  next
    case False
    have ten: "int n = int (n div 10) * 10 + int (n mod 10)"
      by presburger
    have split: "sg * int n = sg * int (n div 10) * 10 + sg * int (n mod 10)"
      using assms(1) ten by auto
    have pre: "in_i64 (sg * int (n div 10))" "in_i64 (sg * int (n div 10) * 10)"
      using "1.prems" assms(1) by (auto simp: in_i64_def zdiv_int)
    have "parse_digits sg ovf 0 (show_nat n @ cs)
        = parse_digits sg ovf (sg * int (n div 10)) (digit_char (n mod 10) # cs)"
      using "1.IH" [OF False pre(1)] False by (simp add: show_nat.simps [of n])
    also have "\<dots> = parse_digits sg ovf (sg * int n) cs"
      using pre(2) "1.prems" by (simp add: split [symmetric])
    finally show ?thesis .
  qed
qed

lemma parse_i64_show_int:
  assumes "in_i64 i"
  shows "parse_i64 (show_int i) = Ok (i64_of_int i)"
proof (cases "i < 0")
  case True
  with assms parse_digits_show_nat [of "- 1" "nat (- i)" NegOverflow "[]"] show ?thesis
    by (simp add: parse_i64_def show_int_def)
next
  case False
  obtain c cs where c: "show_nat (nat i) = c # cs"
    by (cases "show_nat (nat i)") auto
  with False assms parse_digits_show_nat [of 1 "nat i" PosOverflow "[]"] hd_show_nat_not_sign [of "nat i"]
  show ?thesis
    by (simp add: parse_i64_def show_int_def)
qed

lemma parse_i64_show_i64 [simp]: "parse_i64 (show_i64 a) = Ok a"
  by (simp add: show_i64_def parse_i64_show_int)

subsection \<open>Searching and replacing\<close>

text \<open>\<open>str::replace\<close>: the matches of a non-empty pattern, left to right, not overlapping.\<close>

function replace_all :: "string \<Rightarrow> string \<Rightarrow> string \<Rightarrow> string" where
  "replace_all pat r [] = []"
| "replace_all pat r (c # cs) =
     (if pat \<noteq> [] \<and> take (length pat) (c # cs) = pat
      then r @ replace_all pat r (drop (length pat) (c # cs))
      else c # replace_all pat r cs)"
  by pat_completeness auto
termination
  by (relation "measure (\<lambda>(pat, r, s). length s)") auto

text \<open>\<open>str::replacen(c, r, 1)\<close> for a single character.\<close>

fun replace_first :: "char \<Rightarrow> string \<Rightarrow> string \<Rightarrow> string" where
  "replace_first x r [] = []"
| "replace_first x r (c # cs) = (if c = x then r @ cs else c # replace_first x r cs)"

text \<open>\<open>str::rfind\<close> for a single character: the index of its last occurrence.\<close>

fun rfind :: "char \<Rightarrow> string \<Rightarrow> nat option" where
  "rfind x [] = None"
| "rfind x (c # cs) =
     (case rfind x cs of
        Some i \<Rightarrow> Some (Suc i)
      | None \<Rightarrow> if c = x then Some 0 else None)"

text \<open>\<open>replace_range(i.., r)\<close>.\<close>

definition replace_from :: "nat \<Rightarrow> string \<Rightarrow> string \<Rightarrow> string" where
  "replace_from i r s = take i s @ r"

fun join :: "string \<Rightarrow> string list \<Rightarrow> string" where
  "join sep [] = []"
| "join sep [s] = s"
| "join sep (s # ss) = s @ sep @ join sep ss"

definition to_ascii_lowercase :: "char \<Rightarrow> char" where
  "to_ascii_lowercase c =
     (let n = (of_char c :: nat) in if 65 \<le> n \<and> n \<le> 90 then char_of (n + 32) else c)"

definition eq_ignore_ascii_case :: "string \<Rightarrow> string \<Rightarrow> bool" where
  "eq_ignore_ascii_case s t = (map to_ascii_lowercase s = map to_ascii_lowercase t)"

lemma rfind_None_iff: "rfind x s = None \<longleftrightarrow> x \<notin> set s"
  by (induction s) (auto split: option.split if_splits)

lemma rfind_Some_split: "rfind x s = Some i \<Longrightarrow> \<exists>t. s = take i s @ x # t \<and> x \<notin> set t"
proof (induction s arbitrary: i)
  case Nil
  then show ?case by simp
next
  case (Cons c cs)
  show ?case
  proof (cases "rfind x cs")
    case None
    with Cons.prems have "c = x" "i = 0" "x \<notin> set cs"
      by (auto simp: rfind_None_iff split: if_splits)
    then show ?thesis by simp
  next
    case (Some j)
    with Cons.prems have "i = Suc j" by simp
    with Cons.IH [OF Some] show ?thesis by auto
  qed
qed

lemma join_Nil_iff: "join sep ss = [] \<longleftrightarrow> (\<forall>s \<in> set ss. s = []) \<and> (sep = [] \<or> length ss \<le> 1)"
  by (induction sep ss rule: join.induct) auto

section \<open>Counting in lists\<close>

lemma distinct_count_list: "distinct xs \<Longrightarrow> count_list xs x \<le> 1"
  by (induction xs) auto

end
