(* ===== verification/Errors.thy ===== *)
theory Errors
  imports Prelude
begin

text \<open>
  \<open>src/src/lib.rs\<close>: the error type of the plugin APIs, its \<open>Display\<close> text, context
  chaining and the conversion from errors of the Thrift crate. The Thrift error is third
  party: its kinds are carried as the text of their \<open>Debug\<close> output.
\<close>

named_theorems error_simps \<open>equations of errors and their texts\<close>

type_synonym plugin_request = "(string, string) btree"
type_synonym plugin_response = "(string, string) btree list"
type_synonym extension_uuid = i64
type_synonym extension_registry = "(string, (string, plugin_response) btree) btree"

section \<open>Thrift errors\<close>

datatype app_error = AppError (app_kind: string) (app_message: string)

datatype thrift_error =
    TTransport string string
  | TProtocol string string
  | TApplication app_error
  | TUser string

section \<open>The SDK's error type\<close>

datatype io_error = IoError (io_kind: string) (io_text: string)

datatype error =
    Transport string
  | Io io_error
  | Status i32 string
  | Context string error
  | Other string

primrec show_error :: "error \<Rightarrow> string" where
  "show_error (Transport m) = m"
| "show_error (Io e) = io_text e"
| "show_error (Status code message) = ''osquery status '' @ show_i32 code @ '': '' @ message"
| "show_error (Context message source) = message @ '' - '' @ show_error source"
| "show_error (Other m) = m"

definition error_context :: "error \<Rightarrow> string \<Rightarrow> error" where
  "error_context e message = Context message e"

definition error_from_str :: "string \<Rightarrow> error" where
  "error_from_str s = Other s"

definition error_from_io :: "io_error \<Rightarrow> error" where
  "error_from_io e = Io e"

fun error_source :: "error \<Rightarrow> error option" where
  "error_source (Context message source) = Some source"
| "error_source e = None"

fun from_thrift :: "thrift_error \<Rightarrow> error" where
  "from_thrift (TTransport kind message) = Transport (message @ '': TransportKind('' @ kind @ '')'')"
| "from_thrift (TProtocol kind message) = Transport (message @ '': ProtocolKind('' @ kind @ '')'')"
| "from_thrift (TApplication a) =
     Transport (app_message a @ '': ApplicationKind('' @ app_kind a @ '')'')"
| "from_thrift (TUser text) = Transport text"

text \<open>\<open>thrift::Error::from(&str)\<close>: an application error of unknown kind.\<close>

definition thrift_error_from_str :: "string \<Rightarrow> thrift_error" where
  "thrift_error_from_str s = TApplication (AppError ''Unknown'' s)"

fun is_status :: "error \<Rightarrow> bool" where
  "is_status (Status code message) = True"
| "is_status e = False"

text \<open>The two arms every plugin ends with: a \<open>Status\<close> passes, other errors are wrapped.\<close>

definition pass_status :: "(error \<Rightarrow> error) \<Rightarrow> error \<Rightarrow> error" where
  "pass_status wrap e = (if is_status e then e else wrap e)"

lemma pass_status_Status [simp, error_simps]: "pass_status wrap (Status c m) = Status c m"
  by (simp add: pass_status_def)

lemma is_status_iff: "is_status e \<longleftrightarrow> (\<exists>c m. e = Status c m)"
  by (cases e) auto

lemma pass_status_other [error_simps]: "\<not> is_status e \<Longrightarrow> pass_status wrap e = wrap e"
  by (simp add: pass_status_def)

lemma from_thrift_not_status [simp]: "\<not> is_status (from_thrift e)"
  by (cases e rule: from_thrift.cases) auto

end
