(* ===== verification/Wire.thy ===== *)
theory Wire
  imports Errors
begin

text \<open>
  \<open>src/src/osquery.rs\<close>, the Thrift data structures and their serialisation. The protocol
  objects of the Thrift crate (\<open>TInputProtocol\<close>, \<open>TOutputProtocol\<close> and the helper
  functions the generated code calls) are third party: they are the fields of the record
  \<open>thrift\<close>, a parameter of every definition here, over a connection state \<open>'c\<close>.
  The loops of the generated readers may run forever on an endless input, so they carry
  the fuel \<open>t_fuel\<close> of that record.
\<close>

section \<open>The interface of the Thrift crate\<close>

datatype ttype =
    TStop | TVoid | TBool | TI08 | TDouble | TI16 | TI32 | TI64 | TString | TStruct | TMap | TSet | TList

datatype mtype = MCall | MReply | MException | MOneWay

record mident =
  mi_name :: string
  mi_type :: mtype
  mi_seq :: i32

record fident =
  fi_type :: ttype
  fi_id :: "16 word option"

type_synonym ('c, 'a) tact = "('c, 'a, thrift_error) act"

record 'c thrift =
  rd_message_begin :: "('c, mident) tact"
  rd_message_end :: "('c, unit) tact"
  rd_struct_begin :: "('c, unit) tact"
  rd_struct_end :: "('c, unit) tact"
  rd_field_begin :: "('c, fident) tact"
  rd_field_end :: "('c, unit) tact"
  rd_list_begin :: "('c, i32) tact"
  rd_list_end :: "('c, unit) tact"
  rd_map_begin :: "('c, i32) tact"
  rd_map_end :: "('c, unit) tact"
  rd_i32 :: "('c, i32) tact"
  rd_i64 :: "('c, i64) tact"
  rd_string :: "('c, string) tact"
  rd_skip :: "ttype \<Rightarrow> ('c, unit) tact"
  rd_app_error :: "('c, app_error) tact"
  wr_message_begin :: "mident \<Rightarrow> ('c, unit) tact"
  wr_message_end :: "('c, unit) tact"
  wr_struct_begin :: "string \<Rightarrow> ('c, unit) tact"
  wr_struct_end :: "('c, unit) tact"
  wr_field_begin :: "string \<Rightarrow> ttype \<Rightarrow> 16 word \<Rightarrow> ('c, unit) tact"
  wr_field_end :: "('c, unit) tact"
  wr_field_stop :: "('c, unit) tact"
  wr_list_begin :: "ttype \<Rightarrow> i32 \<Rightarrow> ('c, unit) tact"
  wr_list_end :: "('c, unit) tact"
  wr_map_begin :: "ttype \<Rightarrow> ttype \<Rightarrow> i32 \<Rightarrow> ('c, unit) tact"
  wr_map_end :: "('c, unit) tact"
  wr_i32 :: "i32 \<Rightarrow> ('c, unit) tact"
  wr_i64 :: "i64 \<Rightarrow> ('c, unit) tact"
  wr_string :: "string \<Rightarrow> ('c, unit) tact"
  wr_app_error :: "app_error \<Rightarrow> ('c, unit) tact"
  wr_flush :: "('c, unit) tact"
  t_field_id :: "fident \<Rightarrow> (16 word, thrift_error) result"
  t_verify_seq :: "i32 \<Rightarrow> i32 \<Rightarrow> (unit, thrift_error) result"
  t_verify_call :: "string \<Rightarrow> string \<Rightarrow> (unit, thrift_error) result"
  t_verify_type :: "mtype \<Rightarrow> mtype \<Rightarrow> (unit, thrift_error) result"
  t_missing_field :: "string \<Rightarrow> thrift_error"
  t_display :: "thrift_error \<Rightarrow> string"
  t_process_result :: "mident \<Rightarrow> (unit, thrift_error) result \<Rightarrow> ('c, unit) tact"
  t_fuel :: nat

section \<open>The shapes of generated code\<close>

text \<open>
  \<open>loop { read_field_begin; stop? break; field_id; match ...; read_field_end }\<close>: the
  arms of the \<open>match\<close> are a parameter, the local variables of the loop its accumulator.
\<close>

primrec read_fields ::
  "'c thrift \<Rightarrow> nat \<Rightarrow> (16 word \<Rightarrow> ttype \<Rightarrow> 'x \<Rightarrow> ('c, 'x) tact) \<Rightarrow> 'x \<Rightarrow> ('c, 'x) tact" where
  "read_fields T 0 arms x = diverge"
| "read_fields T (Suc n) arms x =
     bnd (rd_field_begin T) (\<lambda>fi.
       if fi_type fi = TStop then ret x
       else bnd (lift_result (t_field_id T fi)) (\<lambda>fid.
         bnd (arms fid (fi_type fi) x) (\<lambda>x'.
           seq (rd_field_end T) (read_fields T n arms x'))))"

definition read_struct ::
  "'c thrift \<Rightarrow> (16 word \<Rightarrow> ttype \<Rightarrow> 'x \<Rightarrow> ('c, 'x) tact) \<Rightarrow> 'x \<Rightarrow> ('c, 'x) tact" where
  "read_struct T arms x =
     seq (rd_struct_begin T)
       (bnd (read_fields T (t_fuel T) arms x) (\<lambda>x'. seq (rd_struct_end T) (ret x')))"

text \<open>The loop of a struct without fields does not ask for the field's id.\<close>

primrec skip_fields :: "'c thrift \<Rightarrow> nat \<Rightarrow> ('c, unit) tact" where
  "skip_fields T 0 = diverge"
| "skip_fields T (Suc n) =
     bnd (rd_field_begin T) (\<lambda>fi.
       if fi_type fi = TStop then ret ()
       else seq (rd_skip T (fi_type fi)) (seq (rd_field_end T) (skip_fields T n)))"

definition read_empty_struct :: "'c thrift \<Rightarrow> ('c, unit) tact" where
  "read_empty_struct T =
     seq (rd_struct_begin T) (seq (skip_fields T (t_fuel T)) (rd_struct_end T))"

text \<open>The \<open>_\<close> arm: an unknown field is skipped and the variables stay as they are.\<close>

definition skip_arm :: "'c thrift \<Rightarrow> ttype \<Rightarrow> 'x \<Rightarrow> ('c, 'x) tact" where
  "skip_arm T ty x = seq (rd_skip T ty) (ret x)"

primrec read_entries ::
  "nat \<Rightarrow> ('c, 'k::linorder) tact \<Rightarrow> ('c, 'v) tact \<Rightarrow> ('k, 'v) btree \<Rightarrow> ('c, ('k, 'v) btree) tact" where
  "read_entries 0 rk rv m = ret m"
| "read_entries (Suc n) rk rv m =
     bnd rk (\<lambda>k. bnd rv (\<lambda>v. read_entries n rk rv (bt_insert k v m)))"

definition read_btree ::
  "'c thrift \<Rightarrow> ('c, 'k::linorder) tact \<Rightarrow> ('c, 'v) tact \<Rightarrow> ('c, ('k, 'v) btree) tact" where
  "read_btree T rk rv =
     bnd (rd_map_begin T) (\<lambda>size.
       bnd (read_entries (nat (i32_val size)) rk rv []) (\<lambda>m.
         seq (rd_map_end T) (ret m)))"

primrec read_items :: "nat \<Rightarrow> ('c, 'a) tact \<Rightarrow> ('c, 'a list) tact" where
  "read_items 0 re = ret []"
| "read_items (Suc n) re = bnd re (\<lambda>x. bnd (read_items n re) (\<lambda>xs. ret (x # xs)))"

text \<open>
  \<open>Vec::with_capacity(size as usize)\<close> comes first: a negative size becomes a capacity
  near \<open>2^64\<close>, which panics. (Memory is otherwise unbounded in the model.)
\<close>

definition read_vec :: "'c thrift \<Rightarrow> ('c, 'a) tact \<Rightarrow> ('c, 'a list) tact" where
  "read_vec T re =
     bnd (rd_list_begin T) (\<lambda>size.
       if i32_val size < 0 then panic ''capacity overflow''
       else bnd (read_items (nat (i32_val size)) re) (\<lambda>xs.
         seq (rd_list_end T) (ret xs)))"

primrec write_each :: "('a \<Rightarrow> ('c, unit) tact) \<Rightarrow> 'a list \<Rightarrow> ('c, unit) tact" where
  "write_each w [] = ret ()"
| "write_each w (x # xs) = seq (w x) (write_each w xs)"

definition write_field ::
  "'c thrift \<Rightarrow> string \<Rightarrow> ttype \<Rightarrow> 16 word \<Rightarrow> ('c, unit) tact \<Rightarrow> ('c, unit) tact" where
  "write_field T name ty fid body =
     seq (wr_field_begin T name ty fid) (seq body (wr_field_end T))"

definition write_opt_field ::
  "'c thrift \<Rightarrow> string \<Rightarrow> ttype \<Rightarrow> 16 word \<Rightarrow> ('a \<Rightarrow> ('c, unit) tact) \<Rightarrow> 'a option \<Rightarrow> ('c, unit) tact" where
  "write_opt_field T name ty fid w v =
     (case v of None \<Rightarrow> ret () | Some x \<Rightarrow> write_field T name ty fid (w x))"

definition write_struct :: "'c thrift \<Rightarrow> string \<Rightarrow> ('c, unit) tact \<Rightarrow> ('c, unit) tact" where
  "write_struct T name body =
     seq (wr_struct_begin T name) (seq body (seq (wr_field_stop T) (wr_struct_end T)))"

definition write_btree ::
  "'c thrift \<Rightarrow> ttype \<Rightarrow> ttype \<Rightarrow> ('k \<Rightarrow> ('c, unit) tact) \<Rightarrow> ('v \<Rightarrow> ('c, unit) tact)
    \<Rightarrow> ('k, 'v) btree \<Rightarrow> ('c, unit) tact" where
  "write_btree T kt vt wk wv m =
     seq (wr_map_begin T kt vt (of_nat (length m)))
       (seq (write_each (\<lambda>(k, v). seq (wk k) (wv v)) m) (wr_map_end T))"

definition write_vec ::
  "'c thrift \<Rightarrow> ttype \<Rightarrow> ('a \<Rightarrow> ('c, unit) tact) \<Rightarrow> 'a list \<Rightarrow> ('c, unit) tact" where
  "write_vec T et we xs =
     seq (wr_list_begin T et (of_nat (length xs))) (seq (write_each we xs) (wr_list_end T))"

definition read_string_map :: "'c thrift \<Rightarrow> ('c, (string, string) btree) tact" where
  "read_string_map T = read_btree T (rd_string T) (rd_string T)"

definition write_string_map :: "'c thrift \<Rightarrow> (string, string) btree \<Rightarrow> ('c, unit) tact" where
  "write_string_map T m = write_btree T TString TString (wr_string T) (wr_string T) m"

definition require_field :: "'c thrift \<Rightarrow> string \<Rightarrow> 'a option \<Rightarrow> ('c, 'a) tact" where
  "require_field T name v = (case v of None \<Rightarrow> fail (t_missing_field T name) | Some x \<Rightarrow> ret x)"

end
