(* ===== verification/WireTypes.thy ===== *)
theory WireTypes
  imports Wire
begin

text \<open>
  \<open>src/src/osquery.rs\<close>, the structs that travel inside messages: option and extension
  metadata, statuses, responses and the exception. Each has a record with the struct's
  fields (every one optional, as Thrift's default requiredness makes them), the reader
  with its defaults and the writer.
\<close>

section \<open>\<open>ExtensionCode\<close>\<close>

datatype extension_code = ExtensionCode (code_i32: i32)

definition EXT_SUCCESS :: extension_code where
  "EXT_SUCCESS = ExtensionCode 0"

definition EXT_FAILED :: extension_code where
  "EXT_FAILED = ExtensionCode 1"

definition EXT_FATAL :: extension_code where
  "EXT_FATAL = ExtensionCode 2"

definition extension_code_from_i32 :: "i32 \<Rightarrow> extension_code" where
  "extension_code_from_i32 i =
     (if i = 0 then EXT_SUCCESS else if i = 1 then EXT_FAILED else if i = 2 then EXT_FATAL
      else ExtensionCode i)"

definition ENUM_VALUES :: "extension_code list" where
  "ENUM_VALUES = [EXT_SUCCESS, EXT_FAILED, EXT_FATAL]"

definition i32_from_extension_code :: "extension_code \<Rightarrow> i32" where
  "i32_from_extension_code e = code_i32 e"

text \<open>Every number is a code, named or not, and the conversions undo each other.\<close>

lemma extension_code_conversions [simp]:
  "i32_from_extension_code (extension_code_from_i32 i) = i"
  "extension_code_from_i32 (i32_from_extension_code c) = c"
  by (cases c; simp add: i32_from_extension_code_def extension_code_from_i32_def EXT_SUCCESS_def EXT_FAILED_def
    EXT_FATAL_def)+

definition write_extension_code :: "'c thrift \<Rightarrow> extension_code \<Rightarrow> ('c, unit) tact" where
  "write_extension_code T c = wr_i32 T (code_i32 c)"

definition read_extension_code :: "'c thrift \<Rightarrow> ('c, extension_code) tact" where
  "read_extension_code T = bnd (rd_i32 T) (\<lambda>v. ret (extension_code_from_i32 v))"

section \<open>\<open>InternalOptionInfo\<close>\<close>

record w_option_info =
  wo_value :: "string option"
  wo_default_value :: "string option"
  wo_type :: "string option"

definition mk_option_info :: "string option \<Rightarrow> string option \<Rightarrow> string option \<Rightarrow> w_option_info" where
  "mk_option_info v default_value ty = \<lparr>wo_value = v, wo_default_value = default_value, wo_type = ty\<rparr>"

definition read_option_info :: "'c thrift \<Rightarrow> ('c, w_option_info) tact" where
  "read_option_info T =
     read_struct T
       (\<lambda>fid ty x.
          if fid = 1 then bnd (rd_string T) (\<lambda>v. ret (x\<lparr>wo_value := Some v\<rparr>))
          else if fid = 2 then bnd (rd_string T) (\<lambda>v. ret (x\<lparr>wo_default_value := Some v\<rparr>))
          else if fid = 3 then bnd (rd_string T) (\<lambda>v. ret (x\<lparr>wo_type := Some v\<rparr>))
          else skip_arm T ty x)
       \<lparr>wo_value = Some '''', wo_default_value = Some '''', wo_type = Some ''''\<rparr>"

definition write_option_info :: "'c thrift \<Rightarrow> w_option_info \<Rightarrow> ('c, unit) tact" where
  "write_option_info T o' =
     write_struct T ''InternalOptionInfo''
       (seq (write_opt_field T ''value'' TString 1 (wr_string T) (wo_value o'))
       (seq (write_opt_field T ''default_value'' TString 2 (wr_string T) (wo_default_value o'))
            (write_opt_field T ''type'' TString 3 (wr_string T) (wo_type o'))))"

section \<open>\<open>InternalExtensionInfo\<close>\<close>

record w_extension_info =
  we_name :: "string option"
  we_version :: "string option"
  we_sdk_version :: "string option"
  we_min_sdk_version :: "string option"

definition mk_extension_info ::
  "string option \<Rightarrow> string option \<Rightarrow> string option \<Rightarrow> string option \<Rightarrow> w_extension_info" where
  "mk_extension_info name version sdk_version min_sdk_version =
     \<lparr>we_name = name, we_version = version, we_sdk_version = sdk_version, we_min_sdk_version = min_sdk_version\<rparr>"

definition read_extension_info :: "'c thrift \<Rightarrow> ('c, w_extension_info) tact" where
  "read_extension_info T =
     read_struct T
       (\<lambda>fid ty x.
          if fid = 1 then bnd (rd_string T) (\<lambda>v. ret (x\<lparr>we_name := Some v\<rparr>))
          else if fid = 2 then bnd (rd_string T) (\<lambda>v. ret (x\<lparr>we_version := Some v\<rparr>))
          else if fid = 3 then bnd (rd_string T) (\<lambda>v. ret (x\<lparr>we_sdk_version := Some v\<rparr>))
          else if fid = 4 then bnd (rd_string T) (\<lambda>v. ret (x\<lparr>we_min_sdk_version := Some v\<rparr>))
          else skip_arm T ty x)
       \<lparr>we_name = Some '''', we_version = Some '''', we_sdk_version = Some '''',
        we_min_sdk_version = Some ''''\<rparr>"

definition write_extension_info :: "'c thrift \<Rightarrow> w_extension_info \<Rightarrow> ('c, unit) tact" where
  "write_extension_info T e =
     write_struct T ''InternalExtensionInfo''
       (seq (write_opt_field T ''name'' TString 1 (wr_string T) (we_name e))
       (seq (write_opt_field T ''version'' TString 2 (wr_string T) (we_version e))
       (seq (write_opt_field T ''sdk_version'' TString 3 (wr_string T) (we_sdk_version e))
            (write_opt_field T ''min_sdk_version'' TString 4 (wr_string T) (we_min_sdk_version e)))))"

section \<open>\<open>ExtensionStatus\<close>\<close>

record w_status =
  ws_code :: "i32 option"
  ws_message :: "string option"
  ws_uuid :: "i64 option"

definition read_status :: "'c thrift \<Rightarrow> ('c, w_status) tact" where
  "read_status T =
     read_struct T
       (\<lambda>fid ty x.
          if fid = 1 then bnd (rd_i32 T) (\<lambda>v. ret (x\<lparr>ws_code := Some v\<rparr>))
          else if fid = 2 then bnd (rd_string T) (\<lambda>v. ret (x\<lparr>ws_message := Some v\<rparr>))
          else if fid = 3 then bnd (rd_i64 T) (\<lambda>v. ret (x\<lparr>ws_uuid := Some v\<rparr>))
          else skip_arm T ty x)
       \<lparr>ws_code = Some 0, ws_message = Some '''', ws_uuid = Some (I64 0)\<rparr>"

definition write_status :: "'c thrift \<Rightarrow> w_status \<Rightarrow> ('c, unit) tact" where
  "write_status T s =
     write_struct T ''ExtensionStatus''
       (seq (write_opt_field T ''code'' TI32 1 (wr_i32 T) (ws_code s))
       (seq (write_opt_field T ''message'' TString 2 (wr_string T) (ws_message s))
            (write_opt_field T ''uuid'' TI64 3 (wr_i64 T) (ws_uuid s))))"

definition mk_status :: "i32 \<Rightarrow> string \<Rightarrow> i64 option \<Rightarrow> w_status" where
  "mk_status code message uuid = \<lparr>ws_code = Some code, ws_message = Some message, ws_uuid = uuid\<rparr>"

section \<open>\<open>ExtensionResponse\<close>\<close>

record w_response =
  wp_status :: "w_status option"
  wp_response :: "plugin_response option"

definition read_plugin_response :: "'c thrift \<Rightarrow> ('c, plugin_response) tact" where
  "read_plugin_response T = read_vec T (read_string_map T)"

definition write_plugin_response :: "'c thrift \<Rightarrow> plugin_response \<Rightarrow> ('c, unit) tact" where
  "write_plugin_response T rows = write_vec T TMap (write_string_map T) rows"

definition read_response :: "'c thrift \<Rightarrow> ('c, w_response) tact" where
  "read_response T =
     read_struct T
       (\<lambda>fid ty x.
          if fid = 1 then bnd (read_status T) (\<lambda>v. ret (x\<lparr>wp_status := Some v\<rparr>))
          else if fid = 2 then bnd (read_plugin_response T) (\<lambda>v. ret (x\<lparr>wp_response := Some v\<rparr>))
          else skip_arm T ty x)
       \<lparr>wp_status = None, wp_response = Some []\<rparr>"

definition write_response :: "'c thrift \<Rightarrow> w_response \<Rightarrow> ('c, unit) tact" where
  "write_response T r =
     write_struct T ''ExtensionResponse''
       (seq (write_opt_field T ''status'' TStruct 1 (write_status T) (wp_status r))
            (write_opt_field T ''response'' TList 2 (write_plugin_response T) (wp_response r)))"

definition mk_response :: "w_status \<Rightarrow> plugin_response option \<Rightarrow> w_response" where
  "mk_response status rows = \<lparr>wp_status = Some status, wp_response = rows\<rparr>"

section \<open>\<open>ExtensionException\<close>\<close>

record w_exception =
  wx_code :: "i32 option"
  wx_message :: "string option"
  wx_uuid :: "i64 option"

definition mk_exception :: "i32 option \<Rightarrow> string option \<Rightarrow> i64 option \<Rightarrow> w_exception" where
  "mk_exception code message uuid = \<lparr>wx_code = code, wx_message = message, wx_uuid = uuid\<rparr>"

definition read_exception :: "'c thrift \<Rightarrow> ('c, w_exception) tact" where
  "read_exception T =
     read_struct T
       (\<lambda>fid ty x.
          if fid = 1 then bnd (rd_i32 T) (\<lambda>v. ret (x\<lparr>wx_code := Some v\<rparr>))
          else if fid = 2 then bnd (rd_string T) (\<lambda>v. ret (x\<lparr>wx_message := Some v\<rparr>))
          else if fid = 3 then bnd (rd_i64 T) (\<lambda>v. ret (x\<lparr>wx_uuid := Some v\<rparr>))
          else skip_arm T ty x)
       \<lparr>wx_code = Some 0, wx_message = Some '''', wx_uuid = Some (I64 0)\<rparr>"

definition write_exception :: "'c thrift \<Rightarrow> w_exception \<Rightarrow> ('c, unit) tact" where
  "write_exception T x =
     write_struct T ''ExtensionException''
       (seq (write_opt_field T ''code'' TI32 1 (wr_i32 T) (wx_code x))
       (seq (write_opt_field T ''message'' TString 2 (wr_string T) (wx_message x))
            (write_opt_field T ''uuid'' TI64 3 (wr_i64 T) (wx_uuid x))))"

definition exception_display :: string where
  "exception_display = ''remote service threw ExtensionException''"

definition exception_to_thrift :: "w_exception \<Rightarrow> thrift_error" where
  "exception_to_thrift x = TUser exception_display"

end
