(* ===== verification/WireMessages.thy ===== *)
theory WireMessages
  imports WireTypes
begin

text \<open>
  \<open>src/src/osquery.rs\<close>, the argument and result structs of the services' methods: for
  each method the reader and writer of its arguments, those of its result, and \<open>ok_or\<close>,
  which turns an absent result into an application error.
\<close>

section \<open>The shape of a result struct\<close>

definition read_result :: "'c thrift \<Rightarrow> ('c, 'a) tact \<Rightarrow> ('c, 'a option) tact" where
  "read_result T re =
     read_struct T
       (\<lambda>fid ty x. if fid = 0 then bnd re (\<lambda>v. ret (Some v)) else skip_arm T ty x) None"

definition write_result ::
  "'c thrift \<Rightarrow> string \<Rightarrow> ttype \<Rightarrow> ('a \<Rightarrow> ('c, unit) tact) \<Rightarrow> 'a option \<Rightarrow> ('c, unit) tact" where
  "write_result T name ty w r = write_struct T name (write_opt_field T ''result_value'' ty 0 w r)"

fun result_ok_or :: "string \<Rightarrow> 'a option \<Rightarrow> ('a, thrift_error) result" where
  "result_ok_or method (Some v) = Ok v"
| "result_ok_or method None =
     Err (TApplication (AppError ''MissingResult'' (''no result received for '' @ method)))"

section \<open>\<open>ping\<close>\<close>

definition read_ping_args :: "'c thrift \<Rightarrow> ('c, unit) tact" where
  "read_ping_args T = read_empty_struct T"

definition write_ping_args :: "'c thrift \<Rightarrow> unit \<Rightarrow> ('c, unit) tact" where
  "write_ping_args T a = write_struct T ''ping_args'' (ret ())"

definition read_ping_result :: "'c thrift \<Rightarrow> ('c, w_status option) tact" where
  "read_ping_result T = read_result T (read_status T)"

definition write_ping_result :: "'c thrift \<Rightarrow> w_status option \<Rightarrow> ('c, unit) tact" where
  "write_ping_result T r = write_result T ''ExtensionPingResult'' TStruct (write_status T) r"

definition ping_result_ok_or :: "w_status option \<Rightarrow> (w_status, thrift_error) result" where
  "ping_result_ok_or r = result_ok_or ''ExtensionPing'' r"

section \<open>\<open>call\<close>\<close>

record call_args =
  ca_registry :: string
  ca_item :: string
  ca_request :: plugin_request

definition read_call_args :: "'c thrift \<Rightarrow> ('c, call_args) tact" where
  "read_call_args T =
     bnd (read_struct T
       (\<lambda>fid ty (f1, f2, f3).
          if fid = 1 then bnd (rd_string T) (\<lambda>v. ret (Some v, f2, f3))
          else if fid = 2 then bnd (rd_string T) (\<lambda>v. ret (f1, Some v, f3))
          else if fid = 3 then bnd (read_string_map T) (\<lambda>v. ret (f1, f2, Some v))
          else skip_arm T ty (f1, f2, f3))
       (None, None, None))
     (\<lambda>(f1, f2, f3).
       bnd (require_field T ''ExtensionCallArgs.registry'' f1) (\<lambda>registry.
       bnd (require_field T ''ExtensionCallArgs.item'' f2) (\<lambda>item.
       bnd (require_field T ''ExtensionCallArgs.request'' f3) (\<lambda>request.
         ret \<lparr>ca_registry = registry, ca_item = item, ca_request = request\<rparr>))))"

definition write_call_args :: "'c thrift \<Rightarrow> call_args \<Rightarrow> ('c, unit) tact" where
  "write_call_args T a =
     write_struct T ''call_args''
       (seq (write_field T ''registry'' TString 1 (wr_string T (ca_registry a)))
       (seq (write_field T ''item'' TString 2 (wr_string T (ca_item a)))
            (write_field T ''request'' TMap 3 (write_string_map T (ca_request a)))))"

definition read_call_result :: "'c thrift \<Rightarrow> ('c, w_response option) tact" where
  "read_call_result T = read_result T (read_response T)"

definition write_call_result :: "'c thrift \<Rightarrow> w_response option \<Rightarrow> ('c, unit) tact" where
  "write_call_result T r = write_result T ''ExtensionCallResult'' TStruct (write_response T) r"

definition call_result_ok_or :: "w_response option \<Rightarrow> (w_response, thrift_error) result" where
  "call_result_ok_or r = result_ok_or ''ExtensionCall'' r"

section \<open>\<open>shutdown\<close>\<close>

definition read_shutdown_args :: "'c thrift \<Rightarrow> ('c, unit) tact" where
  "read_shutdown_args T = read_empty_struct T"

definition write_shutdown_args :: "'c thrift \<Rightarrow> unit \<Rightarrow> ('c, unit) tact" where
  "write_shutdown_args T a = write_struct T ''shutdown_args'' (ret ())"

definition read_shutdown_result :: "'c thrift \<Rightarrow> ('c, unit) tact" where
  "read_shutdown_result T = read_empty_struct T"

definition write_shutdown_result :: "'c thrift \<Rightarrow> unit \<Rightarrow> ('c, unit) tact" where
  "write_shutdown_result T r = write_struct T ''ExtensionShutdownResult'' (ret ())"

definition shutdown_result_ok_or :: "unit \<Rightarrow> (unit, thrift_error) result" where
  "shutdown_result_ok_or r = Ok ()"

section \<open>\<open>extensions\<close>\<close>

definition read_extensions_args :: "'c thrift \<Rightarrow> ('c, unit) tact" where
  "read_extensions_args T = read_empty_struct T"

definition write_extensions_args :: "'c thrift \<Rightarrow> unit \<Rightarrow> ('c, unit) tact" where
  "write_extensions_args T a = write_struct T ''extensions_args'' (ret ())"

type_synonym w_extension_list = "(i64, w_extension_info) btree"
type_synonym w_option_list = "(string, w_option_info) btree"

definition read_extensions_result :: "'c thrift \<Rightarrow> ('c, w_extension_list option) tact" where
  "read_extensions_result T = read_result T (read_btree T (rd_i64 T) (read_extension_info T))"

definition write_extensions_result :: "'c thrift \<Rightarrow> w_extension_list option \<Rightarrow> ('c, unit) tact" where
  "write_extensions_result T r = write_result T ''ExtensionManagerExtensionsResult'' TMap (write_btree T TI64 TStruct (wr_i64 T) (write_extension_info T)) r"

definition extensions_result_ok_or :: "w_extension_list option \<Rightarrow> (w_extension_list, thrift_error) result" where
  "extensions_result_ok_or r = result_ok_or ''ExtensionManagerExtensions'' r"

section \<open>\<open>options\<close>\<close>

definition read_options_args :: "'c thrift \<Rightarrow> ('c, unit) tact" where
  "read_options_args T = read_empty_struct T"

definition write_options_args :: "'c thrift \<Rightarrow> unit \<Rightarrow> ('c, unit) tact" where
  "write_options_args T a = write_struct T ''options_args'' (ret ())"

definition read_options_result :: "'c thrift \<Rightarrow> ('c, w_option_list option) tact" where
  "read_options_result T = read_result T (read_btree T (rd_string T) (read_option_info T))"

definition write_options_result :: "'c thrift \<Rightarrow> w_option_list option \<Rightarrow> ('c, unit) tact" where
  "write_options_result T r = write_result T ''ExtensionManagerOptionsResult'' TMap (write_btree T TString TStruct (wr_string T) (write_option_info T)) r"

definition options_result_ok_or :: "w_option_list option \<Rightarrow> (w_option_list, thrift_error) result" where
  "options_result_ok_or r = result_ok_or ''ExtensionManagerOptions'' r"

section \<open>\<open>registerExtension\<close>\<close>

record register_args =
  ra_info :: w_extension_info
  ra_registry :: extension_registry

definition read_route_table :: "'c thrift \<Rightarrow> ('c, (string, plugin_response) btree) tact" where
  "read_route_table T = read_btree T (rd_string T) (read_plugin_response T)"

definition read_registry :: "'c thrift \<Rightarrow> ('c, extension_registry) tact" where
  "read_registry T = read_btree T (rd_string T) (read_route_table T)"

definition write_route_table :: "'c thrift \<Rightarrow> (string, plugin_response) btree \<Rightarrow> ('c, unit) tact" where
  "write_route_table T m = write_btree T TString TList (wr_string T) (write_plugin_response T) m"

definition write_registry :: "'c thrift \<Rightarrow> extension_registry \<Rightarrow> ('c, unit) tact" where
  "write_registry T m = write_btree T TString TMap (wr_string T) (write_route_table T) m"

definition read_register_args :: "'c thrift \<Rightarrow> ('c, register_args) tact" where
  "read_register_args T =
     bnd (read_struct T
       (\<lambda>fid ty (f1, f2).
          if fid = 1 then bnd (read_extension_info T) (\<lambda>v. ret (Some v, f2))
          else if fid = 2 then bnd (read_registry T) (\<lambda>v. ret (f1, Some v))
          else skip_arm T ty (f1, f2))
       (None, None))
     (\<lambda>(f1, f2).
       bnd (require_field T ''ExtensionManagerRegisterExtensionArgs.info'' f1) (\<lambda>info.
       bnd (require_field T ''ExtensionManagerRegisterExtensionArgs.registry'' f2) (\<lambda>registry.
         ret \<lparr>ra_info = info, ra_registry = registry\<rparr>)))"

definition write_register_args :: "'c thrift \<Rightarrow> register_args \<Rightarrow> ('c, unit) tact" where
  "write_register_args T a =
     write_struct T ''registerExtension_args''
       (seq (write_field T ''info'' TStruct 1 (write_extension_info T (ra_info a)))
            (write_field T ''registry'' TMap 2 (write_registry T (ra_registry a))))"

definition read_register_result :: "'c thrift \<Rightarrow> ('c, w_status option) tact" where
  "read_register_result T = read_result T (read_status T)"

definition write_register_result :: "'c thrift \<Rightarrow> w_status option \<Rightarrow> ('c, unit) tact" where
  "write_register_result T r = write_result T ''ExtensionManagerRegisterExtensionResult'' TStruct (write_status T) r"

definition register_result_ok_or :: "w_status option \<Rightarrow> (w_status, thrift_error) result" where
  "register_result_ok_or r = result_ok_or ''ExtensionManagerRegisterExtension'' r"

section \<open>\<open>deregisterExtension\<close>\<close>

definition read_deregister_args :: "'c thrift \<Rightarrow> ('c, i64) tact" where
  "read_deregister_args T =
     bnd (read_struct T
       (\<lambda>fid ty f1.
          if fid = 1 then bnd (rd_i64 T) (\<lambda>v. ret (Some v))
          else skip_arm T ty f1)
       None)
     (\<lambda>f1. require_field T ''ExtensionManagerDeregisterExtensionArgs.uuid'' f1)"

definition write_deregister_args :: "'c thrift \<Rightarrow> i64 \<Rightarrow> ('c, unit) tact" where
  "write_deregister_args T a =
     write_struct T ''deregisterExtension_args'' (write_field T ''uuid'' TI64 1 (wr_i64 T a))"

definition read_deregister_result :: "'c thrift \<Rightarrow> ('c, w_status option) tact" where
  "read_deregister_result T = read_result T (read_status T)"

definition write_deregister_result :: "'c thrift \<Rightarrow> w_status option \<Rightarrow> ('c, unit) tact" where
  "write_deregister_result T r = write_result T ''ExtensionManagerDeregisterExtensionResult'' TStruct (write_status T) r"

definition deregister_result_ok_or :: "w_status option \<Rightarrow> (w_status, thrift_error) result" where
  "deregister_result_ok_or r = result_ok_or ''ExtensionManagerDeregisterExtension'' r"

section \<open>\<open>query\<close>\<close>

definition read_query_args :: "'c thrift \<Rightarrow> ('c, string) tact" where
  "read_query_args T =
     bnd (read_struct T
       (\<lambda>fid ty f1.
          if fid = 1 then bnd (rd_string T) (\<lambda>v. ret (Some v))
          else skip_arm T ty f1)
       None)
     (\<lambda>f1. require_field T ''ExtensionManagerQueryArgs.sql'' f1)"

definition write_query_args :: "'c thrift \<Rightarrow> string \<Rightarrow> ('c, unit) tact" where
  "write_query_args T a =
     write_struct T ''query_args'' (write_field T ''sql'' TString 1 (wr_string T a))"

definition read_query_result :: "'c thrift \<Rightarrow> ('c, w_response option) tact" where
  "read_query_result T = read_result T (read_response T)"

definition write_query_result :: "'c thrift \<Rightarrow> w_response option \<Rightarrow> ('c, unit) tact" where
  "write_query_result T r = write_result T ''ExtensionManagerQueryResult'' TStruct (write_response T) r"

definition query_result_ok_or :: "w_response option \<Rightarrow> (w_response, thrift_error) result" where
  "query_result_ok_or r = result_ok_or ''ExtensionManagerQuery'' r"

section \<open>\<open>getQueryColumns\<close>\<close>

definition read_get_query_columns_args :: "'c thrift \<Rightarrow> ('c, string) tact" where
  "read_get_query_columns_args T =
     bnd (read_struct T
       (\<lambda>fid ty f1.
          if fid = 1 then bnd (rd_string T) (\<lambda>v. ret (Some v))
          else skip_arm T ty f1)
       None)
     (\<lambda>f1. require_field T ''ExtensionManagerGetQueryColumnsArgs.sql'' f1)"

definition write_get_query_columns_args :: "'c thrift \<Rightarrow> string \<Rightarrow> ('c, unit) tact" where
  "write_get_query_columns_args T a =
     write_struct T ''getQueryColumns_args'' (write_field T ''sql'' TString 1 (wr_string T a))"

definition read_get_query_columns_result :: "'c thrift \<Rightarrow> ('c, w_response option) tact" where
  "read_get_query_columns_result T = read_result T (read_response T)"

definition write_get_query_columns_result :: "'c thrift \<Rightarrow> w_response option \<Rightarrow> ('c, unit) tact" where
  "write_get_query_columns_result T r = write_result T ''ExtensionManagerGetQueryColumnsResult'' TStruct (write_response T) r"

definition get_query_columns_result_ok_or :: "w_response option \<Rightarrow> (w_response, thrift_error) result" where
  "get_query_columns_result_ok_or r = result_ok_or ''ExtensionManagerGetQueryColumns'' r"

end
