(* ===== verification/Rpc.thy ===== *)
theory Rpc
  imports WireMessages
begin

text \<open>
  \<open>src/src/osquery.rs\<close>, the two ends of a remote call. A client is its connection and
  its sequence number; each method increments the number, writes a call message, flushes
  and reads the reply. A processor reads a message, runs the handler's method on the
  decoded arguments and writes a reply or an exception. The handler's state \<open>'h\<close> is
  threaded beside the connection \<open>'c\<close>.
\<close>

section \<open>The client side\<close>

type_synonym 'c rpc_client = "'c \<times> i32"

definition new_rpc_client :: "'c \<Rightarrow> 'c rpc_client" where
  "new_rpc_client c = (c, 0)"

definition sequence_number :: "'c rpc_client \<Rightarrow> i32" where
  "sequence_number cl = snd cl"

text \<open>\<open>_sequence_number += 1\<close>, with the wrap-around of a release build.\<close>

definition increment_sequence_number :: "'c rpc_client \<Rightarrow> 'c rpc_client" where
  "increment_sequence_number cl = (fst cl, snd cl + 1)"

definition on_client :: "(i32 \<Rightarrow> ('c, 'a) tact) \<Rightarrow> ('c rpc_client, 'a) tact" where
  "on_client m = (\<lambda>(c, sq). case m sq c of (r, c') \<Rightarrow> (r, (c', sq)))"

definition client_send :: "'c thrift \<Rightarrow> string \<Rightarrow> ('c, unit) tact \<Rightarrow> ('c rpc_client, unit) tact" where
  "client_send T name wargs = (\<lambda>cl.
     on_client (\<lambda>sq.
       seq (wr_message_begin T \<lparr>mi_name = name, mi_type = MCall, mi_seq = sq\<rparr>)
         (seq wargs (seq (wr_message_end T) (wr_flush T)))) (increment_sequence_number cl))"

definition client_recv ::
  "'c thrift \<Rightarrow> string \<Rightarrow> ('c, 'a) tact \<Rightarrow> ('a \<Rightarrow> ('b, thrift_error) result) \<Rightarrow> ('c rpc_client, 'b) tact" where
  "client_recv T name rres okor =
     on_client (\<lambda>sq.
       bnd (rd_message_begin T) (\<lambda>mi.
       seq (lift_result (t_verify_seq T sq (mi_seq mi)))
       (seq (lift_result (t_verify_call T name (mi_name mi)))
       (if mi_type mi = MException
        then bnd (rd_app_error T) (\<lambda>e. seq (rd_message_end T) (fail (TApplication e)))
        else seq (lift_result (t_verify_type T MReply (mi_type mi)))
          (bnd rres (\<lambda>r. seq (rd_message_end T) (lift_result (okor r))))))))"

definition client_rpc ::
  "'c thrift \<Rightarrow> string \<Rightarrow> ('c, unit) tact \<Rightarrow> ('c, 'a) tact \<Rightarrow> ('a \<Rightarrow> ('b, thrift_error) result)
    \<Rightarrow> ('c rpc_client, 'b) tact" where
  "client_rpc T name wargs rres okor = seq (client_send T name wargs) (client_recv T name rres okor)"

definition client_ping :: "'c thrift \<Rightarrow> ('c rpc_client, w_status) tact" where
  "client_ping T =
     client_rpc T ''ping'' (write_ping_args T ()) (read_ping_result T) ping_result_ok_or"

definition client_call :: "'c thrift \<Rightarrow> string \<Rightarrow> string \<Rightarrow> plugin_request \<Rightarrow> ('c rpc_client, w_response) tact" where
  "client_call T registry item request =
     client_rpc T ''call'' (write_call_args T \<lparr>ca_registry = registry, ca_item = item, ca_request = request\<rparr>) (read_call_result T) call_result_ok_or"

definition client_shutdown :: "'c thrift \<Rightarrow> ('c rpc_client, unit) tact" where
  "client_shutdown T =
     client_rpc T ''shutdown'' (write_shutdown_args T ()) (read_shutdown_result T) shutdown_result_ok_or"

definition client_extensions :: "'c thrift \<Rightarrow> ('c rpc_client, w_extension_list) tact" where
  "client_extensions T =
     client_rpc T ''extensions'' (write_extensions_args T ()) (read_extensions_result T) extensions_result_ok_or"

definition client_options :: "'c thrift \<Rightarrow> ('c rpc_client, w_option_list) tact" where
  "client_options T =
     client_rpc T ''options'' (write_options_args T ()) (read_options_result T) options_result_ok_or"

definition client_register_extension :: "'c thrift \<Rightarrow> w_extension_info \<Rightarrow> extension_registry \<Rightarrow> ('c rpc_client, w_status) tact" where
  "client_register_extension T info registry =
     client_rpc T ''registerExtension'' (write_register_args T \<lparr>ra_info = info, ra_registry = registry\<rparr>) (read_register_result T) register_result_ok_or"

definition client_deregister_extension :: "'c thrift \<Rightarrow> i64 \<Rightarrow> ('c rpc_client, w_status) tact" where
  "client_deregister_extension T uuid =
     client_rpc T ''deregisterExtension'' (write_deregister_args T uuid) (read_deregister_result T) deregister_result_ok_or"

definition client_query :: "'c thrift \<Rightarrow> string \<Rightarrow> ('c rpc_client, w_response) tact" where
  "client_query T sql =
     client_rpc T ''query'' (write_query_args T sql) (read_query_result T) query_result_ok_or"

definition client_get_query_columns :: "'c thrift \<Rightarrow> string \<Rightarrow> ('c rpc_client, w_response) tact" where
  "client_get_query_columns T sql =
     client_rpc T ''getQueryColumns'' (write_get_query_columns_args T sql) (read_get_query_columns_result T) get_query_columns_result_ok_or"

section \<open>The server side\<close>

definition on_conn :: "('c, 'a) tact \<Rightarrow> ('c \<times> 'h, 'a) tact" where
  "on_conn m = (\<lambda>(c, h). case m c of (r, c') \<Rightarrow> (r, (c', h)))"

definition send_reply :: "'c thrift \<Rightarrow> string \<Rightarrow> i32 \<Rightarrow> ('c, unit) tact \<Rightarrow> ('c, unit) tact" where
  "send_reply T name sq wres =
     seq (wr_message_begin T \<lparr>mi_name = name, mi_type = MReply, mi_seq = sq\<rparr>)
       (seq wres (seq (wr_message_end T) (wr_flush T)))"

definition send_exception :: "'c thrift \<Rightarrow> string \<Rightarrow> i32 \<Rightarrow> app_error \<Rightarrow> ('c, unit) tact" where
  "send_exception T name sq e =
     seq (wr_message_begin T \<lparr>mi_name = name, mi_type = MException, mi_seq = sq\<rparr>)
       (seq (wr_app_error T e) (seq (wr_message_end T) (wr_flush T)))"

text \<open>An application error travels as it is, any other one as \<open>Unknown\<close> with its text.\<close>

fun to_app_error :: "'c thrift \<Rightarrow> thrift_error \<Rightarrow> app_error" where
  "to_app_error T (TApplication a) = a"
| "to_app_error T e = AppError ''Unknown'' (t_display T e)"

definition process_method ::
  "'c thrift \<Rightarrow> string \<Rightarrow> i32 \<Rightarrow> ('c, 'a) tact \<Rightarrow> ('a \<Rightarrow> ('h, 'r) tact) \<Rightarrow> ('r \<Rightarrow> ('c, unit) tact)
    \<Rightarrow> ('c \<times> 'h, unit) tact" where
  "process_method T name sq rargs handle wres =
     bnd (on_conn rargs) (\<lambda>args (c, h).
       case handle args h of
         (Ok v, h') \<Rightarrow> on_conn (send_reply T name sq (wres v)) (c, h')
       | (Err e, h') \<Rightarrow> on_conn (send_exception T name sq (to_app_error T e)) (c, h')
       | (Panic p, h') \<Rightarrow> (Panic p, (c, h'))
       | (Diverge, h') \<Rightarrow> (Diverge, (c, h')))"

subsection \<open>\<open>Extension\<close>: the service of an extension\<close>

record 'h ext_handler =
  handle_ping :: "('h, w_status) tact"
  handle_call :: "string \<Rightarrow> string \<Rightarrow> plugin_request \<Rightarrow> ('h, w_response) tact"
  handle_shutdown :: "('h, unit) tact"

definition process_ping :: "'c thrift \<Rightarrow> ('h, 'm) ext_handler_scheme \<Rightarrow> i32 \<Rightarrow> ('c \<times> 'h, unit) tact" where
  "process_ping T H sq =
     process_method T ''ping'' sq (read_ping_args T) (\<lambda>_. handle_ping H)
       (\<lambda>v. write_ping_result T (Some v))"

definition process_call :: "'c thrift \<Rightarrow> ('h, 'm) ext_handler_scheme \<Rightarrow> i32 \<Rightarrow> ('c \<times> 'h, unit) tact" where
  "process_call T H sq =
     process_method T ''call'' sq (read_call_args T) (\<lambda>a. handle_call H (ca_registry a) (ca_item a) (ca_request a))
       (\<lambda>v. write_call_result T (Some v))"

definition process_shutdown :: "'c thrift \<Rightarrow> ('h, 'm) ext_handler_scheme \<Rightarrow> i32 \<Rightarrow> ('c \<times> 'h, unit) tact" where
  "process_shutdown T H sq =
     process_method T ''shutdown'' sq (read_shutdown_args T) (\<lambda>_. handle_shutdown H)
       (\<lambda>v. write_shutdown_result T v)"

definition unknown_method :: "string \<Rightarrow> thrift_error" where
  "unknown_method name = TApplication (AppError ''UnknownMethod'' (''unknown method '' @ name))"

text \<open>\<open>handle_process_result\<close> of the Thrift crate sees the result; a panic unwinds past it.\<close>

definition process_message ::
  "'c thrift \<Rightarrow> (mident \<Rightarrow> ('c \<times> 'h, unit) tact) \<Rightarrow> ('c \<times> 'h, unit) tact" where
  "process_message T dispatch =
     bnd (on_conn (rd_message_begin T)) (\<lambda>mi s.
       case dispatch mi s of
         (Ok u, s') \<Rightarrow> on_conn (t_process_result T mi (Ok u)) s'
       | (Err e, s') \<Rightarrow> on_conn (t_process_result T mi (Err e)) s'
       | (Panic p, s') \<Rightarrow> (Panic p, s')
       | (Diverge, s') \<Rightarrow> (Diverge, s'))"

definition dispatch_extension ::
  "'c thrift \<Rightarrow> ('h, 'm) ext_handler_scheme \<Rightarrow> mident \<Rightarrow> ('c \<times> 'h, unit) tact" where
  "dispatch_extension T H mi =
     (if mi_name mi = ''ping'' then process_ping T H (mi_seq mi)
      else if mi_name mi = ''call'' then process_call T H (mi_seq mi)
      else if mi_name mi = ''shutdown'' then process_shutdown T H (mi_seq mi)
      else fail (unknown_method (mi_name mi)))"

definition process :: "'c thrift \<Rightarrow> ('h, 'm) ext_handler_scheme \<Rightarrow> ('c \<times> 'h, unit) tact" where
  "process T H = process_message T (dispatch_extension T H)"

subsection \<open>\<open>ExtensionManager\<close>: the service of osquery\<close>

record 'h mgr_handler = "'h ext_handler" +
  handle_extensions :: "('h, w_extension_list) tact"
  handle_options :: "('h, w_option_list) tact"
  handle_register_extension :: "w_extension_info \<Rightarrow> extension_registry \<Rightarrow> ('h, w_status) tact"
  handle_deregister_extension :: "i64 \<Rightarrow> ('h, w_status) tact"
  handle_query :: "string \<Rightarrow> ('h, w_response) tact"
  handle_get_query_columns :: "string \<Rightarrow> ('h, w_response) tact"

definition process_extensions :: "'c thrift \<Rightarrow> 'h mgr_handler \<Rightarrow> i32 \<Rightarrow> ('c \<times> 'h, unit) tact" where
  "process_extensions T H sq =
     process_method T ''extensions'' sq (read_extensions_args T) (\<lambda>_. handle_extensions H)
       (\<lambda>v. write_extensions_result T (Some v))"

definition process_options :: "'c thrift \<Rightarrow> 'h mgr_handler \<Rightarrow> i32 \<Rightarrow> ('c \<times> 'h, unit) tact" where
  "process_options T H sq =
     process_method T ''options'' sq (read_options_args T) (\<lambda>_. handle_options H)
       (\<lambda>v. write_options_result T (Some v))"

definition process_register_extension :: "'c thrift \<Rightarrow> 'h mgr_handler \<Rightarrow> i32 \<Rightarrow> ('c \<times> 'h, unit) tact" where
  "process_register_extension T H sq =
     process_method T ''registerExtension'' sq (read_register_args T) (\<lambda>a. handle_register_extension H (ra_info a) (ra_registry a))
       (\<lambda>v. write_register_result T (Some v))"

definition process_deregister_extension :: "'c thrift \<Rightarrow> 'h mgr_handler \<Rightarrow> i32 \<Rightarrow> ('c \<times> 'h, unit) tact" where
  "process_deregister_extension T H sq =
     process_method T ''deregisterExtension'' sq (read_deregister_args T) (handle_deregister_extension H)
       (\<lambda>v. write_deregister_result T (Some v))"

definition process_query :: "'c thrift \<Rightarrow> 'h mgr_handler \<Rightarrow> i32 \<Rightarrow> ('c \<times> 'h, unit) tact" where
  "process_query T H sq =
     process_method T ''query'' sq (read_query_args T) (handle_query H)
       (\<lambda>v. write_query_result T (Some v))"

definition process_get_query_columns :: "'c thrift \<Rightarrow> 'h mgr_handler \<Rightarrow> i32 \<Rightarrow> ('c \<times> 'h, unit) tact" where
  "process_get_query_columns T H sq =
     process_method T ''getQueryColumns'' sq (read_get_query_columns_args T) (handle_get_query_columns H)
       (\<lambda>v. write_get_query_columns_result T (Some v))"

definition dispatch_manager ::
  "'c thrift \<Rightarrow> 'h mgr_handler \<Rightarrow> mident \<Rightarrow> ('c \<times> 'h, unit) tact" where
  "dispatch_manager T H mi =
     (if mi_name mi = ''extensions'' then process_extensions T H (mi_seq mi)
      else if mi_name mi = ''options'' then process_options T H (mi_seq mi)
      else if mi_name mi = ''registerExtension'' then process_register_extension T H (mi_seq mi)
      else if mi_name mi = ''deregisterExtension'' then process_deregister_extension T H (mi_seq mi)
      else if mi_name mi = ''query'' then process_query T H (mi_seq mi)
      else if mi_name mi = ''getQueryColumns'' then process_get_query_columns T H (mi_seq mi)
      else if mi_name mi = ''ping'' then process_ping T H (mi_seq mi)
      else if mi_name mi = ''call'' then process_call T H (mi_seq mi)
      else if mi_name mi = ''shutdown'' then process_shutdown T H (mi_seq mi)
      else fail (unknown_method (mi_name mi)))"

definition process_manager :: "'c thrift \<Rightarrow> 'h mgr_handler \<Rightarrow> ('c \<times> 'h, unit) tact" where
  "process_manager T H = process_message T (dispatch_manager T H)"

end
