(* ===== verification/WireRoundtrip.thy ===== *)
theory WireRoundtrip
  imports Rpc
begin

text \<open>
  The contract of a Thrift protocol over a byte channel, as a locale, and what follows from
  it for the generated code: whatever a writer of \<open>WireTypes\<close> and \<open>WireMessages\<close> emits,
  the reader accepts, and returns the value written, up to the defaults the reader fills
  in. A channel is the bytes still to be read, the bytes written so far and the end-of-file
  flag of the reader.
\<close>

type_synonym 'b chan = "'b list \<times> 'b list \<times> bool"

named_theorems wire_intros \<open>what actions emit and accept\<close>

section \<open>Emitting and accepting\<close>

definition emits :: "('b chan, unit, 'e) act \<Rightarrow> 'b list \<Rightarrow> bool" where
  "emits m w = (\<forall>i out eof. m (i, out, eof) = (Ok (), (i, out @ w, eof)))"

definition accepts :: "('b chan, 'a, 'e) act \<Rightarrow> 'b list \<Rightarrow> 'a \<Rightarrow> bool" where
  "accepts m w x = (\<forall>i out eof. m (w @ i, out, eof) = (Ok x, (i, out, eof)))"

lemma emits_ret [wire_intros]: "emits (ret ()) []"
  by (simp add: emits_def ret_def)

lemma emits_seq [wire_intros]: "emits m w \<Longrightarrow> emits k v \<Longrightarrow> emits (seq m k) (w @ v)"
  by (simp add: emits_def seq_def bnd_def)

lemma accepts_ret [wire_intros]: "accepts (ret x) [] x"
  by (simp add: accepts_def ret_def)

lemma accepts_lift [wire_intros]: "r = Ok x \<Longrightarrow> accepts (lift_result r) [] x"
  by (simp add: accepts_def lift_result_def)

lemma accepts_bnd: "accepts m w x \<Longrightarrow> accepts (f x) v y \<Longrightarrow> accepts (bnd m f) (w @ v) y"
  by (simp add: accepts_def bnd_def)

lemma accepts_seq: "accepts m w () \<Longrightarrow> accepts k v y \<Longrightarrow> accepts (seq m k) (w @ v) y"
  by (simp add: seq_def accepts_bnd)

lemma accepts_then_ret: "accepts m w x \<Longrightarrow> accepts (bnd m (\<lambda>v. ret (f v))) w (f x)"
  using accepts_bnd [of m w x "\<lambda>v. ret (f v)" "[]" "f x"] by (simp add: accepts_ret)

lemma acceptsD: "accepts m w x \<Longrightarrow> m (w @ i, out, eof) = (Ok x, (i, out, eof))"
  by (simp add: accepts_def)

lemma emitsD: "emits m w \<Longrightarrow> m (i, out, eof) = (Ok (), (i, out @ w, eof))"
  by (simp add: emits_def)

text \<open>A value that crosses the wire: written as some word that reads back as \<open>y\<close>.\<close>

definition crosses :: "('b chan, unit, 'e) act \<Rightarrow> ('b chan, 'a, 'e) act \<Rightarrow> 'a \<Rightarrow> bool" where
  "crosses w r y = (\<exists>bs. emits w bs \<and> accepts r bs y)"

lemma crossesI: "emits w bs \<Longrightarrow> accepts r bs y \<Longrightarrow> crosses w r y"
  by (auto simp: crosses_def)

lemma crossesE:
  assumes "crosses w r y"
  obtains bs where "emits w bs" "accepts r bs y"
  using assms by (auto simp: crosses_def)

section \<open>The contract of a protocol\<close>

record 'b wire_enc =
  e_message :: "mident \<Rightarrow> 'b list"
  e_field :: "ttype \<Rightarrow> 16 word \<Rightarrow> 'b list"
  e_stop :: "'b list"
  e_list :: "ttype \<Rightarrow> i32 \<Rightarrow> 'b list"
  e_map :: "ttype \<Rightarrow> ttype \<Rightarrow> i32 \<Rightarrow> 'b list"
  e_i32 :: "i32 \<Rightarrow> 'b list"
  e_i64 :: "i64 \<Rightarrow> 'b list"
  e_string :: "string \<Rightarrow> 'b list"
  e_app_error :: "app_error \<Rightarrow> 'b list"
  ok_string :: "string \<Rightarrow> bool"
  ok_app_error :: "app_error \<Rightarrow> bool"

text \<open>
  The laws: struct, map, list and message ends are not written; every other primitive
  writes its encoding, and reading an encoding gives the value back and consumes exactly
  its bytes, for the strings and application errors the protocol can carry. The checks on
  a reply pass when the values agree, and the four fields of the largest struct need five
  rounds of the field loop.
\<close>

locale wire_protocol =
  fixes T :: "'b chan thrift" and E :: "'b wire_enc"
  assumes message_write: "emits (wr_message_begin T mi) (e_message E mi)"
    and message_read: "ok_string E (mi_name mi) \<Longrightarrow> accepts (rd_message_begin T) (e_message E mi) mi"
    and message_end: "emits (wr_message_end T) []" "accepts (rd_message_end T) [] ()"
    and struct_write: "emits (wr_struct_begin T name) []" "emits (wr_struct_end T) []"
    and struct_read: "accepts (rd_struct_begin T) [] ()" "accepts (rd_struct_end T) [] ()"
    and field_write: "emits (wr_field_begin T name ty fid) (e_field E ty fid)"
    and field_read: "ty \<noteq> TStop \<Longrightarrow>
      accepts (rd_field_begin T) (e_field E ty fid) \<lparr>fi_type = ty, fi_id = Some fid\<rparr>"
    and field_end: "emits (wr_field_end T) []" "accepts (rd_field_end T) [] ()"
    and stop_write: "emits (wr_field_stop T) (e_stop E)"
    and stop_read: "\<exists>fid. accepts (rd_field_begin T) (e_stop E) \<lparr>fi_type = TStop, fi_id = fid\<rparr>"
    and list_write: "emits (wr_list_begin T ty n) (e_list E ty n)" "emits (wr_list_end T) []"
    and list_read: "0 \<le> i32_val n \<Longrightarrow> accepts (rd_list_begin T) (e_list E ty n) n" "accepts (rd_list_end T) [] ()"
    and map_write: "emits (wr_map_begin T kt vt n) (e_map E kt vt n)" "emits (wr_map_end T) []"
    and map_read: "0 \<le> i32_val n \<Longrightarrow> accepts (rd_map_begin T) (e_map E kt vt n) n" "accepts (rd_map_end T) [] ()"
    and i32_write: "emits (wr_i32 T v) (e_i32 E v)"
    and i32_read: "accepts (rd_i32 T) (e_i32 E v) v"
    and i64_write: "emits (wr_i64 T d) (e_i64 E d)"
    and i64_read: "accepts (rd_i64 T) (e_i64 E d) d"
    and string_write: "emits (wr_string T s) (e_string E s)"
    and string_read: "ok_string E s \<Longrightarrow> accepts (rd_string T) (e_string E s) s"
    and app_error_write: "emits (wr_app_error T a) (e_app_error E a)"
    and app_error_read: "ok_app_error E a \<Longrightarrow> accepts (rd_app_error T) (e_app_error E a) a"
    and flush: "emits (wr_flush T) []"
    and field_id: "t_field_id T \<lparr>fi_type = ty, fi_id = Some fid\<rparr> = Ok fid"
    and verify_seq: "t_verify_seq T sq sq = Ok ()"
    and verify_call: "t_verify_call T name name = Ok ()"
    and verify_type: "t_verify_type T mt mt = Ok ()"
    and process_result_ok: "emits (t_process_result T mi (Ok ())) []"
    and fuel: "5 \<le> t_fuel T"

text \<open>The values the wire can carry: sizes fit an \<open>i32\<close>, maps are in key order.\<close>

definition wire_size :: "'a list \<Rightarrow> bool" where
  "wire_size xs = (length xs < 2 ^ 31)"

definition wire_btree :: "('k::linorder \<Rightarrow> bool) \<Rightarrow> ('v \<Rightarrow> bool) \<Rightarrow> ('k, 'v) btree \<Rightarrow> bool" where
  "wire_btree okk okv m = (bt_wf m \<and> wire_size m \<and> (\<forall>(k, v) \<in> set m. okk k \<and> okv v))"

definition wire_vec :: "('a \<Rightarrow> bool) \<Rightarrow> 'a list \<Rightarrow> bool" where
  "wire_vec ok xs = (wire_size xs \<and> (\<forall>x \<in> set xs. ok x))"

definition wire_option :: "('a \<Rightarrow> bool) \<Rightarrow> 'a option \<Rightarrow> bool" where
  "wire_option ok v = (case v of None \<Rightarrow> True | Some x \<Rightarrow> ok x)"

lemma i32_val_of_nat: "n < 2 ^ 31 \<Longrightarrow> i32_val (of_nat n) = int n"
  by (simp add: i32_val_def signed_of_nat signed_take_bit_int_eq_self)

lemma nat_size_wire: "wire_size xs \<Longrightarrow> nat (i32_val (of_nat (length xs))) = length xs"
  by (simp add: wire_size_def i32_val_of_nat)

section \<open>The combinators\<close>

lemma read_fields_mono: "n \<le> k \<Longrightarrow> le_act (read_fields T n arms x) (read_fields T k arms x)"
proof (induction n arbitrary: k x)
  case 0
  then show ?case by (simp add: le_act_diverge)
next
  case (Suc n)
  then obtain k' where k: "k = Suc k'" "n \<le> k'"
    by (cases k) auto
  then show ?case
    unfolding k(1) read_fields.simps(2) by (intro le_act_bnd le_act_if le_act_refl le_act_seq Suc.IH)
qed

lemma accepts_le_act: "le_act m m' \<Longrightarrow> accepts m w y \<Longrightarrow> accepts m' w y"
  by (simp add: accepts_def le_act_def)

lemma read_fields_mono_le:
  "accepts (read_fields T n arms x) w y \<Longrightarrow> n \<le> k \<Longrightarrow> accepts (read_fields T k arms x) w y"
  by (rule accepts_le_act [OF read_fields_mono])

text \<open>
  \<open>steps_cross T arms k w x x'\<close>: the fields written by \<open>w\<close> take the loop variables
  from \<open>x\<close> to \<open>x'\<close> in at most \<open>k\<close> rounds of the field loop.
\<close>

definition steps_cross ::
  "'b chan thrift \<Rightarrow> (16 word \<Rightarrow> ttype \<Rightarrow> 'x \<Rightarrow> ('b chan, 'x) tact) \<Rightarrow> nat
    \<Rightarrow> ('b chan, unit) tact \<Rightarrow> 'x \<Rightarrow> 'x \<Rightarrow> bool" where
  "steps_cross T arms k w x x' =
     (\<exists>bs. emits w bs \<and>
       (\<forall>n rest y. accepts (read_fields T n arms x') rest y \<longrightarrow>
          accepts (read_fields T (n + k) arms x) (bs @ rest) y))"

lemma steps_crossI:
  assumes "emits w bs"
    and "\<And>n rest y. accepts (read_fields T n arms x') rest y \<Longrightarrow>
      accepts (read_fields T (n + k) arms x) (bs @ rest) y"
  shows "steps_cross T arms k w x x'"
  using assms by (auto simp: steps_cross_def)

lemma steps_cross_ret: "steps_cross T arms 0 (ret ()) x x"
  by (rule steps_crossI [OF emits_ret]) simp

lemma steps_cross_seq:
  assumes "steps_cross T arms k w x x'" and "steps_cross T arms j v x' x''"
  shows "steps_cross T arms (k + j) (seq w v) x x''"
proof -
  from assms(1) obtain bs where bs: "emits w bs"
    "\<And>n rest y. accepts (read_fields T n arms x') rest y \<Longrightarrow>
      accepts (read_fields T (n + k) arms x) (bs @ rest) y"
    by (auto simp: steps_cross_def)
  from assms(2) obtain cs where cs: "emits v cs"
    "\<And>n rest y. accepts (read_fields T n arms x'') rest y \<Longrightarrow>
      accepts (read_fields T (n + j) arms x') (cs @ rest) y"
    by (auto simp: steps_cross_def)
  show ?thesis
  proof (rule steps_crossI [OF emits_seq [OF bs(1) cs(1)]])
    fix n rest y
    assume "accepts (read_fields T n arms x'') rest y"
    then have "accepts (read_fields T (n + j + k) arms x) (bs @ cs @ rest) y"
      by (intro bs(2) cs(2))
    then show "accepts (read_fields T (n + (k + j)) arms x) ((bs @ cs) @ rest) y"
      by (simp add: ac_simps)
  qed
qed

lemma crosses_then_ret: "crosses w r y \<Longrightarrow> x = f y \<Longrightarrow> crosses w (bnd r (\<lambda>v. ret (f v))) x"
  by (auto simp: crosses_def intro: accepts_then_ret)

lemma crosses_bnd_ret:
  assumes "crosses w r y" and "f y = ret x"
  shows "crosses w (bnd r f) x"
proof -
  from assms(1) obtain bs where bs: "emits w bs" "accepts r bs y"
    by (rule crossesE)
  have "accepts (bnd r f) (bs @ []) x"
    by (rule accepts_bnd [OF bs(2)]) (simp add: assms(2) accepts_ret)
  with bs(1) show ?thesis
    by (auto intro: crossesI)
qed

context wire_protocol
begin

lemmas simple_intros = message_end struct_write struct_read field_end list_write map_write
  stop_write field_write i32_write i32_read i64_write i64_read string_write flush

lemma accepts_fields_stop: "0 < n \<Longrightarrow> accepts (read_fields T n arms x) (e_stop E) x"
proof (cases n)
  case (Suc k)
  then show ?thesis
    using stop_read accepts_bnd [of "rd_field_begin T" "e_stop E" _ _ "[]" x] by (auto simp: accepts_ret)
qed simp

lemma accepts_fields_field:
  assumes "ty \<noteq> TStop" and "accepts (arms fid ty x) w x'"
    and "accepts (read_fields T n arms x') rest y"
  shows "accepts (read_fields T (Suc n) arms x) (e_field E ty fid @ w @ rest) y"
proof -
  have "accepts (seq (rd_field_end T) (read_fields T n arms x')) rest y"
    using accepts_seq [OF field_end(2) assms(3)] by simp
  then have "accepts (bnd (arms fid ty x) (\<lambda>x'. seq (rd_field_end T) (read_fields T n arms x'))) (w @ rest) y"
    by (rule accepts_bnd [OF assms(2)])
  then have body: "accepts (bnd (lift_result (t_field_id T \<lparr>fi_type = ty, fi_id = Some fid\<rparr>)) (\<lambda>fid.
      bnd (arms fid ty x) (\<lambda>x'. seq (rd_field_end T) (read_fields T n arms x')))) (w @ rest) y"
    using accepts_bnd [OF accepts_lift [OF field_id], where v = "w @ rest" and y = y] by simp
  show ?thesis
    using accepts_bnd [OF field_read [OF assms(1)], where v = "w @ rest" and y = y] body assms(1)
    by simp
qed

lemma emits_write_field:
  assumes "emits m w"
  shows "emits (write_field T name ty fid m) (e_field E ty fid @ w)"
proof -
  have "emits (seq m (wr_field_end T)) (w @ [])"
    by (intro emits_seq assms field_end)
  then show ?thesis
    unfolding write_field_def by (intro emits_seq field_write) simp
qed

lemma steps_cross_field:
  assumes "ty \<noteq> TStop" and "crosses m (arms fid ty x) x'"
  shows "steps_cross T arms 1 (write_field T name ty fid m) x x'"
proof -
  from assms(2) obtain bs where bs: "emits m bs" "accepts (arms fid ty x) bs x'"
    by (rule crossesE)
  show ?thesis
    by (rule steps_crossI [OF emits_write_field [OF bs(1)]])
      (simp add: accepts_fields_field [where arms = arms, OF assms(1) bs(2)] del: read_fields.simps)
qed

lemma steps_cross_opt_field:
  assumes "ty \<noteq> TStop" and "v = None \<Longrightarrow> x' = x"
    and "\<And>z. v = Some z \<Longrightarrow> crosses (w z) (arms fid ty x) x'"
  shows "steps_cross T arms 1 (write_opt_field T name ty fid w v) x x'"
proof (cases v)
  case None
  with assms(2) show ?thesis
    by (auto simp: write_opt_field_def intro!: steps_crossI [OF emits_ret]
        intro: read_fields_mono_le simp del: read_fields.simps)
next
  case (Some z)
  then show ?thesis
    using steps_cross_field [where arms = arms, OF assms(1) assms(3) [OF Some]]
    by (simp add: write_opt_field_def)
qed

lemma crosses_struct:
  assumes "steps_cross T arms k w x x'" and "k < t_fuel T"
  shows "crosses (write_struct T name w) (read_struct T arms x) x'"
proof -
  from assms(1) obtain bs where bs: "emits w bs"
    "\<And>n rest y. accepts (read_fields T n arms x') rest y \<Longrightarrow>
      accepts (read_fields T (n + k) arms x) (bs @ rest) y"
    by (auto simp: steps_cross_def)
  have "accepts (read_fields T (1 + k) arms x) (bs @ e_stop E) x'"
    by (rule bs(2)) (rule accepts_fields_stop, simp)
  then have "accepts (read_fields T (t_fuel T) arms x) (bs @ e_stop E) x'"
    by (rule read_fields_mono_le) (use assms(2) in simp)
  moreover have "accepts (seq (rd_struct_end T) (ret x')) ([] @ []) x'"
    by (intro accepts_seq struct_read accepts_ret)
  ultimately have r: "accepts (read_struct T arms x) ([] @ (bs @ e_stop E) @ [] @ []) x'"
    unfolding read_struct_def by (intro accepts_seq [OF struct_read(1)] accepts_bnd)
  have w: "emits (write_struct T name w) ([] @ bs @ e_stop E @ [])"
    unfolding write_struct_def by (intro emits_seq struct_write stop_write bs(1))
  show ?thesis
    using r w by (auto intro: crossesI)
qed

lemma accepts_skip_fields: "0 < n \<Longrightarrow> accepts (skip_fields T n) (e_stop E) ()"
proof (cases n)
  case (Suc k)
  then show ?thesis
    using stop_read accepts_bnd [of "rd_field_begin T" "e_stop E" _ _ "[]" "()"] by (auto simp: accepts_ret)
qed simp

lemma crosses_empty_struct: "crosses (write_struct T name (ret ())) (read_empty_struct T) ()"
proof -
  have "accepts (skip_fields T (t_fuel T)) (e_stop E) ()"
    using fuel by (intro accepts_skip_fields) simp
  then have r: "accepts (read_empty_struct T) ([] @ e_stop E @ []) ()"
    unfolding read_empty_struct_def by (intro accepts_seq struct_read)
  have w: "emits (write_struct T name (ret ())) ([] @ [] @ e_stop E @ [])"
    unfolding write_struct_def by (intro emits_seq struct_write stop_write emits_ret)
  show ?thesis
    using r w by (auto intro: crossesI)
qed

lemma crosses_i32: "crosses (wr_i32 T v) (rd_i32 T) v"
  by (rule crossesI [OF i32_write i32_read])

lemma crosses_i64: "crosses (wr_i64 T v) (rd_i64 T) v"
  by (rule crossesI [OF i64_write i64_read])

lemma crosses_string: "ok_string E s \<Longrightarrow> crosses (wr_string T s) (rd_string T) s"
  by (rule crossesI [OF string_write string_read])

lemma crosses_entries:
  assumes "\<forall>(k, v) \<in> set m. crosses (wk k) rk k \<and> crosses (wv v) rv (f v)"
  shows "crosses (write_each (\<lambda>(k, v). seq (wk k) (wv v)) m) (read_entries (length m) rk rv acc)
    (bt_extend acc (map (apsnd f) m))"
  using assms
proof (induction m arbitrary: acc)
  case Nil
  then show ?case by (auto intro: crossesI emits_ret accepts_ret)
next
  case (Cons kv m)
  obtain k v where kv: "kv = (k, v)" by force
  from Cons.prems kv obtain bs cs where
    "emits (wk k) bs" "accepts rk bs k" "emits (wv v) cs" "accepts rv cs (f v)"
    by (auto simp: crosses_def)
  moreover from Cons.IH [of "bt_insert k (f v) acc"] Cons.prems obtain ds where
    "emits (write_each (\<lambda>(k, v). seq (wk k) (wv v)) m) ds"
    "accepts (read_entries (length m) rk rv (bt_insert k (f v) acc)) ds
      (bt_extend (bt_insert k (f v) acc) (map (apsnd f) m))"
    by (auto simp: crosses_def)
  ultimately have "emits (write_each (\<lambda>(k, v). seq (wk k) (wv v)) (kv # m)) ((bs @ cs) @ ds)"
    and "accepts (read_entries (length (kv # m)) rk rv acc) (bs @ cs @ ds)
      (bt_extend acc (map (apsnd f) (kv # m)))"
    by (auto simp: kv simp del: append_assoc intro!: emits_seq)
      (auto simp: kv intro!: accepts_bnd)
  then show ?case
    by (auto intro: crossesI)
qed

lemma crosses_btree:
  assumes m: "wire_btree okk okv m"
    and k: "\<And>k. okk k \<Longrightarrow> crosses (wk k) rk k"
    and v: "\<And>v. okv v \<Longrightarrow> crosses (wv v) rv (f v)"
  shows "crosses (write_btree T kt vt wk wv m) (read_btree T rk rv) (map (apsnd f) m)"
proof -
  have wf: "bt_wf (map (apsnd f) m)"
    using m by (simp add: wire_btree_def bt_wf_def comp_def)
  have "crosses (write_each (\<lambda>(k, v). seq (wk k) (wv v)) m) (read_entries (length m) rk rv [])
      (bt_extend [] (map (apsnd f) m))"
    by (rule crosses_entries) (use m k v in \<open>auto simp: wire_btree_def\<close>)
  then obtain bs where bs: "emits (write_each (\<lambda>(k, v). seq (wk k) (wv v)) m) bs"
    "accepts (read_entries (length m) rk rv []) bs (map (apsnd f) m)"
    using bt_of_wf [OF wf] by (auto simp: crosses_def bt_of_def)
  have size: "nat (i32_val (of_nat (length m))) = length m" "0 \<le> i32_val (of_nat (length m))"
    using m by (simp_all add: nat_size_wire i32_val_of_nat wire_btree_def wire_size_def)
  have w: "emits (write_btree T kt vt wk wv m) (e_map E kt vt (of_nat (length m)) @ bs @ [])"
    unfolding write_btree_def by (intro emits_seq map_write bs(1))
  have "accepts (read_btree T rk rv) (e_map E kt vt (of_nat (length m)) @ bs @ [] @ []) (map (apsnd f) m)"
    unfolding read_btree_def
    by (rule accepts_bnd [OF map_read(1) [OF size(2)]])
      (simp only: size(1), rule accepts_bnd [OF bs(2)], rule accepts_seq [OF map_read(2) accepts_ret])
  with w show ?thesis
    by (auto intro: crossesI)
qed

lemma crosses_items:
  assumes "\<forall>x \<in> set xs. crosses (we x) re (f x)"
  shows "crosses (write_each we xs) (read_items (length xs) re) (map f xs)"
  using assms
proof (induction xs)
  case Nil
  then show ?case by (auto intro: crossesI emits_ret accepts_ret)
next
  case (Cons x xs)
  then obtain bs cs where "emits (we x) bs" "accepts re bs (f x)"
    "emits (write_each we xs) cs" "accepts (read_items (length xs) re) cs (map f xs)"
    by (auto simp: crosses_def)
  then have "emits (write_each we (x # xs)) (bs @ cs)"
    and "accepts (read_items (length (x # xs)) re) (bs @ cs @ []) (map f (x # xs))"
    by (auto intro!: emits_seq accepts_bnd accepts_then_ret)
  then show ?case
    by (auto intro: crossesI)
qed

lemma crosses_vec:
  assumes xs: "wire_vec ok xs" and x: "\<And>x. ok x \<Longrightarrow> crosses (we x) re (f x)"
  shows "crosses (write_vec T et we xs) (read_vec T re) (map f xs)"
proof -
  have "crosses (write_each we xs) (read_items (length xs) re) (map f xs)"
    by (rule crosses_items) (use xs x in \<open>auto simp: wire_vec_def\<close>)
  then obtain bs where bs: "emits (write_each we xs) bs"
    "accepts (read_items (length xs) re) bs (map f xs)"
    by (rule crossesE)
  have size: "i32_val (of_nat (length xs)) = int (length xs)"
    using xs by (intro i32_val_of_nat) (simp add: wire_vec_def wire_size_def)
  then have nonneg: "0 \<le> i32_val (of_nat (length xs))"
    by simp
  have w: "emits (write_vec T et we xs) (e_list E et (of_nat (length xs)) @ bs @ [])"
    unfolding write_vec_def by (intro emits_seq list_write bs(1))
  have "accepts (read_vec T re) (e_list E et (of_nat (length xs)) @ bs @ [] @ []) (map f xs)"
    unfolding read_vec_def
    by (rule accepts_bnd [OF list_read(1) [OF nonneg]])
      (simp add: size, intro accepts_bnd [OF bs(2), where v = "[]", simplified]
        accepts_seq [OF list_read(2) accepts_ret, simplified])
  with w show ?thesis
    by (auto intro: crossesI)
qed

end

section \<open>What crosses the wire, and how it arrives\<close>

text \<open>
  The readers fill absent fields with defaults, so a value arrives normalised: the code of
  a status that has none arrives as 0, its uuid as 0, absent strings as empty ones.
\<close>

definition or_default :: "'a \<Rightarrow> 'a option \<Rightarrow> 'a option" where
  "or_default d v = Some (case v of None \<Rightarrow> d | Some x \<Rightarrow> x)"

definition norm_option_info :: "w_option_info \<Rightarrow> w_option_info" where
  "norm_option_info x =
     \<lparr>wo_value = or_default [] (wo_value x), wo_default_value = or_default [] (wo_default_value x),
      wo_type = or_default [] (wo_type x)\<rparr>"

definition norm_extension_info :: "w_extension_info \<Rightarrow> w_extension_info" where
  "norm_extension_info x =
     \<lparr>we_name = or_default [] (we_name x), we_version = or_default [] (we_version x),
      we_sdk_version = or_default [] (we_sdk_version x),
      we_min_sdk_version = or_default [] (we_min_sdk_version x)\<rparr>"

definition norm_status :: "w_status \<Rightarrow> w_status" where
  "norm_status x =
     \<lparr>ws_code = or_default 0 (ws_code x), ws_message = or_default [] (ws_message x),
      ws_uuid = or_default (I64 0) (ws_uuid x)\<rparr>"

definition norm_response :: "w_response \<Rightarrow> w_response" where
  "norm_response x =
     \<lparr>wp_status = map_option norm_status (wp_status x),
      wp_response = or_default [] (wp_response x)\<rparr>"

definition wire_row :: "'b wire_enc \<Rightarrow> (string, string) btree \<Rightarrow> bool" where
  "wire_row E = wire_btree (ok_string E) (ok_string E)"

definition wire_rows :: "'b wire_enc \<Rightarrow> plugin_response \<Rightarrow> bool" where
  "wire_rows E = wire_vec (wire_row E)"

definition wire_registry :: "'b wire_enc \<Rightarrow> extension_registry \<Rightarrow> bool" where
  "wire_registry E =
     wire_btree (ok_string E) (wire_btree (ok_string E) (wire_rows E))"

definition wire_option_info :: "'b wire_enc \<Rightarrow> w_option_info \<Rightarrow> bool" where
  "wire_option_info E x = (wire_option (ok_string E) (wo_value x)
     \<and> wire_option (ok_string E) (wo_default_value x) \<and> wire_option (ok_string E) (wo_type x))"

definition wire_extension_info :: "'b wire_enc \<Rightarrow> w_extension_info \<Rightarrow> bool" where
  "wire_extension_info E x = (wire_option (ok_string E) (we_name x)
     \<and> wire_option (ok_string E) (we_version x) \<and> wire_option (ok_string E) (we_sdk_version x)
     \<and> wire_option (ok_string E) (we_min_sdk_version x))"

definition wire_status :: "'b wire_enc \<Rightarrow> w_status \<Rightarrow> bool" where
  "wire_status E x = wire_option (ok_string E) (ws_message x)"

definition wire_response :: "'b wire_enc \<Rightarrow> w_response \<Rightarrow> bool" where
  "wire_response E x = (wire_option (wire_status E) (wp_status x)
     \<and> wire_option (wire_rows E) (wp_response x))"

definition wire_call_args :: "'b wire_enc \<Rightarrow> call_args \<Rightarrow> bool" where
  "wire_call_args E a = (ok_string E (ca_registry a) \<and> ok_string E (ca_item a)
     \<and> wire_row E (ca_request a))"

definition wire_register_args :: "'b wire_enc \<Rightarrow> register_args \<Rightarrow> bool" where
  "wire_register_args E a = (wire_extension_info E (ra_info a) \<and> wire_registry E (ra_registry a))"

definition wire_extension_list :: "'b wire_enc \<Rightarrow> w_extension_list \<Rightarrow> bool" where
  "wire_extension_list E = wire_btree (\<lambda>_. True) (wire_extension_info E)"

definition wire_option_list :: "'b wire_enc \<Rightarrow> w_option_list \<Rightarrow> bool" where
  "wire_option_list E = wire_btree (ok_string E) (wire_option_info E)"

lemmas wire_ok_defs = wire_option_info_def wire_extension_info_def wire_status_def
  wire_response_def wire_call_args_def wire_register_args_def wire_option_def

context wire_protocol
begin

lemma crosses_string_map: "wire_row E m \<Longrightarrow> crosses (write_string_map T m) (read_string_map T) m"
  unfolding wire_row_def write_string_map_def read_string_map_def
  using crosses_btree [of "ok_string E" "ok_string E" m "wr_string T" "rd_string T" "wr_string T" "rd_string T" id]
  by (simp add: crosses_string apsnd_def map_prod.id)

lemma crosses_rows: "wire_rows E rows \<Longrightarrow> crosses (write_plugin_response T rows) (read_plugin_response T) rows"
  unfolding wire_rows_def write_plugin_response_def read_plugin_response_def
  using crosses_vec [of "wire_row E" rows "write_string_map T" "read_string_map T" id]
  by (simp add: crosses_string_map)

lemma crosses_option_info:
  assumes "wire_option_info E x"
  shows "crosses (write_option_info T x) (read_option_info T) (norm_option_info x)"
proof -
  let ?arms = "\<lambda>fid ty x.
      if fid = 1 then bnd (rd_string T) (\<lambda>v. ret (x\<lparr>wo_value := Some v\<rparr>))
      else if fid = 2 then bnd (rd_string T) (\<lambda>v. ret (x\<lparr>wo_default_value := Some v\<rparr>))
      else if fid = 3 then bnd (rd_string T) (\<lambda>v. ret (x\<lparr>wo_type := Some v\<rparr>))
      else skip_arm T ty x"
  have s1: "steps_cross T ?arms 1 (write_opt_field T ''value'' TString 1 (wr_string T) (wo_value x))
    \<lparr>wo_value = Some '''', wo_default_value = Some '''', wo_type = Some ''''\<rparr>
    \<lparr>wo_value = or_default [] (wo_value x), wo_default_value = Some '''', wo_type = Some ''''\<rparr>"
    using assms by (intro steps_cross_opt_field)
      (auto simp: or_default_def wire_ok_defs intro!: crosses_then_ret crosses_string)
  have s2: "steps_cross T ?arms 1 (write_opt_field T ''default_value'' TString 2 (wr_string T) (wo_default_value x))
    \<lparr>wo_value = or_default [] (wo_value x), wo_default_value = Some '''', wo_type = Some ''''\<rparr>
    \<lparr>wo_value = or_default [] (wo_value x), wo_default_value = or_default [] (wo_default_value x), wo_type = Some ''''\<rparr>"
    using assms by (intro steps_cross_opt_field)
      (auto simp: or_default_def wire_ok_defs intro!: crosses_then_ret crosses_string)
  have s3: "steps_cross T ?arms 1 (write_opt_field T ''type'' TString 3 (wr_string T) (wo_type x))
    \<lparr>wo_value = or_default [] (wo_value x), wo_default_value = or_default [] (wo_default_value x), wo_type = Some ''''\<rparr>
    \<lparr>wo_value = or_default [] (wo_value x), wo_default_value = or_default [] (wo_default_value x), wo_type = or_default [] (wo_type x)\<rparr>"
    using assms by (intro steps_cross_opt_field)
      (auto simp: or_default_def wire_ok_defs intro!: crosses_then_ret crosses_string)
  show ?thesis
    using crosses_struct [OF steps_cross_seq [OF s1 steps_cross_seq [OF s2 s3]], of "''InternalOptionInfo''"] fuel
    by (simp add: write_option_info_def read_option_info_def norm_option_info_def)
qed

lemma crosses_extension_info:
  assumes "wire_extension_info E x"
  shows "crosses (write_extension_info T x) (read_extension_info T) (norm_extension_info x)"
proof -
  let ?arms = "\<lambda>fid ty x.
      if fid = 1 then bnd (rd_string T) (\<lambda>v. ret (x\<lparr>we_name := Some v\<rparr>))
      else if fid = 2 then bnd (rd_string T) (\<lambda>v. ret (x\<lparr>we_version := Some v\<rparr>))
      else if fid = 3 then bnd (rd_string T) (\<lambda>v. ret (x\<lparr>we_sdk_version := Some v\<rparr>))
      else if fid = 4 then bnd (rd_string T) (\<lambda>v. ret (x\<lparr>we_min_sdk_version := Some v\<rparr>))
      else skip_arm T ty x"
  have s1: "steps_cross T ?arms 1 (write_opt_field T ''name'' TString 1 (wr_string T) (we_name x))
    \<lparr>we_name = Some '''', we_version = Some '''', we_sdk_version = Some '''', we_min_sdk_version = Some ''''\<rparr>
    \<lparr>we_name = or_default [] (we_name x), we_version = Some '''', we_sdk_version = Some '''', we_min_sdk_version = Some ''''\<rparr>"
    using assms by (intro steps_cross_opt_field)
      (auto simp: or_default_def wire_ok_defs intro!: crosses_then_ret crosses_string)
  have s2: "steps_cross T ?arms 1 (write_opt_field T ''version'' TString 2 (wr_string T) (we_version x))
    \<lparr>we_name = or_default [] (we_name x), we_version = Some '''', we_sdk_version = Some '''', we_min_sdk_version = Some ''''\<rparr>
    \<lparr>we_name = or_default [] (we_name x), we_version = or_default [] (we_version x), we_sdk_version = Some '''', we_min_sdk_version = Some ''''\<rparr>"
    using assms by (intro steps_cross_opt_field)
      (auto simp: or_default_def wire_ok_defs intro!: crosses_then_ret crosses_string)
  have s3: "steps_cross T ?arms 1 (write_opt_field T ''sdk_version'' TString 3 (wr_string T) (we_sdk_version x))
    \<lparr>we_name = or_default [] (we_name x), we_version = or_default [] (we_version x), we_sdk_version = Some '''', we_min_sdk_version = Some ''''\<rparr>
    \<lparr>we_name = or_default [] (we_name x), we_version = or_default [] (we_version x), we_sdk_version = or_default [] (we_sdk_version x), we_min_sdk_version = Some ''''\<rparr>"
    using assms by (intro steps_cross_opt_field)
      (auto simp: or_default_def wire_ok_defs intro!: crosses_then_ret crosses_string)
  have s4: "steps_cross T ?arms 1 (write_opt_field T ''min_sdk_version'' TString 4 (wr_string T) (we_min_sdk_version x))
    \<lparr>we_name = or_default [] (we_name x), we_version = or_default [] (we_version x), we_sdk_version = or_default [] (we_sdk_version x), we_min_sdk_version = Some ''''\<rparr>
    \<lparr>we_name = or_default [] (we_name x), we_version = or_default [] (we_version x), we_sdk_version = or_default [] (we_sdk_version x), we_min_sdk_version = or_default [] (we_min_sdk_version x)\<rparr>"
    using assms by (intro steps_cross_opt_field)
      (auto simp: or_default_def wire_ok_defs intro!: crosses_then_ret crosses_string)
  show ?thesis
    using crosses_struct [OF steps_cross_seq [OF s1 steps_cross_seq [OF s2 steps_cross_seq [OF s3 s4]]], of "''InternalExtensionInfo''"] fuel
    by (simp add: write_extension_info_def read_extension_info_def norm_extension_info_def)
qed

lemma crosses_status:
  assumes "wire_status E x"
  shows "crosses (write_status T x) (read_status T) (norm_status x)"
proof -
  let ?arms = "\<lambda>fid ty x.
      if fid = 1 then bnd (rd_i32 T) (\<lambda>v. ret (x\<lparr>ws_code := Some v\<rparr>))
      else if fid = 2 then bnd (rd_string T) (\<lambda>v. ret (x\<lparr>ws_message := Some v\<rparr>))
      else if fid = 3 then bnd (rd_i64 T) (\<lambda>v. ret (x\<lparr>ws_uuid := Some v\<rparr>))
      else skip_arm T ty x"
  have s1: "steps_cross T ?arms 1 (write_opt_field T ''code'' TI32 1 (wr_i32 T) (ws_code x))
    \<lparr>ws_code = Some 0, ws_message = Some '''', ws_uuid = Some (I64 0)\<rparr>
    \<lparr>ws_code = or_default 0 (ws_code x), ws_message = Some '''', ws_uuid = Some (I64 0)\<rparr>"
    using assms by (intro steps_cross_opt_field)
      (auto simp: or_default_def wire_ok_defs intro!: crosses_then_ret crosses_i32)
  have s2: "steps_cross T ?arms 1 (write_opt_field T ''message'' TString 2 (wr_string T) (ws_message x))
    \<lparr>ws_code = or_default 0 (ws_code x), ws_message = Some '''', ws_uuid = Some (I64 0)\<rparr>
    \<lparr>ws_code = or_default 0 (ws_code x), ws_message = or_default [] (ws_message x), ws_uuid = Some (I64 0)\<rparr>"
    using assms by (intro steps_cross_opt_field)
      (auto simp: or_default_def wire_ok_defs intro!: crosses_then_ret crosses_string)
  have s3: "steps_cross T ?arms 1 (write_opt_field T ''uuid'' TI64 3 (wr_i64 T) (ws_uuid x))
    \<lparr>ws_code = or_default 0 (ws_code x), ws_message = or_default [] (ws_message x), ws_uuid = Some (I64 0)\<rparr>
    \<lparr>ws_code = or_default 0 (ws_code x), ws_message = or_default [] (ws_message x), ws_uuid = or_default (I64 0) (ws_uuid x)\<rparr>"
    using assms by (intro steps_cross_opt_field)
      (auto simp: or_default_def wire_ok_defs intro!: crosses_then_ret crosses_i64)
  show ?thesis
    using crosses_struct [OF steps_cross_seq [OF s1 steps_cross_seq [OF s2 s3]], of "''ExtensionStatus''"] fuel
    by (simp add: write_status_def read_status_def norm_status_def)
qed

lemma crosses_response:
  assumes "wire_response E x"
  shows "crosses (write_response T x) (read_response T) (norm_response x)"
proof -
  let ?arms = "\<lambda>fid ty x.
      if fid = 1 then bnd (read_status T) (\<lambda>v. ret (x\<lparr>wp_status := Some v\<rparr>))
      else if fid = 2 then bnd (read_plugin_response T) (\<lambda>v. ret (x\<lparr>wp_response := Some v\<rparr>))
      else skip_arm T ty x"
  have s1: "steps_cross T ?arms 1 (write_opt_field T ''status'' TStruct 1 (write_status T) (wp_status x))
    \<lparr>wp_status = None, wp_response = Some []\<rparr>
    \<lparr>wp_status = map_option norm_status (wp_status x), wp_response = Some []\<rparr>"
    using assms by (intro steps_cross_opt_field)
      (auto simp: or_default_def wire_ok_defs intro!: crosses_then_ret crosses_status)
  have s2: "steps_cross T ?arms 1 (write_opt_field T ''response'' TList 2 (write_plugin_response T) (wp_response x))
    \<lparr>wp_status = map_option norm_status (wp_status x), wp_response = Some []\<rparr>
    \<lparr>wp_status = map_option norm_status (wp_status x), wp_response = or_default [] (wp_response x)\<rparr>"
    using assms by (intro steps_cross_opt_field)
      (auto simp: or_default_def wire_ok_defs intro!: crosses_then_ret crosses_rows)
  show ?thesis
    using crosses_struct [OF steps_cross_seq [OF s1 s2], of "''ExtensionResponse''"] fuel
    by (simp add: write_response_def read_response_def norm_response_def)
qed

end

end
