(* ===== verification/RpcRoundtrip.thy ===== *)
theory RpcRoundtrip
  imports WireRoundtrip
begin

text \<open>
  Arguments and results of every method cross the wire, and with them whole calls: a
  client's request, processed by the server's dispatcher with any handler, is answered
  with the handler's result or its error, and both ends consume exactly the bytes of the
  message.
\<close>

context wire_protocol
begin

section \<open>Arguments and results\<close>

lemma crosses_result:
  assumes "ty \<noteq> TStop" and "crosses (w v) re y"
  shows "crosses (write_result T name ty w (Some v)) (read_result T re) (Some y)"
proof -
  let ?arms = "\<lambda>fid (ty::ttype) x. if fid = 0 then bnd re (\<lambda>v. ret (Some v)) else skip_arm T ty x"
  have "steps_cross T ?arms 1 (write_opt_field T ''result_value'' ty 0 w (Some v)) None (Some y)"
    using assms by (intro steps_cross_opt_field) (auto intro: crosses_then_ret)
  from crosses_struct [OF this, of name] fuel show ?thesis
    by (simp add: write_result_def read_result_def)
qed

lemma require_field_Some [simp]: "require_field T name (Some v) = ret v"
  by (simp add: require_field_def)

lemma crosses_call_args:
  assumes "wire_call_args E a"
  shows "crosses (write_call_args T a) (read_call_args T) a"
proof -
  let ?arms = "\<lambda>fid ty (f1, f2, f3).
          if fid = 1 then bnd (rd_string T) (\<lambda>v. ret (Some v, f2, f3))
          else if fid = 2 then bnd (rd_string T) (\<lambda>v. ret (f1, Some v, f3))
          else if fid = 3 then bnd (read_string_map T) (\<lambda>v. ret (f1, f2, Some v))
          else skip_arm T ty (f1, f2, f3)"
  have s1: "steps_cross T ?arms 1 (write_field T ''registry'' TString 1 (wr_string T (ca_registry a)))
      (None, None, None) (Some (ca_registry a), None, None)"
    using assms by (intro steps_cross_field)
      (auto simp: wire_ok_defs intro!: crosses_then_ret crosses_string)
  have s2: "steps_cross T ?arms 1 (write_field T ''item'' TString 2 (wr_string T (ca_item a)))
      (Some (ca_registry a), None, None) (Some (ca_registry a), Some (ca_item a), None)"
    using assms by (intro steps_cross_field)
      (auto simp: wire_ok_defs intro!: crosses_then_ret crosses_string)
  have s3: "steps_cross T ?arms 1 (write_field T ''request'' TMap 3 (write_string_map T (ca_request a)))
      (Some (ca_registry a), Some (ca_item a), None)
      (Some (ca_registry a), Some (ca_item a), Some (ca_request a))"
    using assms by (intro steps_cross_field)
      (auto simp: wire_ok_defs intro!: crosses_then_ret crosses_string_map)
  show ?thesis
    unfolding write_call_args_def read_call_args_def
    by (rule crosses_bnd_ret [OF crosses_struct [OF steps_cross_seq [OF s1 steps_cross_seq [OF s2 s3]]]])
      (use fuel in \<open>cases a; simp\<close>)+
qed

lemma crosses_registry: "wire_registry E m \<Longrightarrow> crosses (write_registry T m) (read_registry T) m"
proof -
  have rt: "crosses (write_route_table T t) (read_route_table T) t"
    if "wire_btree (ok_string E) (wire_rows E) t" for t
    using crosses_btree [OF that, of "wr_string T" "rd_string T" "write_plugin_response T"
        "read_plugin_response T" id]
    by (simp add: write_route_table_def read_route_table_def crosses_string crosses_rows
        apsnd_def map_prod.id)
  assume "wire_registry E m"
  then show ?thesis
    using crosses_btree [of "ok_string E" "wire_btree (ok_string E) (wire_rows E)" m "wr_string T"
        "rd_string T" "write_route_table T" "read_route_table T" id]
    by (simp add: write_registry_def read_registry_def wire_registry_def crosses_string rt
        apsnd_def map_prod.id)
qed

lemma crosses_register_args:
  assumes "wire_register_args E a"
  shows "crosses (write_register_args T a) (read_register_args T)
    (a\<lparr>ra_info := norm_extension_info (ra_info a)\<rparr>)"
proof -
  let ?arms = "\<lambda>fid ty (f1, f2).
          if fid = 1 then bnd (read_extension_info T) (\<lambda>v. ret (Some v, f2))
          else if fid = 2 then bnd (read_registry T) (\<lambda>v. ret (f1, Some v))
          else skip_arm T ty (f1, f2)"
  have s1: "steps_cross T ?arms 1 (write_field T ''info'' TStruct 1 (write_extension_info T (ra_info a)))
      (None, None) (Some (norm_extension_info (ra_info a)), None)"
    using assms by (intro steps_cross_field)
      (auto simp: wire_register_args_def intro!: crosses_then_ret crosses_extension_info)
  have s2: "steps_cross T ?arms 1 (write_field T ''registry'' TMap 2 (write_registry T (ra_registry a)))
      (Some (norm_extension_info (ra_info a)), None)
      (Some (norm_extension_info (ra_info a)), Some (ra_registry a))"
    using assms by (intro steps_cross_field)
      (auto simp: wire_register_args_def intro!: crosses_then_ret crosses_registry)
  show ?thesis
    unfolding write_register_args_def read_register_args_def
    by (rule crosses_bnd_ret [OF crosses_struct [OF steps_cross_seq [OF s1 s2]]])
      (use fuel in \<open>cases a; simp\<close>)+
qed

lemma crosses_single_field:
  assumes "ty \<noteq> TStop" and "crosses w r a"
  shows "crosses (write_struct T name (write_field T fld ty 1 w))
    (bnd (read_struct T (\<lambda>fid ty f1. if fid = 1 then bnd r (\<lambda>v. ret (Some v)) else skip_arm T ty f1) None)
      (\<lambda>f1. require_field T n f1)) a"
proof -
  let ?arms = "\<lambda>fid (ty::ttype) f1. if fid = 1 then bnd r (\<lambda>v. ret (Some v)) else skip_arm T ty f1"
  have "steps_cross T ?arms 1 (write_field T fld ty 1 w) None (Some a)"
    using assms by (intro steps_cross_field) (auto intro: crosses_then_ret)
  from crosses_struct [OF this] show ?thesis
    by (rule crosses_bnd_ret) (use fuel in simp_all)
qed

lemma crosses_deregister_args: "crosses (write_deregister_args T a) (read_deregister_args T) a"
  unfolding write_deregister_args_def read_deregister_args_def
  by (rule crosses_single_field) (simp_all add: crosses_i64)

lemma crosses_query_args: "ok_string E a \<Longrightarrow> crosses (write_query_args T a) (read_query_args T) a"
  unfolding write_query_args_def read_query_args_def
  by (rule crosses_single_field) (simp_all add: crosses_string)

lemma crosses_get_query_columns_args:
  "ok_string E a \<Longrightarrow> crosses (write_get_query_columns_args T a) (read_get_query_columns_args T) a"
  unfolding write_get_query_columns_args_def read_get_query_columns_args_def
  by (rule crosses_single_field) (simp_all add: crosses_string)

lemma crosses_empty_args:
  "crosses (write_ping_args T ()) (read_ping_args T) ()"
  "crosses (write_shutdown_args T ()) (read_shutdown_args T) ()"
  "crosses (write_extensions_args T ()) (read_extensions_args T) ()"
  "crosses (write_options_args T ()) (read_options_args T) ()"
  "crosses (write_shutdown_result T ()) (read_shutdown_result T) ()"
  unfolding write_ping_args_def read_ping_args_def write_shutdown_args_def read_shutdown_args_def
    write_extensions_args_def read_extensions_args_def write_options_args_def read_options_args_def
    write_shutdown_result_def read_shutdown_result_def
  by (rule crosses_empty_struct)+

lemma crosses_extension_list:
  "wire_extension_list E m \<Longrightarrow>
   crosses (write_btree T TI64 TStruct (wr_i64 T) (write_extension_info T) m)
     (read_btree T (rd_i64 T) (read_extension_info T)) (map (apsnd norm_extension_info) m)"
  unfolding wire_extension_list_def
  by (erule crosses_btree) (auto intro: crosses_i64 crosses_extension_info)

lemma crosses_option_list:
  "wire_option_list E m \<Longrightarrow>
   crosses (write_btree T TString TStruct (wr_string T) (write_option_info T) m)
     (read_btree T (rd_string T) (read_option_info T)) (map (apsnd norm_option_info) m)"
  unfolding wire_option_list_def
  by (erule crosses_btree) (auto intro: crosses_string crosses_option_info)

lemma crosses_status_results:
  assumes "wire_status E s"
  shows "crosses (write_ping_result T (Some s)) (read_ping_result T) (Some (norm_status s))"
    and "crosses (write_register_result T (Some s)) (read_register_result T) (Some (norm_status s))"
    and "crosses (write_deregister_result T (Some s)) (read_deregister_result T) (Some (norm_status s))"
  unfolding write_ping_result_def read_ping_result_def write_register_result_def
    read_register_result_def write_deregister_result_def read_deregister_result_def
  by (auto intro!: crosses_result crosses_status assms)

lemma crosses_response_results:
  assumes "wire_response E s"
  shows "crosses (write_call_result T (Some s)) (read_call_result T) (Some (norm_response s))"
    and "crosses (write_query_result T (Some s)) (read_query_result T) (Some (norm_response s))"
    and "crosses (write_get_query_columns_result T (Some s)) (read_get_query_columns_result T)
      (Some (norm_response s))"
  unfolding write_call_result_def read_call_result_def write_query_result_def
    read_query_result_def write_get_query_columns_result_def read_get_query_columns_result_def
  by (auto intro!: crosses_result crosses_response assms)

lemma crosses_extensions_result:
  "wire_extension_list E m \<Longrightarrow> crosses (write_extensions_result T (Some m)) (read_extensions_result T)
     (Some (map (apsnd norm_extension_info) m))"
  unfolding write_extensions_result_def read_extensions_result_def
  by (auto intro!: crosses_result crosses_extension_list)

lemma crosses_options_result:
  "wire_option_list E m \<Longrightarrow> crosses (write_options_result T (Some m)) (read_options_result T)
     (Some (map (apsnd norm_option_info) m))"
  unfolding write_options_result_def read_options_result_def
  by (auto intro!: crosses_result crosses_option_list)

section \<open>Whole calls\<close>

lemma client_send_emits:
  assumes "emits wargs bs"
  shows "client_send T name wargs ((i, out, eof), sq)
    = (Ok (), ((i, out @ e_message E \<lparr>mi_name = name, mi_type = MCall, mi_seq = sq + 1\<rparr> @ bs, eof), sq + 1))"
proof -
  have "emits (seq (wr_message_begin T \<lparr>mi_name = name, mi_type = MCall, mi_seq = sq + 1\<rparr>)
      (seq wargs (seq (wr_message_end T) (wr_flush T))))
    (e_message E \<lparr>mi_name = name, mi_type = MCall, mi_seq = sq + 1\<rparr> @ bs @ [] @ [])"
    by (intro emits_seq message_write message_end flush assms)
  then show ?thesis
    by (simp add: client_send_def on_client_def increment_sequence_number_def emits_def)
qed

lemma client_recv_reply:
  assumes "ok_string E name" and "accepts rres bs r" and "okor r = Ok v"
  shows "client_recv T name rres okor
      ((e_message E \<lparr>mi_name = name, mi_type = MReply, mi_seq = sq\<rparr> @ bs @ i, out, eof), sq)
    = (Ok v, ((i, out, eof), sq))"
proof -
  let ?mi = "\<lparr>mi_name = name, mi_type = MReply, mi_seq = sq\<rparr>"
  have "rd_message_begin T (e_message E ?mi @ (bs @ i), out, eof) = (Ok ?mi, (bs @ i, out, eof))"
    using assms(1) by (intro acceptsD message_read) simp
  moreover have "rres (bs @ i, out, eof) = (Ok r, (i, out, eof))"
    by (rule acceptsD [OF assms(2)])
  moreover have "rd_message_end T (i, out, eof) = (Ok (), (i, out, eof))"
    using acceptsD [OF message_end(2), of i out eof] by simp
  ultimately show ?thesis
    by (simp add: client_recv_def on_client_def bnd_def seq_def lift_result_def
        verify_seq verify_call verify_type assms(3))
qed

lemma client_recv_exception:
  assumes "ok_string E name" and "ok_app_error E a"
  shows "client_recv T name rres okor
      ((e_message E \<lparr>mi_name = name, mi_type = MException, mi_seq = sq\<rparr> @ e_app_error E a @ i, out, eof), sq)
    = (Err (TApplication a), ((i, out, eof), sq))"
proof -
  let ?mi = "\<lparr>mi_name = name, mi_type = MException, mi_seq = sq\<rparr>"
  have "rd_message_begin T (e_message E ?mi @ (e_app_error E a @ i), out, eof)
      = (Ok ?mi, (e_app_error E a @ i, out, eof))"
    using assms(1) by (intro acceptsD message_read) simp
  moreover have "rd_app_error T (e_app_error E a @ i, out, eof) = (Ok a, (i, out, eof))"
    using assms(2) by (intro acceptsD app_error_read)
  moreover have "rd_message_end T (i, out, eof) = (Ok (), (i, out, eof))"
    using acceptsD [OF message_end(2), of i out eof] by simp
  ultimately show ?thesis
    by (simp add: client_recv_def on_client_def bnd_def seq_def lift_result_def fail_def
        verify_seq verify_call)
qed

lemma process_method_reply:
  assumes "accepts rargs bs a" and "handle a h = (Ok v, h')" and "emits (wres v) cs"
  shows "process_method T name sq rargs handle wres ((bs @ i, out, eof), h)
    = (Ok (), ((i, out @ e_message E \<lparr>mi_name = name, mi_type = MReply, mi_seq = sq\<rparr> @ cs, eof), h'))"
proof -
  have "emits (send_reply T name sq (wres v))
      (e_message E \<lparr>mi_name = name, mi_type = MReply, mi_seq = sq\<rparr> @ cs @ [] @ [])"
    unfolding send_reply_def by (intro emits_seq message_write message_end flush assms(3))
  then show ?thesis
    using acceptsD [OF assms(1), of i out eof] assms(2)
    by (simp add: process_method_def bnd_def on_conn_def emits_def)
qed

lemma process_method_exception:
  assumes "accepts rargs bs a" and "handle a h = (Err e, h')"
  shows "process_method T name sq rargs handle wres ((bs @ i, out, eof), h)
    = (Ok (), ((i, out @ e_message E \<lparr>mi_name = name, mi_type = MException, mi_seq = sq\<rparr>
        @ e_app_error E (to_app_error T e), eof), h'))"
proof -
  have "emits (send_exception T name sq (to_app_error T e))
      (e_message E \<lparr>mi_name = name, mi_type = MException, mi_seq = sq\<rparr>
        @ e_app_error E (to_app_error T e) @ [] @ [])"
    unfolding send_exception_def
    by (intro emits_seq message_write message_end flush app_error_write)
  then show ?thesis
    using acceptsD [OF assms(1), of i out eof] assms(2)
    by (simp add: process_method_def bnd_def on_conn_def emits_def)
qed

lemma process_message_dispatched:
  assumes "ok_string E (mi_name mi)" and "dispatch mi ((i, out, eof), h) = (Ok (), ((i', out', eof'), h'))"
  shows "process_message T dispatch ((e_message E mi @ i, out, eof), h) = (Ok (), ((i', out', eof'), h'))"
proof -
  have "rd_message_begin T (e_message E mi @ i, out, eof) = (Ok mi, (i, out, eof))"
    using assms(1) by (intro acceptsD message_read)
  moreover have "t_process_result T mi (Ok ()) (i', out', eof') = (Ok (), (i', out', eof'))"
    using emitsD [OF process_result_ok, of mi i' out' eof'] by simp
  ultimately show ?thesis
    using assms(2) by (simp add: process_message_def bnd_def on_conn_def)
qed

end

text \<open>
  One call over a byte channel: the client sends on an empty channel, the server processes
  exactly those bytes, the client reads exactly the reply. The result pairs what the
  client's method returns with the handler's state and the bytes either end left unread.
\<close>

definition over_the_wire ::
  "'b chan thrift \<Rightarrow> ('b chan \<times> 'h, unit) tact \<Rightarrow> string \<Rightarrow> ('b chan, unit) tact \<Rightarrow> ('b chan, 'a) tact
    \<Rightarrow> ('a \<Rightarrow> ('r, thrift_error) result) \<Rightarrow> i32 \<Rightarrow> 'h
    \<Rightarrow> ('r, thrift_error) result \<times> 'h \<times> 'b list \<times> 'b list" where
  "over_the_wire T server name wargs rres okor sq h =
     (case client_send T name wargs (([], [], False), sq) of
        (sent, ((_, q, _), sq')) \<Rightarrow>
     (case server ((q, [], False), h) of
        (served, ((server_left, p, _), h')) \<Rightarrow>
     (case client_recv T name rres okor ((p, [], False), sq') of
        (r, ((client_left, _, _), _)) \<Rightarrow>
          (bind_result sent (\<lambda>_. bind_result served (\<lambda>_. r)), h', server_left, client_left))))"

context wire_protocol
begin

text \<open>The bytes of a call, of its reply, and what each end makes of them.\<close>

lemma call_pieces:
  assumes name: "ok_string E name"
    and args: "crosses wargs rargs a"
    and dispatch: "dispatch \<lparr>mi_name = name, mi_type = MCall, mi_seq = sq + 1\<rparr>
      = process_method T name (sq + 1) rargs handle wres"
    and handle: "handle a h = (Ok v, h')"
    and result: "crosses (wres v) rres r" and ok: "okor r = Ok y"
  obtains request reply where
    "client_send T name wargs (([], [], False), sq) = (Ok (), (([], request, False), sq + 1))"
    "process_message T dispatch ((request, [], False), h) = (Ok (), (([], reply, False), h'))"
    "client_recv T name rres okor ((reply, [], False), sq + 1) = (Ok y, (([], [], False), sq + 1))"
proof -
  from args obtain bs where bs: "emits wargs bs" "accepts rargs bs a" by (rule crossesE)
  from result obtain cs where cs: "emits (wres v) cs" "accepts rres cs r" by (rule crossesE)
  let ?call = "\<lparr>mi_name = name, mi_type = MCall, mi_seq = sq + 1\<rparr>"
  let ?reply = "\<lparr>mi_name = name, mi_type = MReply, mi_seq = sq + 1\<rparr>"
  have "dispatch ?call ((bs @ [], [], False), h) = (Ok (), (([], [] @ e_message E ?reply @ cs, False), h'))"
    unfolding dispatch by (rule process_method_reply [where handle = handle and wres = wres, OF bs(2) handle cs(1)])
  then have "process_message T dispatch ((e_message E ?call @ bs, [], False), h)
      = (Ok (), (([], e_message E ?reply @ cs, False), h'))"
    using name by (intro process_message_dispatched) simp_all
  moreover have "client_recv T name rres okor ((e_message E ?reply @ cs @ [], [], False), sq + 1)
      = (Ok y, (([], [], False), sq + 1))"
    by (rule client_recv_reply [where okor = okor, OF name cs(2) ok])
  ultimately show thesis
    using that client_send_emits [OF bs(1), of name "[]" "[]" False sq] by simp
qed

lemma over_the_wire_reply:
  assumes "ok_string E name" and "crosses wargs rargs a"
    and "dispatch \<lparr>mi_name = name, mi_type = MCall, mi_seq = sq + 1\<rparr>
      = process_method T name (sq + 1) rargs handle wres"
    and "handle a h = (Ok v, h')" and "crosses (wres v) rres r" and "okor r = Ok y"
  shows "over_the_wire T (process_message T dispatch) name wargs rres okor sq h = (Ok y, h', [], [])"
  by (rule call_pieces [where dispatch = dispatch and handle = handle and wres = wres and okor = okor, OF assms])
    (simp add: over_the_wire_def)

lemma over_the_wire_exception:
  assumes name: "ok_string E name"
    and args: "crosses wargs rargs a"
    and dispatch: "dispatch \<lparr>mi_name = name, mi_type = MCall, mi_seq = sq + 1\<rparr>
      = process_method T name (sq + 1) rargs handle wres"
    and handle: "handle a h = (Err e, h')" and e: "ok_app_error E (to_app_error T e)"
  shows "over_the_wire T (process_message T dispatch) name wargs rres okor sq h
    = (Err (TApplication (to_app_error T e)), h', [], [])"
proof -
  from args obtain bs where bs: "emits wargs bs" "accepts rargs bs a" by (rule crossesE)
  let ?call = "\<lparr>mi_name = name, mi_type = MCall, mi_seq = sq + 1\<rparr>"
  let ?exc = "\<lparr>mi_name = name, mi_type = MException, mi_seq = sq + 1\<rparr>"
  have "dispatch ?call ((bs @ [], [], False), h)
      = (Ok (), (([], [] @ e_message E ?exc @ e_app_error E (to_app_error T e), False), h'))"
    unfolding dispatch by (rule process_method_exception [where handle = handle, OF bs(2) handle])
  then have "process_message T dispatch ((e_message E ?call @ bs, [], False), h)
      = (Ok (), (([], e_message E ?exc @ e_app_error E (to_app_error T e), False), h'))"
    using name by (intro process_message_dispatched) simp_all
  moreover have "client_recv T name rres okor
      ((e_message E ?exc @ e_app_error E (to_app_error T e) @ [], [], False), sq + 1)
      = (Err (TApplication (to_app_error T e)), (([], [], False), sq + 1))"
    by (rule client_recv_exception [OF name e])
  ultimately show ?thesis
    by (simp add: over_the_wire_def client_send_emits [OF bs(1)])
qed

section \<open>The methods\<close>

lemma plugin_call_pieces:
  assumes "ok_string E ''call''" and "wire_call_args E a"
    and "handle_call H (ca_registry a) (ca_item a) (ca_request a) h = (Ok v, h')" and "wire_response E v"
  obtains request reply where
    "client_send T ''call'' (write_call_args T a) (([], [], False), sq) = (Ok (), (([], request, False), sq + 1))"
    "process T H ((request, [], False), h) = (Ok (), (([], reply, False), h'))"
    "client_recv T ''call'' (read_call_result T) call_result_ok_or ((reply, [], False), sq + 1)
      = (Ok (norm_response v), (([], [], False), sq + 1))"
proof -
  have d: "dispatch_extension T H \<lparr>mi_name = ''call'', mi_type = MCall, mi_seq = sq + 1\<rparr>
      = process_method T ''call'' (sq + 1) (read_call_args T)
          (\<lambda>a. handle_call H (ca_registry a) (ca_item a) (ca_request a)) (\<lambda>v. write_call_result T (Some v))"
    by (simp add: dispatch_extension_def process_call_def)
  have r: "crosses (write_call_result T (Some v)) (read_call_result T) (Some (norm_response v))"
    by (rule crosses_response_results [OF assms(4)])
  have o: "call_result_ok_or (Some (norm_response v)) = Ok (norm_response v)"
    by (simp add: call_result_ok_or_def)
  show thesis
    using that by (rule call_pieces [where dispatch = "dispatch_extension T H" and h = h and h' = h'
          and wres = "\<lambda>v. write_call_result T (Some v)" and okor = call_result_ok_or,
          OF assms(1) crosses_call_args [OF assms(2)] d assms(3) r o, folded process_def])
qed

lemma shutdown_call_pieces:
  assumes "ok_string E ''shutdown''" and "handle_shutdown H h = (Ok u, h')"
  obtains request reply where
    "client_send T ''shutdown'' (write_shutdown_args T ()) (([], [], False), sq) = (Ok (), (([], request, False), sq + 1))"
    "process T H ((request, [], False), h) = (Ok (), (([], reply, False), h'))"
    "client_recv T ''shutdown'' (read_shutdown_result T) shutdown_result_ok_or ((reply, [], False), sq + 1)
      = (Ok (), (([], [], False), sq + 1))"
proof -
  have d: "dispatch_extension T H \<lparr>mi_name = ''shutdown'', mi_type = MCall, mi_seq = sq + 1\<rparr>
      = process_method T ''shutdown'' (sq + 1) (read_shutdown_args T) (\<lambda>_. handle_shutdown H) (\<lambda>v. write_shutdown_result T v)"
    by (simp add: dispatch_extension_def process_shutdown_def)
  have r: "crosses (write_shutdown_result T u) (read_shutdown_result T) ()"
    by (simp add: crosses_empty_args)
  have o: "shutdown_result_ok_or () = Ok ()"
    by (simp add: shutdown_result_ok_or_def)
  show thesis
    using that by (rule call_pieces [where dispatch = "dispatch_extension T H" and h = h and h' = h'
          and wres = "\<lambda>v. write_shutdown_result T v" and okor = shutdown_result_ok_or,
          OF assms(1) crosses_empty_args(2) d assms(2) r o, folded process_def])
qed

lemma call_over_the_wire:
  assumes "ok_string E ''call''" and "wire_call_args E a"
    and "handle_call H (ca_registry a) (ca_item a) (ca_request a) h = (Ok v, h')" and "wire_response E v"
  shows "over_the_wire T (process T H) ''call'' (write_call_args T a) (read_call_result T) call_result_ok_or sq h
    = (Ok (norm_response v), h', [], [])"
  unfolding process_def
  by (rule over_the_wire_reply [OF assms(1) crosses_call_args [OF assms(2)],
        where handle = "\<lambda>a. handle_call H (ca_registry a) (ca_item a) (ca_request a)"
        and wres = "\<lambda>v. write_call_result T (Some v)" and v = v
        and r = "Some (norm_response v)"])
    (simp_all add: dispatch_extension_def process_call_def assms crosses_response_results call_result_ok_or_def)

lemma call_error_over_the_wire:
  assumes "ok_string E ''call''" and "wire_call_args E a"
    and "handle_call H (ca_registry a) (ca_item a) (ca_request a) h = (Err e, h')"
    and "ok_app_error E (to_app_error T e)"
  shows "over_the_wire T (process T H) ''call'' (write_call_args T a) (read_call_result T) call_result_ok_or sq h
    = (Err (TApplication (to_app_error T e)), h', [], [])"
  unfolding process_def
  by (rule over_the_wire_exception [OF assms(1) crosses_call_args [OF assms(2)],
        where handle = "\<lambda>a. handle_call H (ca_registry a) (ca_item a) (ca_request a)"
        and wres = "\<lambda>v. write_call_result T (Some v)"])
    (simp_all add: dispatch_extension_def process_call_def assms)

lemma ping_over_the_wire:
  assumes "ok_string E ''ping''" and "handle_ping H h = (Ok v, h')" and "wire_status E v"
  shows "over_the_wire T (process T H) ''ping'' (write_ping_args T ()) (read_ping_result T) ping_result_ok_or sq h
    = (Ok (norm_status v), h', [], [])"
  unfolding process_def
  by (rule over_the_wire_reply [OF assms(1) crosses_empty_args(1),
        where handle = "\<lambda>_. handle_ping H" and wres = "\<lambda>v. write_ping_result T (Some v)" and v = v
        and r = "Some (norm_status v)"])
    (simp_all add: dispatch_extension_def process_ping_def assms crosses_status_results ping_result_ok_or_def)

lemma query_over_the_wire:
  assumes "ok_string E ''query''" and "ok_string E sql"
    and "handle_query H sql h = (Ok v, h')" and "wire_response E v"
  shows "over_the_wire T (process_manager T H) ''query'' (write_query_args T sql) (read_query_result T) query_result_ok_or sq h
    = (Ok (norm_response v), h', [], [])"
  unfolding process_manager_def
  by (rule over_the_wire_reply [OF assms(1) crosses_query_args [OF assms(2)],
        where handle = "handle_query H" and wres = "\<lambda>v. write_query_result T (Some v)" and v = v
        and r = "Some (norm_response v)"])
    (simp_all add: dispatch_manager_def process_query_def assms crosses_response_results query_result_ok_or_def)

lemma register_over_the_wire:
  assumes "ok_string E ''registerExtension''" and "wire_register_args E a"
    and "handle_register_extension H (norm_extension_info (ra_info a)) (ra_registry a) h = (Ok v, h')"
    and "wire_status E v"
  shows "over_the_wire T (process_manager T H) ''registerExtension'' (write_register_args T a)
      (read_register_result T) register_result_ok_or sq h = (Ok (norm_status v), h', [], [])"
  unfolding process_manager_def
  by (rule over_the_wire_reply [OF assms(1) crosses_register_args [OF assms(2)],
        where handle = "\<lambda>a. handle_register_extension H (ra_info a) (ra_registry a)"
        and wres = "\<lambda>v. write_register_result T (Some v)" and v = v
        and r = "Some (norm_status v)"])
    (simp_all add: dispatch_manager_def process_register_extension_def assms crosses_status_results
      register_result_ok_or_def)

lemma deregister_over_the_wire:
  assumes "ok_string E ''deregisterExtension''"
    and "handle_deregister_extension H uuid h = (Ok v, h')" and "wire_status E v"
  shows "over_the_wire T (process_manager T H) ''deregisterExtension'' (write_deregister_args T uuid)
      (read_deregister_result T) deregister_result_ok_or sq h = (Ok (norm_status v), h', [], [])"
  unfolding process_manager_def
  by (rule over_the_wire_reply [OF assms(1) crosses_deregister_args,
        where handle = "handle_deregister_extension H" and wres = "\<lambda>v. write_deregister_result T (Some v)" and v = v
        and r = "Some (norm_status v)"])
    (simp_all add: dispatch_manager_def process_deregister_extension_def assms crosses_status_results
      deregister_result_ok_or_def)

lemma extensions_over_the_wire:
  assumes "ok_string E ''extensions''" and "handle_extensions H h = (Ok v, h')" and "wire_extension_list E v"
  shows "over_the_wire T (process_manager T H) ''extensions'' (write_extensions_args T ())
      (read_extensions_result T) extensions_result_ok_or sq h
    = (Ok (map (apsnd norm_extension_info) v), h', [], [])"
  unfolding process_manager_def
  by (rule over_the_wire_reply [OF assms(1) crosses_empty_args(3),
        where handle = "\<lambda>_. handle_extensions H" and wres = "\<lambda>v. write_extensions_result T (Some v)" and v = v
        and r = "Some (map (apsnd norm_extension_info) v)"])
    (simp_all add: dispatch_manager_def process_extensions_def assms crosses_extensions_result
      extensions_result_ok_or_def)

lemma options_over_the_wire:
  assumes "ok_string E ''options''" and "handle_options H h = (Ok v, h')" and "wire_option_list E v"
  shows "over_the_wire T (process_manager T H) ''options'' (write_options_args T ())
      (read_options_result T) options_result_ok_or sq h = (Ok (map (apsnd norm_option_info) v), h', [], [])"
  unfolding process_manager_def
  by (rule over_the_wire_reply [OF assms(1) crosses_empty_args(4),
        where handle = "\<lambda>_. handle_options H" and wres = "\<lambda>v. write_options_result T (Some v)" and v = v
        and r = "Some (map (apsnd norm_option_info) v)"])
    (simp_all add: dispatch_manager_def process_options_def assms crosses_options_result
      options_result_ok_or_def)

text \<open>
  A method the server does not know is answered with an exception, and its arguments stay
  in the input: the next message is read from them.
\<close>

lemma process_unknown_method:
  assumes "ok_string E name" and "name \<notin> {''ping'', ''call'', ''shutdown''}"
  shows "process T H ((e_message E \<lparr>mi_name = name, mi_type = MCall, mi_seq = sq\<rparr> @ rest, [], False), h)
    = on_conn (t_process_result T \<lparr>mi_name = name, mi_type = MCall, mi_seq = sq\<rparr> (Err (unknown_method name)))
        ((rest, [], False), h)"
proof -
  let ?mi = "\<lparr>mi_name = name, mi_type = MCall, mi_seq = sq\<rparr>"
  have "rd_message_begin T (e_message E ?mi @ rest, [], False) = (Ok ?mi, (rest, [], False))"
    using assms(1) by (intro acceptsD message_read) simp
  then show ?thesis
    using assms(2) by (simp add: process_def process_message_def bnd_def on_conn_def dispatch_extension_def fail_def)
qed

end

end
