(* ===== verification/BinaryProtocol.thy ===== *)
theory BinaryProtocol
  imports RpcRoundtrip
begin

text \<open>
  An instance of the Thrift interface: the binary protocol as the Thrift specification
  documents it (big-endian integers, the versioned message header, length-prefixed
  strings, type-and-id field headers), over a channel of bytes. The generated code is
  verified for every protocol that satisfies the contract \<open>wire_protocol\<close>; this theory
  shows that the contract can be met, and its bytes are what the witnesses run on.
\<close>

section \<open>Bytes\<close>

primrec be_bytes :: "nat \<Rightarrow> nat \<Rightarrow> 8 word list" where
  "be_bytes 0 v = []"
| "be_bytes (Suc n) v = be_bytes n (v div 256) @ [of_nat (v mod 256)]"

definition be_val :: "8 word list \<Rightarrow> nat" where
  "be_val bs = foldl (\<lambda>a b. a * 256 + unat b) 0 bs"

lemma length_be_bytes [simp]: "length (be_bytes n v) = n"
  by (induction n arbitrary: v) simp_all

lemma unat_byte: "unat (of_nat (v mod 256) :: 8 word) = v mod 256"
  by (simp add: unat_of_nat take_bit_eq_mod)

lemma be_val_snoc: "be_val (bs @ [b]) = be_val bs * 256 + unat b"
  by (simp add: be_val_def)

lemma be_val_bytes: "v < 256 ^ n \<Longrightarrow> be_val (be_bytes n v) = v"
proof (induction n arbitrary: v)
  case 0
  then show ?case by (simp add: be_val_def)
next
  case (Suc n)
  then have "v div 256 < 256 ^ n"
    by (simp add: less_mult_imp_div_less mult.commute)
  with Suc.IH show ?case
    by (simp add: be_val_snoc unat_byte)
qed

definition take_bytes :: "nat \<Rightarrow> (8 word chan, 8 word list) tact" where
  "take_bytes n = (\<lambda>(i, out, eof).
     if length i < n then (Err (TTransport ''EndOfFile'' ''unexpected end of input''), ([], out, True))
     else (Ok (take n i), (drop n i, out, eof)))"

definition put_bytes :: "8 word list \<Rightarrow> (8 word chan, unit) tact" where
  "put_bytes w = (\<lambda>(i, out, eof). (Ok (), (i, out @ w, eof)))"

lemma emits_put: "emits (put_bytes w) w"
  by (simp add: emits_def put_bytes_def)

lemma accepts_take: "length w = n \<Longrightarrow> accepts (take_bytes n) w w"
  by (simp add: accepts_def take_bytes_def)

section \<open>Strings\<close>

text \<open>The ranges of the continuation bytes after the first byte of a UTF-8 sequence.\<close>

definition utf8_tail :: "nat \<Rightarrow> (nat \<times> nat) list option" where
  "utf8_tail b =
     (if b < 128 then Some []
      else if 194 \<le> b \<and> b \<le> 223 then Some [(128, 191)]
      else if b = 224 then Some [(160, 191), (128, 191)]
      else if b = 237 then Some [(128, 159), (128, 191)]
      else if 225 \<le> b \<and> b \<le> 239 then Some [(128, 191), (128, 191)]
      else if b = 240 then Some [(144, 191), (128, 191), (128, 191)]
      else if b = 244 then Some [(128, 143), (128, 191), (128, 191)]
      else if 241 \<le> b \<and> b \<le> 243 then Some [(128, 191), (128, 191), (128, 191)]
      else None)"

primrec utf8 :: "8 word list \<Rightarrow> (nat \<times> nat) list \<Rightarrow> bool" where
  "utf8 [] p = (p = [])"
| "utf8 (b # bs) p =
     (case p of
        (lo, hi) # p' \<Rightarrow> lo \<le> unat b \<and> unat b \<le> hi \<and> utf8 bs p'
      | [] \<Rightarrow> (case utf8_tail (unat b) of None \<Rightarrow> False | Some p' \<Rightarrow> utf8 bs p'))"

definition string_bytes :: "string \<Rightarrow> 8 word list" where
  "string_bytes s = map (\<lambda>c. of_nat (of_char c)) s"

definition bytes_string :: "8 word list \<Rightarrow> string" where
  "bytes_string bs = map (\<lambda>b. char_of (unat b)) bs"

lemma bytes_string_bytes [simp]: "bytes_string (string_bytes s) = s"
proof -
  have "unat (of_nat (of_char c) :: 8 word) = of_char c" for c :: char
    by (simp add: unat_of_nat take_bit_eq_mod)
  then show ?thesis
    by (simp add: bytes_string_def string_bytes_def comp_def)
qed

lemma length_string_bytes [simp]: "length (string_bytes s) = length s"
  by (simp add: string_bytes_def)

definition bin_ok_string :: "string \<Rightarrow> bool" where
  "bin_ok_string s = (length s < 2 ^ 31 \<and> utf8 (string_bytes s) [])"

section \<open>Primitives\<close>

definition enc_i32 :: "i32 \<Rightarrow> 8 word list" where
  "enc_i32 v = be_bytes 4 (unat v)"

definition get_i32 :: "(8 word chan, i32) tact" where
  "get_i32 = bnd (take_bytes 4) (\<lambda>bs. ret (of_nat (be_val bs)))"

definition enc_i16 :: "16 word \<Rightarrow> 8 word list" where
  "enc_i16 v = be_bytes 2 (unat v)"

definition get_i16 :: "(8 word chan, 16 word) tact" where
  "get_i16 = bnd (take_bytes 2) (\<lambda>bs. ret (of_nat (be_val bs)))"

fun enc_i64 :: "i64 \<Rightarrow> 8 word list" where
  "enc_i64 (I64 v) = be_bytes 8 (unat v)"

definition get_i64 :: "(8 word chan, i64) tact" where
  "get_i64 = bnd (take_bytes 8) (\<lambda>bs. ret (I64 (of_nat (be_val bs))))"

definition get_byte :: "(8 word chan, nat) tact" where
  "get_byte = bnd (take_bytes 1) (\<lambda>bs. ret (be_val bs))"

definition protocol_error :: "string \<Rightarrow> string \<Rightarrow> (8 word chan, 'a) tact" where
  "protocol_error kind text = fail (TProtocol kind text)"

definition enc_string :: "string \<Rightarrow> 8 word list" where
  "enc_string s = enc_i32 (of_nat (length s)) @ string_bytes s"

definition get_string_of :: "nat \<Rightarrow> (8 word chan, string) tact" where
  "get_string_of n = bnd (take_bytes n) (\<lambda>bs.
     if utf8 bs [] then ret (bytes_string bs)
     else protocol_error ''InvalidData'' ''invalid utf-8'')"

definition get_string :: "(8 word chan, string) tact" where
  "get_string = bnd get_i32 (\<lambda>n.
     if i32_val n < 0 then protocol_error ''NegativeSize'' ''negative size''
     else get_string_of (nat (i32_val n)))"

lemma accepts_i32: "accepts get_i32 (enc_i32 v) v"
proof -
  have "unat v < 256 ^ 4"
    using unsigned_less [of v, where 'a = nat] by simp
  then show ?thesis
    using accepts_bnd [OF accepts_take accepts_ret, of "enc_i32 v" 4 "\<lambda>bs. of_nat (be_val bs) :: i32"]
    by (simp add: get_i32_def enc_i32_def be_val_bytes)
qed

lemma accepts_i16: "accepts get_i16 (enc_i16 v) v"
proof -
  have "unat v < 256 ^ 2"
    using unsigned_less [of v, where 'a = nat] by simp
  then show ?thesis
    using accepts_bnd [OF accepts_take accepts_ret, of "enc_i16 v" 2 "\<lambda>bs. of_nat (be_val bs) :: 16 word"]
    by (simp add: get_i16_def enc_i16_def be_val_bytes)
qed

lemma accepts_i64: "accepts get_i64 (enc_i64 v) v"
proof (cases v)
  case (I64 w)
  have "unat w < 256 ^ 8"
    using unsigned_less [of w, where 'a = nat] by simp
  then show ?thesis
    using accepts_bnd [OF accepts_take accepts_ret, of "be_bytes 8 (unat w)" 8 "\<lambda>bs. I64 (of_nat (be_val bs))"]
    by (simp add: get_i64_def I64 be_val_bytes)
qed

lemma accepts_string:
  assumes "bin_ok_string s"
  shows "accepts get_string (enc_string s) s"
proof -
  have "accepts (get_string_of (length s)) (string_bytes s @ []) s"
    unfolding get_string_of_def
    by (rule accepts_bnd [OF accepts_take]) (use assms in \<open>simp_all add: bin_ok_string_def accepts_ret\<close>)
  then show ?thesis
    unfolding get_string_def enc_string_def
    by (intro accepts_bnd [OF accepts_i32]) (use assms in \<open>simp add: bin_ok_string_def i32_val_of_nat\<close>)
qed


section \<open>Types, fields and containers\<close>

fun type_code :: "ttype \<Rightarrow> nat" where
  "type_code TStop = 0"
| "type_code TVoid = 1"
| "type_code TBool = 2"
| "type_code TI08 = 3"
| "type_code TDouble = 4"
| "type_code TI16 = 6"
| "type_code TI32 = 8"
| "type_code TI64 = 10"
| "type_code TString = 11"
| "type_code TStruct = 12"
| "type_code TMap = 13"
| "type_code TSet = 14"
| "type_code TList = 15"

definition type_codes :: "(nat \<times> ttype) list" where
  "type_codes = map (\<lambda>t. (type_code t, t))
     [TStop, TVoid, TBool, TI08, TDouble, TI16, TI32, TI64, TString, TStruct, TMap, TSet, TList]"

definition get_type :: "(8 word chan, ttype) tact" where
  "get_type = bnd get_byte (\<lambda>b. case map_of type_codes b of
       Some t \<Rightarrow> ret t
     | None \<Rightarrow> protocol_error ''InvalidData'' ''cannot parse field type'')"

definition enc_type :: "ttype \<Rightarrow> 8 word list" where
  "enc_type t = be_bytes 1 (type_code t)"

lemma accepts_type: "accepts get_type (enc_type t) t"
proof -
  have "type_code t < 256 ^ 1" "map_of type_codes (type_code t) = Some t"
    by (cases t; simp add: type_codes_def)+
  then have "accepts get_byte (enc_type t) (type_code t)"
    using accepts_bnd [OF accepts_take accepts_ret, of "enc_type t" 1 be_val]
    by (simp add: get_byte_def enc_type_def be_val_bytes del: be_bytes.simps)
  from accepts_bnd [OF this, of _ "[]" t] \<open>map_of type_codes (type_code t) = Some t\<close> show ?thesis
    by (simp add: get_type_def accepts_ret)
qed

definition enc_field :: "ttype \<Rightarrow> 16 word \<Rightarrow> 8 word list" where
  "enc_field t fid = enc_type t @ enc_i16 fid"

definition get_field :: "(8 word chan, fident) tact" where
  "get_field = bnd get_type (\<lambda>t.
     if t = TStop then ret \<lparr>fi_type = TStop, fi_id = Some 0\<rparr>
     else bnd get_i16 (\<lambda>fid. ret \<lparr>fi_type = t, fi_id = Some fid\<rparr>))"

definition get_size :: "(8 word chan, i32) tact" where
  "get_size = bnd get_i32 (\<lambda>n.
     if i32_val n < 0 then protocol_error ''NegativeSize'' ''negative size'' else ret n)"

definition get_list :: "(8 word chan, i32) tact" where
  "get_list = bnd get_type (\<lambda>_. get_size)"

definition get_map :: "(8 word chan, i32) tact" where
  "get_map = bnd get_type (\<lambda>_. bnd get_type (\<lambda>_. get_size))"

lemma accepts_field: "t \<noteq> TStop \<Longrightarrow> accepts get_field (enc_field t fid) \<lparr>fi_type = t, fi_id = Some fid\<rparr>"
  unfolding get_field_def enc_field_def
  by (rule accepts_bnd [OF accepts_type]) (use accepts_then_ret [OF accepts_i16 [of fid], of "\<lambda>i. \<lparr>fi_type = t, fi_id = Some i\<rparr>"] in simp)

lemma accepts_stop: "accepts get_field (enc_type TStop) \<lparr>fi_type = TStop, fi_id = Some 0\<rparr>"
  unfolding get_field_def
  by (rule accepts_bnd [OF accepts_type [of TStop], where v = "[]", simplified]) (simp add: accepts_ret)

lemma accepts_size: "0 \<le> i32_val n \<Longrightarrow> accepts get_size (enc_i32 n) n"
  using accepts_bnd [OF accepts_i32 [of n], where v = "[]" and y = n] by (simp add: get_size_def accepts_ret)

section \<open>Skipping\<close>

primrec skip_until_stop :: "nat \<Rightarrow> (ttype \<Rightarrow> (8 word chan, unit) tact) \<Rightarrow> (8 word chan, unit) tact" where
  "skip_until_stop 0 sk = diverge"
| "skip_until_stop (Suc n) sk =
     bnd get_field (\<lambda>f. if fi_type f = TStop then ret ()
       else seq (sk (fi_type f)) (skip_until_stop n sk))"

primrec repeat_act :: "nat \<Rightarrow> ('c, unit) tact \<Rightarrow> ('c, unit) tact" where
  "repeat_act 0 m = ret ()"
| "repeat_act (Suc n) m = seq m (repeat_act n m)"

definition drop_bytes :: "nat \<Rightarrow> (8 word chan, unit) tact" where
  "drop_bytes n = bnd (take_bytes n) (\<lambda>_. ret ())"

primrec skip_value :: "nat \<Rightarrow> nat \<Rightarrow> ttype \<Rightarrow> (8 word chan, unit) tact" where
  "skip_value fuel 0 t = protocol_error ''DepthLimit'' ''cannot parse past'' "
| "skip_value fuel (Suc d) t =
     (case t of
        TBool \<Rightarrow> drop_bytes 1
      | TI08 \<Rightarrow> drop_bytes 1
      | TI16 \<Rightarrow> drop_bytes 2
      | TI32 \<Rightarrow> drop_bytes 4
      | TI64 \<Rightarrow> drop_bytes 8
      | TDouble \<Rightarrow> drop_bytes 8
      | TString \<Rightarrow> bnd get_string (\<lambda>_. ret ())
      | TStruct \<Rightarrow> skip_until_stop fuel (skip_value fuel d)
      | TList \<Rightarrow> bnd get_type (\<lambda>et. bnd get_size (\<lambda>n. repeat_act (nat (i32_val n)) (skip_value fuel d et)))
      | TSet \<Rightarrow> bnd get_type (\<lambda>et. bnd get_size (\<lambda>n. repeat_act (nat (i32_val n)) (skip_value fuel d et)))
      | TMap \<Rightarrow> bnd get_type (\<lambda>kt. bnd get_type (\<lambda>vt. bnd get_size (\<lambda>n.
          repeat_act (nat (i32_val n)) (seq (skip_value fuel d kt) (skip_value fuel d vt)))))
      | _ \<Rightarrow> protocol_error ''Unknown'' ''cannot skip field type'')"

section \<open>Messages and application errors\<close>

definition message_types :: "(nat \<times> mtype) list" where
  "message_types = [(1, MCall), (2, MReply), (3, MException), (4, MOneWay)]"

fun message_code :: "mtype \<Rightarrow> nat" where
  "message_code MCall = 1"
| "message_code MReply = 2"
| "message_code MException = 3"
| "message_code MOneWay = 4"

definition enc_message :: "mident \<Rightarrow> 8 word list" where
  "enc_message mi = be_bytes 4 (2147549184 + message_code (mi_type mi)) @ enc_string (mi_name mi)
     @ enc_i32 (mi_seq mi)"

definition message_type_of :: "nat \<Rightarrow> (8 word chan, mtype) tact" where
  "message_type_of b = (case map_of message_types b of
       Some t \<Rightarrow> ret t
     | None \<Rightarrow> protocol_error ''InvalidData'' ''cannot parse message type'')"

text \<open>Without strictness, a first word that is not negative is the length of the name.\<close>

definition get_message :: "(8 word chan, mident) tact" where
  "get_message = bnd (take_bytes 4) (\<lambda>bs.
     if 2147483648 \<le> be_val bs
     then (if be_val bs div 65536 = 32769
       then bnd (message_type_of (be_val bs mod 256)) (\<lambda>t. bnd get_string (\<lambda>name. bnd get_i32 (\<lambda>sq.
              ret \<lparr>mi_name = name, mi_type = t, mi_seq = sq\<rparr>)))
       else protocol_error ''BadVersion'' ''received bad version'')
     else bnd (get_string_of (be_val bs)) (\<lambda>name. bnd get_byte (\<lambda>b. bnd (message_type_of b) (\<lambda>t.
            bnd get_i32 (\<lambda>sq. ret \<lparr>mi_name = name, mi_type = t, mi_seq = sq\<rparr>)))))"

lemma accepts_message:
  assumes "bin_ok_string (mi_name mi)"
  shows "accepts get_message (enc_message mi) mi"
proof -
  let ?v = "2147549184 + message_code (mi_type mi)"
  have v: "?v < 256 ^ 4" "2147483648 \<le> ?v" "?v div 65536 = 32769"
    "message_type_of (?v mod 256) = ret (mi_type mi)"
    by (cases "mi_type mi"; simp add: message_type_of_def message_types_def)+
  have "accepts (bnd (message_type_of (?v mod 256)) (\<lambda>t. bnd get_string (\<lambda>name. bnd get_i32 (\<lambda>sq.
      ret \<lparr>mi_name = name, mi_type = t, mi_seq = sq\<rparr>))))
      ([] @ enc_string (mi_name mi) @ enc_i32 (mi_seq mi)) \<lparr>mi_name = mi_name mi, mi_type = mi_type mi, mi_seq = mi_seq mi\<rparr>"
    unfolding v(4)
    by (intro accepts_bnd [OF accepts_ret] accepts_bnd [OF accepts_string] accepts_then_ret accepts_i32 assms)
  then show ?thesis
    unfolding get_message_def enc_message_def
    by (intro accepts_bnd [OF accepts_take]) (use v in \<open>simp_all add: be_val_bytes del: be_bytes.simps\<close>, cases mi, simp)
qed

definition app_kinds :: "(nat \<times> string) list" where
  "app_kinds = [(0, ''Unknown''), (1, ''UnknownMethod''), (2, ''InvalidMessageType''),
     (3, ''WrongMethodName''), (4, ''BadSequenceId''), (5, ''MissingResult''), (6, ''InternalError''),
     (7, ''ProtocolError''), (8, ''InvalidTransform''), (9, ''InvalidProtocol''), (10, ''UnsupportedClientType'')]"

definition app_kind_code :: "string \<Rightarrow> nat" where
  "app_kind_code k = (case map_of (map (\<lambda>(n, k). (k, n)) app_kinds) k of None \<Rightarrow> 0 | Some n \<Rightarrow> n)"

definition app_kind_of :: "i32 \<Rightarrow> string" where
  "app_kind_of n = (case map_of app_kinds (unat n) of None \<Rightarrow> ''Unknown'' | Some k \<Rightarrow> k)"

definition enc_app_error :: "app_error \<Rightarrow> 8 word list" where
  "enc_app_error a = enc_field TString 1 @ enc_string (app_message a)
     @ enc_field TI32 2 @ enc_i32 (of_nat (app_kind_code (app_kind a))) @ enc_type TStop"

primrec get_app_error :: "nat \<Rightarrow> string \<Rightarrow> string \<Rightarrow> (8 word chan, app_error) tact" where
  "get_app_error 0 k m = diverge"
| "get_app_error (Suc n) k m =
     bnd get_field (\<lambda>f.
       if fi_type f = TStop then ret (AppError k m)
       else if fi_id f = Some 1 then bnd get_string (\<lambda>m'. get_app_error n k m')
       else if fi_id f = Some 2 then bnd get_i32 (\<lambda>c. get_app_error n (app_kind_of c) m)
       else seq (skip_value n 64 (fi_type f)) (get_app_error n k m))"

definition bin_ok_app_error :: "app_error \<Rightarrow> bool" where
  "bin_ok_app_error a = (app_kind a \<in> snd ` set app_kinds \<and> bin_ok_string (app_message a))"

lemma app_kind_code:
  "k \<in> snd ` set app_kinds \<Longrightarrow> app_kind_of (of_nat (app_kind_code k)) = k"
  unfolding app_kinds_def by (auto simp: app_kind_of_def app_kind_code_def app_kinds_def)

lemma accepts_app_error:
  assumes "bin_ok_app_error a" and "3 \<le> n"
  shows "accepts (get_app_error n ''Unknown'' ''general remote error'') (enc_app_error a) a"
proof -
  obtain k where n: "n = Suc (Suc (Suc k))"
    using assms(2) by (metis Suc_le_D numeral_3_eq_3 Suc_le_mono)
  let ?c = "of_nat (app_kind_code (app_kind a)) :: i32"
  have stop: "accepts (get_app_error (Suc k) (app_kind a) (app_message a)) (enc_type TStop @ []) a"
    unfolding get_app_error.simps by (rule accepts_bnd [OF accepts_stop]) (simp add: accepts_ret)
  have kind: "accepts (get_app_error (Suc (Suc k)) ''Unknown'' (app_message a))
      (enc_field TI32 2 @ enc_i32 ?c @ enc_type TStop @ []) a"
    unfolding get_app_error.simps(2) [of "Suc k"]
    by (rule accepts_bnd [OF accepts_field])
      (use assms(1) stop accepts_bnd [OF accepts_i32 [of ?c], where v = "enc_type TStop @ []" and y = a and
          f = "\<lambda>c. get_app_error (Suc k) (app_kind_of c) (app_message a)"] in
        \<open>simp_all add: bin_ok_app_error_def app_kind_code del: get_app_error.simps\<close>)
  show ?thesis
    unfolding n enc_app_error_def get_app_error.simps(2) [of "Suc (Suc k)"]
    by (rule accepts_bnd [OF accepts_field])
      (use assms(1) kind accepts_bnd [OF accepts_string, where y = a and
          f = "\<lambda>m. get_app_error (Suc (Suc k)) ''Unknown'' m"] in
        \<open>simp_all add: bin_ok_app_error_def del: get_app_error.simps\<close>)
qed


section \<open>The instance\<close>

definition check_result :: "bool \<Rightarrow> string \<Rightarrow> (unit, thrift_error) result" where
  "check_result b kind = (if b then Ok () else Err (TApplication (AppError kind ''unexpected reply'')))"

definition put_exception :: "mident \<Rightarrow> app_error \<Rightarrow> (8 word chan, unit) tact" where
  "put_exception mi a =
     put_bytes (enc_message \<lparr>mi_name = mi_name mi, mi_type = MException, mi_seq = mi_seq mi\<rparr> @ enc_app_error a)"

fun finish_result :: "mident \<Rightarrow> (unit, thrift_error) result \<Rightarrow> (8 word chan, unit) tact" where
  "finish_result mi (Ok u) = ret ()"
| "finish_result mi (Err (TApplication a)) = put_exception mi a"
| "finish_result mi (Err e) = put_exception mi (AppError ''Unknown'' (show_error (from_thrift e)))"
| "finish_result mi (Panic p) = panic p"
| "finish_result mi Diverge = diverge"

definition binary_thrift :: "nat \<Rightarrow> 8 word chan thrift" where
  "binary_thrift n =
     \<lparr>rd_message_begin = get_message, rd_message_end = ret (), rd_struct_begin = ret (),
      rd_struct_end = ret (), rd_field_begin = get_field, rd_field_end = ret (),
      rd_list_begin = get_list, rd_list_end = ret (), rd_map_begin = get_map, rd_map_end = ret (),
      rd_i32 = get_i32, rd_i64 = get_i64, rd_string = get_string, rd_skip = skip_value n 64,
      rd_app_error = get_app_error n ''Unknown'' ''general remote error'',
      wr_message_begin = \<lambda>mi. put_bytes (enc_message mi), wr_message_end = ret (),
      wr_struct_begin = \<lambda>_. ret (), wr_struct_end = ret (),
      wr_field_begin = \<lambda>_ ty fid. put_bytes (enc_field ty fid), wr_field_end = ret (),
      wr_field_stop = put_bytes (enc_type TStop),
      wr_list_begin = \<lambda>ty k. put_bytes (enc_type ty @ enc_i32 k), wr_list_end = ret (),
      wr_map_begin = \<lambda>kt vt k. put_bytes (enc_type kt @ enc_type vt @ enc_i32 k), wr_map_end = ret (),
      wr_i32 = \<lambda>v. put_bytes (enc_i32 v), wr_i64 = \<lambda>v. put_bytes (enc_i64 v),
      wr_string = \<lambda>s. put_bytes (enc_string s), wr_app_error = \<lambda>a. put_bytes (enc_app_error a),
      wr_flush = ret (),
      t_field_id = \<lambda>fi. ok_or (TProtocol ''Unknown'' ''missing field id'') (fi_id fi),
      t_verify_seq = \<lambda>a b. check_result (a = b) ''BadSequenceId'',
      t_verify_call = \<lambda>a b. check_result (a = b) ''WrongMethodName'',
      t_verify_type = \<lambda>a b. check_result (a = b) ''InvalidMessageType'',
      t_missing_field = \<lambda>name. TProtocol ''Unknown'' (''missing required field '' @ name),
      t_display = \<lambda>e. show_error (from_thrift e),
      t_process_result = finish_result, t_fuel = n\<rparr>"

definition binary_enc :: "8 word wire_enc" where
  "binary_enc =
     \<lparr>e_message = enc_message, e_field = enc_field, e_stop = enc_type TStop,
      e_list = \<lambda>ty k. enc_type ty @ enc_i32 k, e_map = \<lambda>kt vt k. enc_type kt @ enc_type vt @ enc_i32 k,
      e_i32 = enc_i32, e_i64 = enc_i64, e_string = enc_string, e_app_error = enc_app_error,
      ok_string = bin_ok_string, ok_app_error = bin_ok_app_error\<rparr>"

lemma accepts_list: "0 \<le> i32_val n \<Longrightarrow> accepts get_list (enc_type ty @ enc_i32 n) n"
  unfolding get_list_def by (rule accepts_bnd [OF accepts_type accepts_size])

lemma accepts_map: "0 \<le> i32_val n \<Longrightarrow> accepts get_map (enc_type kt @ enc_type vt @ enc_i32 n) n"
  unfolding get_map_def by (rule accepts_bnd [OF accepts_type accepts_bnd [OF accepts_type accepts_size]])

lemma binary_wire_protocol: "5 \<le> n \<Longrightarrow> wire_protocol (binary_thrift n) binary_enc"
  by unfold_locales
    (use accepts_stop in \<open>auto simp: binary_thrift_def binary_enc_def check_result_def
      intro: emits_put emits_ret accepts_ret accepts_message accepts_field accepts_list accepts_map
        accepts_i32 accepts_i64 accepts_string accepts_app_error\<close>)

text \<open>More fields than any message the server accepts has bytes.\<close>

definition binary_fuel :: nat where
  "binary_fuel = 33554433"

interpretation binary: wire_protocol "binary_thrift binary_fuel" binary_enc
  by (rule binary_wire_protocol) (simp add: binary_fuel_def)

text \<open>What a binary message can carry, evaluated.\<close>

lemmas wire_evaluation = wire_call_args_def wire_register_args_def wire_registry_def wire_row_def wire_rows_def
  wire_response_def wire_status_def wire_extension_info_def wire_option_def wire_btree_def wire_vec_def
  wire_size_def bt_wf_def binary_enc_def bin_ok_string_def utf8_tail_def string_bytes_def

end
