(* ===== verification/Client.thy ===== *)
theory Client
  imports BinaryProtocol
begin

text \<open>
  \<open>src/src/client/manager.rs\<close>: the client of osquery's extension manager. It folds wire
  statuses into errors, gives the wire records their defaults and wraps the generated
  client's errors. Sockets are parameters: connecting, cloning and shutting down a stream.
  The named pipes of \<open>src/src/client/named_pipe.rs\<close> are in their own section.
\<close>

section \<open>Information records\<close>

record extension_info =
  ei_uuid :: extension_uuid
  ei_name :: string
  ei_version :: string
  ei_sdk_version :: string
  ei_min_sdk_version :: string

record option_info =
  oi_value :: string
  oi_default_value :: string
  oi_type :: string

section \<open>Statuses and responses\<close>

definition unwrap_or :: "'a \<Rightarrow> 'a option \<Rightarrow> 'a" where
  "unwrap_or d v = (case v of None \<Rightarrow> d | Some x \<Rightarrow> x)"

lemma unwrap_or_simps [simp]: "unwrap_or d None = d" "unwrap_or d (Some x) = x"
  "unwrap_or d (or_default d v) = unwrap_or d v"
  by (simp_all add: unwrap_or_def or_default_def)

fun status_ok :: "w_status option \<Rightarrow> (i64 option, error) result" where
  "status_ok None = Err (Other ''response missing status'')"
| "status_ok (Some status) =
     (let code = unwrap_or (- 1) (ws_code status) in
      if code = 0 then Ok (ws_uuid status)
      else Err (Status code (unwrap_or [] (ws_message status))))"

definition response_rows :: "w_response \<Rightarrow> (plugin_response, error) result" where
  "response_rows response =
     bind_result (status_ok (wp_status response)) (\<lambda>_. Ok (unwrap_or [] (wp_response response)))"

definition ping_reply :: "w_status \<Rightarrow> (unit, error) result" where
  "ping_reply status = map_ok (\<lambda>_. ()) (status_ok (Some status))"

definition register_reply :: "w_status \<Rightarrow> (extension_uuid, error) result" where
  "register_reply status =
     bind_result (status_ok (Some status)) (ok_or (Other ''registration returned no uuid''))"

definition extensions_reply :: "w_extension_list \<Rightarrow> (extension_info list, error) result" where
  "extensions_reply exts = Ok (map (\<lambda>(uuid, info).
     \<lparr>ei_uuid = uuid, ei_name = unwrap_or [] (we_name info), ei_version = unwrap_or [] (we_version info),
      ei_sdk_version = unwrap_or [] (we_sdk_version info),
      ei_min_sdk_version = unwrap_or [] (we_min_sdk_version info)\<rparr>) exts)"

definition options_reply :: "w_option_list \<Rightarrow> ((string, option_info) btree, error) result" where
  "options_reply opts = Ok (bt_of (map (\<lambda>(name, info).
     (name, \<lparr>oi_value = unwrap_or [] (wo_value info), oi_default_value = unwrap_or [] (wo_default_value info),
       oi_type = unwrap_or [] (wo_type info)\<rparr>)) opts))"

section \<open>The client\<close>

record ('c, 's) mgr_client =
  mc_rpc :: "'c rpc_client"
  mc_stream :: "'s option"

text \<open>A reply of the generated client: its error becomes the SDK's, its value is folded.\<close>

definition replied :: "('a \<Rightarrow> ('b, error) result) \<Rightarrow> ('a, thrift_error) result \<Rightarrow> ('b, error) result" where
  "replied f r = bind_result (map_err from_thrift r) f"

definition with_rpc ::
  "('c rpc_client, 'a) tact \<Rightarrow> ('a \<Rightarrow> ('b, error) result) \<Rightarrow> (('c, 's) mgr_client, 'b, error) act" where
  "with_rpc m f = (\<lambda>cl. case m (mc_rpc cl) of (r, rpc) \<Rightarrow> (replied f r, cl\<lparr>mc_rpc := rpc\<rparr>))"

definition client_mgr_ping :: "'c thrift \<Rightarrow> (('c, 's) mgr_client, unit, error) act" where
  "client_mgr_ping T = with_rpc (client_ping T) ping_reply"

definition client_mgr_call ::
  "'c thrift \<Rightarrow> string \<Rightarrow> string \<Rightarrow> plugin_request \<Rightarrow> (('c, 's) mgr_client, plugin_response, error) act" where
  "client_mgr_call T registry item request = with_rpc (client_call T registry item request) response_rows"

definition client_mgr_extensions :: "'c thrift \<Rightarrow> (('c, 's) mgr_client, extension_info list, error) act" where
  "client_mgr_extensions T = with_rpc (client_extensions T) extensions_reply"

definition client_mgr_options :: "'c thrift \<Rightarrow> (('c, 's) mgr_client, (string, option_info) btree, error) act" where
  "client_mgr_options T = with_rpc (client_options T) options_reply"

definition client_mgr_query :: "'c thrift \<Rightarrow> string \<Rightarrow> (('c, 's) mgr_client, plugin_response, error) act" where
  "client_mgr_query T sql = with_rpc (client_query T sql) response_rows"

definition client_mgr_get_query_columns ::
  "'c thrift \<Rightarrow> string \<Rightarrow> (('c, 's) mgr_client, plugin_response, error) act" where
  "client_mgr_get_query_columns T sql = with_rpc (client_get_query_columns T sql) response_rows"

definition one_row :: "plugin_response \<Rightarrow> ((string, string) btree, error) result" where
  "one_row rows =
     (if length rows \<noteq> 1
      then Err (Other (''expected 1 row, got '' @ show_nat (length rows)))
      else (case rows of
          row # _ \<Rightarrow> Ok row
        | [] \<Rightarrow> Err (Other ''expected 1 row but iterator was empty'')))"

definition client_mgr_query_row ::
  "'c thrift \<Rightarrow> string \<Rightarrow> (('c, 's) mgr_client, (string, string) btree, error) act" where
  "client_mgr_query_row T sql = bnd (client_mgr_query T sql) (\<lambda>rows. lift_result (one_row rows))"

definition registration_info :: "string \<Rightarrow> string option \<Rightarrow> w_extension_info" where
  "registration_info name version =
     mk_extension_info (Some name) version None None"

definition client_mgr_register_extension ::
  "'c thrift \<Rightarrow> string \<Rightarrow> string option \<Rightarrow> extension_registry
    \<Rightarrow> (('c, 's) mgr_client, extension_uuid, error) act" where
  "client_mgr_register_extension T name version registry =
     with_rpc (client_register_extension T (registration_info name version) registry) register_reply"

definition client_mgr_deregister_extension ::
  "'c thrift \<Rightarrow> extension_uuid \<Rightarrow> (('c, 's) mgr_client, unit, error) act" where
  "client_mgr_deregister_extension T uuid = with_rpc (client_deregister_extension T uuid) ping_reply"

text \<open>Closing takes the stream, so a second close, or the drop, does nothing.\<close>

definition client_mgr_close :: "('s \<Rightarrow> 'c \<Rightarrow> 'c) \<Rightarrow> ('c, 's) mgr_client \<Rightarrow> ('c, 's) mgr_client" where
  "client_mgr_close shutdown_both cl =
     (case mc_stream cl of
        None \<Rightarrow> cl
      | Some stream \<Rightarrow> cl\<lparr>mc_stream := None,
          mc_rpc := (shutdown_both stream (fst (mc_rpc cl)), snd (mc_rpc cl))\<rparr>)"

definition drop_client :: "('s \<Rightarrow> 'c \<Rightarrow> 'c) \<Rightarrow> ('c, 's) mgr_client \<Rightarrow> ('c, 's) mgr_client" where
  "drop_client = client_mgr_close"

section \<open>The trait \<open>ExtensionManager\<close>\<close>

text \<open>\<open>dyn ExtensionManager\<close> over a type \<open>'k\<close> of clients, and its implementation by the client.\<close>

record 'k ext_manager =
  em_close :: "'k \<Rightarrow> 'k"
  em_ping :: "('k, unit, error) act"
  em_call :: "string \<Rightarrow> string \<Rightarrow> plugin_request \<Rightarrow> ('k, plugin_response, error) act"
  em_extensions :: "('k, extension_info list, error) act"
  em_options :: "('k, (string, option_info) btree, error) act"
  em_register_extension ::
    "string \<Rightarrow> string option \<Rightarrow> extension_registry \<Rightarrow> ('k, extension_uuid, error) act"
  em_deregister_extension :: "extension_uuid \<Rightarrow> ('k, unit, error) act"
  em_query :: "string \<Rightarrow> ('k, plugin_response, error) act"
  em_get_query_columns :: "string \<Rightarrow> ('k, plugin_response, error) act"

definition client_manager :: "'c thrift \<Rightarrow> ('s \<Rightarrow> 'c \<Rightarrow> 'c) \<Rightarrow> ('c, 's) mgr_client ext_manager" where
  "client_manager T shutdown_both =
     \<lparr>em_close = client_mgr_close shutdown_both, em_ping = client_mgr_ping T, em_call = client_mgr_call T,
      em_extensions = client_mgr_extensions T, em_options = client_mgr_options T,
      em_register_extension = client_mgr_register_extension T,
      em_deregister_extension = client_mgr_deregister_extension T, em_query = client_mgr_query T,
      em_get_query_columns = client_mgr_get_query_columns T\<rparr>"

text \<open>
  What a server relies on in its client: in the states that count as sane, also after a
  ping or a registration that can be sent, \<open>deregister_extension\<close> answers, with success or an
  error.
\<close>

locale answering_manager =
  fixes EM :: "'k ext_manager" and sane :: "'k \<Rightarrow> bool"
    and sendable :: "string \<Rightarrow> string option \<Rightarrow> extension_registry \<Rightarrow> bool"
  assumes ping_sane: "sane k \<Longrightarrow> sane (snd (em_ping EM k))"
    and register_sane: "sane k \<Longrightarrow> sendable name version registry \<Longrightarrow> sane (snd (em_register_extension EM name version registry k))"
    and deregister_answers: "sane k \<Longrightarrow> is_ok (fst (em_deregister_extension EM uuid k))
      \<or> is_err (fst (em_deregister_extension EM uuid k))"

section \<open>Connecting\<close>

definition from_stream ::
  "('s \<Rightarrow> ('s, io_error) result) \<Rightarrow> ('s \<Rightarrow> 's \<Rightarrow> 'c) \<Rightarrow> 's \<Rightarrow> (('c, 's) mgr_client, error) result" where
  "from_stream try_clone transports stream =
     bind_result (map_err error_from_io (try_clone stream)) (\<lambda>r.
     bind_result (map_err error_from_io (try_clone stream)) (\<lambda>w.
       Ok \<lparr>mc_rpc = new_rpc_client (transports r w), mc_stream = Some stream\<rparr>))"

definition connect_with_path ::
  "(string \<Rightarrow> ('s, io_error) result) \<Rightarrow> ('s \<Rightarrow> ('s, io_error) result) \<Rightarrow> ('s \<Rightarrow> 's \<Rightarrow> 'c) \<Rightarrow> string
    \<Rightarrow> (('c, 's) mgr_client, error) result" where
  "connect_with_path connect_sock try_clone transports path =
     bind_result
       (map_err (\<lambda>e. error_context (error_from_io e) (''connecting to '' @ path)) (connect_sock path))
       (from_stream try_clone transports)"

definition connect_default ::
  "(string \<Rightarrow> ('s, io_error) result) \<Rightarrow> ('s \<Rightarrow> ('s, io_error) result) \<Rightarrow> ('s \<Rightarrow> 's \<Rightarrow> 'c)
    \<Rightarrow> (('c, 's) mgr_client, error) result" where
  "connect_default connect_sock try_clone transports =
     connect_with_path connect_sock try_clone transports ''/var/osquery/osquery.em''"

text \<open>A \<open>Duration\<close> is its nanoseconds; its \<open>Debug\<close> text has a decimal fraction without
  trailing zeros.\<close>

definition strip_zeros :: "string \<Rightarrow> string" where
  "strip_zeros s = rev (dropWhile (\<lambda>c. c = CHR ''0'') (rev s))"

definition show_fraction :: "nat \<Rightarrow> nat \<Rightarrow> string" where
  "show_fraction width n =
     (let digits = strip_zeros (replicate (width - length (show_nat n)) (CHR ''0'') @ show_nat n)
      in if digits = [] then [] else CHR ''.'' # digits)"

definition show_duration :: "nat \<Rightarrow> string" where
  "show_duration ns =
     (if 1000000000 \<le> ns then show_nat (ns div 1000000000) @ show_fraction 9 (ns mod 1000000000) @ ''s''
      else if 1000000 \<le> ns then show_nat (ns div 1000000) @ show_fraction 6 (ns mod 1000000) @ ''ms''
      else if 1000 \<le> ns then show_nat (ns div 1000) @ show_fraction 3 (ns mod 1000) @ [CHR 0xC2, CHR 0xB5] @ ''s''
      else show_nat ns @ ''ns'')"

text \<open>
  The polling loop. \<open>there k\<close> says whether the path exists at the \<open>k\<close>-th look and \<open>clock k\<close>
  is the instant read after it; a sleep of 200 ms separates two rounds.
\<close>

primrec poll_socket ::
  "nat \<Rightarrow> (nat \<Rightarrow> bool) \<Rightarrow> (nat \<Rightarrow> nat) \<Rightarrow> nat \<Rightarrow> string \<Rightarrow> nat \<Rightarrow> (unit, io_error) result" where
  "poll_socket 0 there clock deadline message k = Diverge"
| "poll_socket (Suc n) there clock deadline message k =
     (if there k then Ok ()
      else if deadline \<le> clock k then Err (IoError ''TimedOut'' message)
      else poll_socket n there clock deadline message (Suc k))"

definition POLL_NANOS :: nat where
  "POLL_NANOS = 200000000"

text \<open>As many rounds as sleeps fit into the timeout, and two more.\<close>

definition wait_for_socket ::
  "(nat \<Rightarrow> bool) \<Rightarrow> (nat \<Rightarrow> nat) \<Rightarrow> nat \<Rightarrow> string \<Rightarrow> nat \<Rightarrow> (unit, io_error) result" where
  "wait_for_socket there clock start path timeout =
     poll_socket (timeout div POLL_NANOS + 2) there clock (start + timeout)
       (''timed out after '' @ show_duration timeout @ '' waiting for socket at '' @ path) 0"

definition connect_with_timeout ::
  "(string \<Rightarrow> ('s, io_error) result) \<Rightarrow> ('s \<Rightarrow> ('s, io_error) result) \<Rightarrow> ('s \<Rightarrow> 's \<Rightarrow> 'c)
    \<Rightarrow> (nat \<Rightarrow> bool) \<Rightarrow> (nat \<Rightarrow> nat) \<Rightarrow> nat \<Rightarrow> string \<Rightarrow> nat \<Rightarrow> (('c, 's) mgr_client, error) result" where
  "connect_with_timeout connect_sock try_clone transports there clock start path timeout =
     bind_result
       (map_err (\<lambda>e. error_context (error_from_io e) ''waiting for socket'')
         (wait_for_socket there clock start path timeout))
       (\<lambda>_. connect_with_path connect_sock try_clone transports path)"

section \<open>Named pipes\<close>

text \<open>
  Clones share the file and the closed flag, so the flag is the state. The open attempts of
  \<open>connect\<close> are a list: \<open>PipeBusy\<close> waits 10 ms and tries again; the clock is read before
  each attempt.
\<close>

datatype 'f pipe_attempt = PipeOpen 'f | PipeBusy | PipeFailed io_error

record 'f named_pipe =
  np_file :: 'f
  np_closed :: bool

primrec pipe_connect_loop ::
  "nat \<Rightarrow> (nat \<Rightarrow> 'f pipe_attempt) \<Rightarrow> (nat \<Rightarrow> nat) \<Rightarrow> nat \<Rightarrow> nat \<Rightarrow> ('f named_pipe, io_error) result" where
  "pipe_connect_loop 0 attempt clock timeout k = Diverge"
| "pipe_connect_loop (Suc n) attempt clock timeout k =
     (if clock k \<le> timeout then
        (case attempt k of
           PipeOpen f \<Rightarrow> Ok \<lparr>np_file = f, np_closed = False\<rparr>
         | PipeBusy \<Rightarrow> pipe_connect_loop n attempt clock timeout (Suc k)
         | PipeFailed e \<Rightarrow> Err e)
      else Err (IoError ''TimedOut'' ''timed out''))"

definition pipe_connect ::
  "(nat \<Rightarrow> 'f pipe_attempt) \<Rightarrow> (nat \<Rightarrow> nat) \<Rightarrow> nat \<Rightarrow> ('f named_pipe, io_error) result" where
  "pipe_connect attempt clock start = pipe_connect_loop 202 attempt clock (start + 2000000000) 0"

definition pipe_try_clone :: "'f named_pipe \<Rightarrow> ('f named_pipe, io_error) result" where
  "pipe_try_clone p = Ok p"

definition pipe_close :: "('f \<Rightarrow> 'f) \<Rightarrow> 'f named_pipe \<Rightarrow> 'f named_pipe" where
  "pipe_close cancel_io p = p\<lparr>np_file := cancel_io (np_file p), np_closed := True\<rparr>"

definition pipe_check_open :: "('f named_pipe, unit, io_error) act" where
  "pipe_check_open = (\<lambda>p.
     if np_closed p then (Err (IoError ''NotConnected'' ''pipe closed''), p) else (Ok (), p))"

definition on_file :: "('f, 'a, io_error) act \<Rightarrow> ('f named_pipe, 'a, io_error) act" where
  "on_file m = (\<lambda>p. case m (np_file p) of (r, f) \<Rightarrow> (r, p\<lparr>np_file := f\<rparr>))"

definition pipe_read :: "('f, 'a, io_error) act \<Rightarrow> ('f named_pipe, 'a, io_error) act" where
  "pipe_read file_read = seq pipe_check_open (on_file file_read)"

definition pipe_write :: "('f, 'a, io_error) act \<Rightarrow> ('f named_pipe, 'a, io_error) act" where
  "pipe_write file_write = seq pipe_check_open (on_file file_write)"

definition pipe_flush :: "('f, unit, io_error) act \<Rightarrow> ('f named_pipe, unit, io_error) act" where
  "pipe_flush file_flush = seq pipe_check_open (on_file file_flush)"

section \<open>Lemmas\<close>

lemma status_ok_Ok_iff: "status_ok s = Ok u \<longleftrightarrow> (\<exists>st. s = Some st \<and> ws_code st = Some 0 \<and> ws_uuid st = u)"
  by (cases s) (auto simp: unwrap_or_def Let_def split: option.splits)

lemma status_ok_no_panic [simp]: "status_ok s \<noteq> Panic p" "status_ok s \<noteq> Diverge"
  by (cases s; simp add: Let_def)+

lemma replied_simps [simp]:
  "replied f (Ok x) = f x" "replied f (Err e) = Err (from_thrift e)" "replied f (Panic p) = Panic p"
  "replied f Diverge = Diverge"
  by (simp_all add: replied_def)

lemma poll_socket_ends:
  assumes clock: "\<And>k. clock k + POLL_NANOS \<le> clock (Suc k)"
  shows "deadline \<le> clock k + n * POLL_NANOS \<Longrightarrow> poll_socket (Suc n) there clock deadline message k \<noteq> Diverge"
proof (induction n arbitrary: k)
  case (Suc n)
  have "deadline \<le> clock (Suc k) + n * POLL_NANOS"
    using Suc.prems clock [of k] by simp
  from Suc.IH [OF this] show ?case
    by (simp add: poll_socket.simps(2) [of "Suc n"] del: poll_socket.simps)
qed simp

lemma poll_socket_Ok:
  "poll_socket n there clock deadline message k = Ok () \<Longrightarrow>
   \<exists>j \<ge> k. there j \<and> (\<forall>i. k \<le> i \<and> i < j \<longrightarrow> clock i < deadline)"
proof (induction n arbitrary: k)
  case (Suc n)
  show ?case
  proof (cases "there k")
    case False
    then have "clock k < deadline" "poll_socket n there clock deadline message (Suc k) = Ok ()"
      using Suc.prems by (auto split: if_splits)
    with Suc.IH [of "Suc k"] show ?thesis
      by (metis Suc_leD le_neq_implies_less not_less_eq_eq order_le_less Suc_le_eq)
  qed auto
qed simp

lemma poll_socket_Err:
  "poll_socket n there clock deadline message k = Err e \<Longrightarrow>
   e = IoError ''TimedOut'' message \<and> (\<exists>j \<ge> k. deadline \<le> clock j \<and> (\<forall>i. k \<le> i \<and> i \<le> j \<longrightarrow> \<not> there i))"
proof (induction n arbitrary: k)
  case (Suc n)
  show ?case
  proof (cases "there k \<or> deadline \<le> clock k")
    case True
    then show ?thesis
      using Suc.prems by (auto split: if_splits intro!: exI [of _ k])
  next
    case False
    then obtain j where "e = IoError ''TimedOut'' message" "Suc k \<le> j" "deadline \<le> clock j"
      "\<forall>i. Suc k \<le> i \<and> i \<le> j \<longrightarrow> \<not> there i"
      using Suc.IH [of "Suc k"] Suc.prems by auto
    with False show ?thesis
      by (metis Suc_leD Suc_leI le_neq_implies_less)
  qed
qed simp

lemma poll_socket_no_panic: "poll_socket n there clock deadline message k \<noteq> Panic p"
  by (induction n arbitrary: k) auto

lemma pipe_connect_ends:
  assumes clock: "\<And>k. clock k + 10000000 \<le> clock (Suc k)"
  shows "timeout < clock k + n * 10000000 \<Longrightarrow> pipe_connect_loop (Suc n) attempt clock timeout k \<noteq> Diverge"
proof (induction n arbitrary: k)
  case (Suc n)
  have "timeout < clock (Suc k) + n * 10000000"
    using Suc.prems clock [of k] by simp
  from Suc.IH [OF this] show ?case
    by (simp add: pipe_connect_loop.simps(2) [of "Suc n"] del: pipe_connect_loop.simps split: pipe_attempt.split)
qed simp

section \<open>Properties\<close>

text \<open>
  C38: the check of \<open>status_ok\<close> for a missing code never meets one. A registration reply
  without code and uuid would be refused, but the reader gives both a default: what the
  peer sent crosses the wire as a success with uuid 0.
\<close>

theorem missing_code_arrives_as_success:
  assumes "wire_protocol T E" and "wire_status E st" and "ws_code st = None" and "ws_uuid st = None"
  shows "is_err (register_reply st) \<and> register_reply (norm_status st) = Ok (I64 0)
    \<and> crosses (write_status T st) (read_status T) (norm_status st)"
  using wire_protocol.crosses_status [OF assms(1,2)] assms(3,4)
  by (simp add: register_reply_def norm_status_def or_default_def)

theorem missing_code_arrives_as_success_witness:
  "register_reply (norm_status \<lparr>ws_code = None, ws_message = None, ws_uuid = None\<rparr>) = Ok (I64 0)"
  using missing_code_arrives_as_success [OF binary_wire_protocol [of 5],
      of "\<lparr>ws_code = None, ws_message = None, ws_uuid = None\<rparr>"]
  by (simp add: wire_status_def wire_option_def)



text \<open>
  Connecting to a named pipe that stays busy ends. When the clock advances by the sleep
  between two attempts, the attempts stop within the two seconds, and the fuel of the model
  covers them.
\<close>

lemma pipe_connect_decides:
  assumes "start \<le> clock 0" and "\<And>k. clock k + 10000000 \<le> clock (Suc k)"
  shows "pipe_connect attempt clock start \<noteq> Diverge"
proof -
  have "start + 2000000000 < clock 0 + 201 * 10000000"
    using assms(1) by simp
  from pipe_connect_ends [where clock = clock, OF assms(2) this, of attempt] show ?thesis
    by (simp add: pipe_connect_def del: pipe_connect_loop.simps)
qed

text \<open>
  After \<open>close\<close> a named pipe refuses to read, to write and to flush, on every clone,
  and does not touch the file.
\<close>

lemma closed_pipe_refuses:
  "pipe_try_clone (pipe_close cancel p) = Ok p' \<Longrightarrow>
   pipe_read rd p' = (Err (IoError ''NotConnected'' ''pipe closed''), p')
   \<and> pipe_write wr p' = (Err (IoError ''NotConnected'' ''pipe closed''), p')
   \<and> pipe_flush fl p' = (Err (IoError ''NotConnected'' ''pipe closed''), p')"
  by (auto simp: pipe_try_clone_def pipe_close_def pipe_read_def pipe_write_def pipe_flush_def
    pipe_check_open_def seq_def bnd_def)

end
