(* ===== verification/Peer.thy ===== *)
theory Peer
  imports RpcRoundtrip Client
begin

text \<open>
  The client of \<open>src/src/client/manager.rs\<close> at the other end of a connection to osquery. A peer
  is a server with a state of its own behind the channel: it acts when the client flushes,
  on the bytes it has not taken yet, and its reply is what the client reads next. The
  protocol over such a connection does to the channel what it did before; only its flush is
  new. The generated code runs over it unchanged, and a call comes to what the two ends of
  the theory \<open>RpcRoundtrip\<close> come to.
\<close>

section \<open>A connection with a peer behind it\<close>

text \<open>
  The state of the peer is what it has received and not yet taken, and its handler. A
  peer that fails or panics writes no more; one that does not return is waited for.
\<close>

definition deliver ::
  "('b chan \<times> 'h, unit) tact \<Rightarrow> ('b chan \<times> ('b list \<times> 'h), unit) tact" where
  "deliver server = (\<lambda>((i, out, eof), (pending, h)).
     case server ((pending @ out, [], False), h) of (r, ((rest, reply, _), h')) \<Rightarrow>
       (case r of Diverge \<Rightarrow> Diverge | _ \<Rightarrow> Ok (), ((i @ reply, [], eof), (rest, h'))))"

definition peer ::
  "'b chan thrift \<Rightarrow> ('b chan \<times> 'h, unit) tact \<Rightarrow> ('b chan \<times> ('b list \<times> 'h)) thrift" where
  "peer T server = \<lparr>
     rd_message_begin = on_conn (rd_message_begin T), rd_message_end = on_conn (rd_message_end T),
     rd_struct_begin = on_conn (rd_struct_begin T), rd_struct_end = on_conn (rd_struct_end T),
     rd_field_begin = on_conn (rd_field_begin T), rd_field_end = on_conn (rd_field_end T),
     rd_list_begin = on_conn (rd_list_begin T), rd_list_end = on_conn (rd_list_end T),
     rd_map_begin = on_conn (rd_map_begin T), rd_map_end = on_conn (rd_map_end T),
     rd_i32 = on_conn (rd_i32 T), rd_i64 = on_conn (rd_i64 T), rd_string = on_conn (rd_string T),
     rd_skip = \<lambda>ty. on_conn (rd_skip T ty), rd_app_error = on_conn (rd_app_error T),
     wr_message_begin = \<lambda>mi. on_conn (wr_message_begin T mi), wr_message_end = on_conn (wr_message_end T),
     wr_struct_begin = \<lambda>name. on_conn (wr_struct_begin T name), wr_struct_end = on_conn (wr_struct_end T),
     wr_field_begin = \<lambda>name ty fid. on_conn (wr_field_begin T name ty fid), wr_field_end = on_conn (wr_field_end T),
     wr_field_stop = on_conn (wr_field_stop T),
     wr_list_begin = \<lambda>ty n. on_conn (wr_list_begin T ty n), wr_list_end = on_conn (wr_list_end T),
     wr_map_begin = \<lambda>kt vt n. on_conn (wr_map_begin T kt vt n), wr_map_end = on_conn (wr_map_end T),
     wr_i32 = \<lambda>v. on_conn (wr_i32 T v), wr_i64 = \<lambda>v. on_conn (wr_i64 T v), wr_string = \<lambda>v. on_conn (wr_string T v),
     wr_app_error = \<lambda>e. on_conn (wr_app_error T e), wr_flush = seq (on_conn (wr_flush T)) (deliver server),
     t_field_id = t_field_id T, t_verify_seq = t_verify_seq T, t_verify_call = t_verify_call T,
     t_verify_type = t_verify_type T, t_missing_field = t_missing_field T, t_display = t_display T,
     t_process_result = \<lambda>mi r. on_conn (t_process_result T mi r), t_fuel = t_fuel T\<rparr>"

section \<open>The generated code over it\<close>

named_theorems conn_simps \<open>moving on_conn into an action\<close>

lemma on_conn_ret [conn_simps]: "on_conn (ret x) = ret x"
  by (auto simp: on_conn_def ret_def)

lemma on_conn_fail [conn_simps]: "on_conn (fail e) = fail e"
  by (auto simp: on_conn_def fail_def)

lemma on_conn_stuck [conn_simps]: "on_conn (panic p) = panic p" "on_conn diverge = diverge"
  by (auto simp: on_conn_def panic_def diverge_def)

lemma on_conn_lift [conn_simps]: "on_conn (lift_result r) = lift_result r"
  by (auto simp: on_conn_def lift_result_def)

lemma on_conn_bnd [conn_simps]: "on_conn (bnd m f) = bnd (on_conn m) (\<lambda>x. on_conn (f x))"
  by (auto simp: on_conn_def bnd_def split: prod.split result.split)

lemma on_conn_seq [conn_simps]: "on_conn (seq m k) = seq (on_conn m) (on_conn k)"
  by (simp add: seq_def on_conn_bnd)

lemma on_conn_if [conn_simps]: "on_conn (if b then m else k) = (if b then on_conn m else on_conn k)"
  by simp

lemma on_conn_case_prod [conn_simps]: "on_conn (case_prod f x) = (case x of (a, b) \<Rightarrow> on_conn (f a b))"
  by (cases x) simp

text \<open>The primitives; these equations are used from left to right, into the peer's protocol.\<close>

lemma peer_ops:
  "rd_message_begin (peer T S) = on_conn (rd_message_begin T)" "rd_message_end (peer T S) = on_conn (rd_message_end T)"
  "wr_message_begin (peer T S) mi = on_conn (wr_message_begin T mi)" "wr_message_end (peer T S) = on_conn (wr_message_end T)"
  "rd_app_error (peer T S) = on_conn (rd_app_error T)"
  "rd_struct_begin (peer T S) = on_conn (rd_struct_begin T)" "rd_struct_end (peer T S) = on_conn (rd_struct_end T)"
  "rd_field_begin (peer T S) = on_conn (rd_field_begin T)" "rd_field_end (peer T S) = on_conn (rd_field_end T)"
  "rd_list_begin (peer T S) = on_conn (rd_list_begin T)" "rd_list_end (peer T S) = on_conn (rd_list_end T)"
  "rd_map_begin (peer T S) = on_conn (rd_map_begin T)" "rd_map_end (peer T S) = on_conn (rd_map_end T)"
  "rd_i32 (peer T S) = on_conn (rd_i32 T)" "rd_i64 (peer T S) = on_conn (rd_i64 T)"
  "rd_string (peer T S) = on_conn (rd_string T)" "rd_skip (peer T S) ty = on_conn (rd_skip T ty)"
  "wr_struct_begin (peer T S) name = on_conn (wr_struct_begin T name)" "wr_struct_end (peer T S) = on_conn (wr_struct_end T)"
  "wr_field_begin (peer T S) name ty fid = on_conn (wr_field_begin T name ty fid)"
  "wr_field_end (peer T S) = on_conn (wr_field_end T)" "wr_field_stop (peer T S) = on_conn (wr_field_stop T)"
  "wr_list_begin (peer T S) ty n = on_conn (wr_list_begin T ty n)" "wr_list_end (peer T S) = on_conn (wr_list_end T)"
  "wr_map_begin (peer T S) kt vt n = on_conn (wr_map_begin T kt vt n)" "wr_map_end (peer T S) = on_conn (wr_map_end T)"
  "wr_i32 (peer T S) v = on_conn (wr_i32 T v)" "wr_i64 (peer T S) d = on_conn (wr_i64 T d)"
  "wr_string (peer T S) s = on_conn (wr_string T s)"
  "wr_flush (peer T S) = seq (on_conn (wr_flush T)) (deliver S)"
  by (simp_all add: peer_def)

lemma peer_pure [conn_simps]:
  "t_field_id (peer T S) = t_field_id T" "t_verify_seq (peer T S) = t_verify_seq T"
  "t_verify_call (peer T S) = t_verify_call T" "t_verify_type (peer T S) = t_verify_type T"
  "t_missing_field (peer T S) = t_missing_field T" "t_fuel (peer T S) = t_fuel T"
  by (simp_all add: peer_def)

subsection \<open>Readers\<close>

lemma peer_fields:
  assumes "\<And>fid ty x. arms' fid ty x = on_conn (arms fid ty x)"
  shows "read_fields (peer T S) n arms' x = on_conn (read_fields T n arms x)"
  by (induction n arbitrary: x) (simp_all add: conn_simps peer_ops assms cong: if_cong)

lemma peer_struct:
  assumes "\<And>fid ty x. arms' fid ty x = on_conn (arms fid ty x)"
  shows "read_struct (peer T S) arms' x = on_conn (read_struct T arms x)"
  by (simp add: read_struct_def conn_simps peer_ops peer_fields [OF assms])

lemma peer_skip_arm: "skip_arm (peer T S) ty x = on_conn (skip_arm T ty x)"
  by (simp add: skip_arm_def conn_simps peer_ops)

lemma peer_empty_struct: "read_empty_struct (peer T S) = on_conn (read_empty_struct T)"
proof -
  have "skip_fields (peer T S) n = on_conn (skip_fields T n)" for n
    by (induction n) (simp_all add: conn_simps peer_ops cong: if_cong)
  then show ?thesis
    by (simp add: read_empty_struct_def conn_simps peer_ops)
qed

lemma peer_entries: "read_entries n (on_conn rk) (on_conn rv) m = on_conn (read_entries n rk rv m)"
  by (induction n arbitrary: m) (simp_all add: conn_simps)

lemma peer_btree: "read_btree (peer T S) (on_conn rk) (on_conn rv) = on_conn (read_btree T rk rv)"
  by (simp add: read_btree_def conn_simps peer_ops peer_entries)

lemma peer_items: "read_items n (on_conn re) = on_conn (read_items n re)"
  by (induction n) (simp_all add: conn_simps)

lemma peer_vec: "read_vec (peer T S) (on_conn re) = on_conn (read_vec T re)"
  by (simp add: read_vec_def conn_simps peer_ops peer_items cong: if_cong)

lemma peer_string_map: "read_string_map (peer T S) = on_conn (read_string_map T)"
  by (simp add: read_string_map_def peer_btree peer_ops)

lemma peer_plugin_response: "read_plugin_response (peer T S) = on_conn (read_plugin_response T)"
  by (simp add: read_plugin_response_def peer_vec peer_string_map)

lemma peer_infos:
  "read_option_info (peer T S) = on_conn (read_option_info T)"
  "read_extension_info (peer T S) = on_conn (read_extension_info T)"
  "read_status (peer T S) = on_conn (read_status T)"
  unfolding read_option_info_def read_extension_info_def read_status_def
  by (rule peer_struct, simp add: conn_simps peer_ops peer_skip_arm)+

lemma peer_response: "read_response (peer T S) = on_conn (read_response T)"
  unfolding read_response_def
  by (rule peer_struct) (simp add: conn_simps peer_infos peer_plugin_response peer_skip_arm)

lemma peer_result:
  assumes "re' = on_conn re"
  shows "read_result (peer T S) re' = on_conn (read_result T re)"
  unfolding read_result_def assms by (rule peer_struct) (simp add: conn_simps peer_skip_arm)

lemma peer_results:
  "read_ping_result (peer T S) = on_conn (read_ping_result T)"
  "read_call_result (peer T S) = on_conn (read_call_result T)"
  "read_shutdown_result (peer T S) = on_conn (read_shutdown_result T)"
  "read_extensions_result (peer T S) = on_conn (read_extensions_result T)"
  "read_options_result (peer T S) = on_conn (read_options_result T)"
  "read_register_result (peer T S) = on_conn (read_register_result T)"
  "read_deregister_result (peer T S) = on_conn (read_deregister_result T)"
  "read_query_result (peer T S) = on_conn (read_query_result T)"
  "read_get_query_columns_result (peer T S) = on_conn (read_get_query_columns_result T)"
  by (simp_all add: read_ping_result_def read_call_result_def read_shutdown_result_def read_extensions_result_def
    read_options_result_def read_register_result_def read_deregister_result_def read_query_result_def
    read_get_query_columns_result_def peer_result peer_infos peer_response peer_empty_struct peer_btree peer_ops)

subsection \<open>Writers\<close>

lemma peer_each: "write_each (\<lambda>x. on_conn (w x)) xs = on_conn (write_each w xs)"
  by (induction xs) (simp_all add: conn_simps)

lemma peer_field: "write_field (peer T S) name ty fid (on_conn body) = on_conn (write_field T name ty fid body)"
  by (simp add: write_field_def conn_simps peer_ops)

lemma peer_opt_field:
  assumes "\<And>x. w' x = on_conn (w x)"
  shows "write_opt_field (peer T S) name ty fid w' v = on_conn (write_opt_field T name ty fid w v)"
  by (cases v) (simp_all add: write_opt_field_def conn_simps peer_field assms)

lemma peer_write_struct: "write_struct (peer T S) name (on_conn body) = on_conn (write_struct T name body)"
  by (simp add: write_struct_def conn_simps peer_ops)

lemma peer_write_btree:
  assumes "\<And>k. wk' k = on_conn (wk k)" and "\<And>v. wv' v = on_conn (wv v)"
  shows "write_btree (peer T S) kt vt wk' wv' m = on_conn (write_btree T kt vt wk wv m)"
proof -
  have "(\<lambda>(k, v). seq (wk' k) (wv' v)) = (\<lambda>x. on_conn (case x of (k, v) \<Rightarrow> seq (wk k) (wv v)))"
    by (auto simp: assms conn_simps)
  then show ?thesis
    by (simp add: write_btree_def conn_simps peer_ops peer_each del: on_conn_case_prod)
qed

lemma peer_write_vec:
  assumes "\<And>x. w' x = on_conn (w x)"
  shows "write_vec (peer T S) ty w' xs = on_conn (write_vec T ty w xs)"
proof -
  have "w' = (\<lambda>x. on_conn (w x))"
    using assms by blast
  then show ?thesis
    by (simp add: write_vec_def conn_simps peer_ops peer_each)
qed

lemma peer_write_string_map: "write_string_map (peer T S) m = on_conn (write_string_map T m)"
  by (simp add: write_string_map_def peer_write_btree peer_ops)

lemma peer_write_response: "write_plugin_response (peer T S) rows = on_conn (write_plugin_response T rows)"
  by (simp add: write_plugin_response_def peer_write_vec peer_write_string_map)

lemma peer_write_registry: "write_registry (peer T S) m = on_conn (write_registry T m)"
proof -
  have "write_route_table (peer T S) rt = on_conn (write_route_table T rt)" for rt
    by (simp add: write_route_table_def peer_write_btree peer_write_response peer_ops)
  then show ?thesis
    by (simp add: write_registry_def peer_write_btree peer_ops)
qed

lemma on_conn_ret_unit: "(ret () :: ('c \<times> 'h, unit) tact) = on_conn (ret ())"
  by (simp add: conn_simps)

lemma peer_write_info: "write_extension_info (peer T S) e = on_conn (write_extension_info T e)"
  by (simp add: write_extension_info_def peer_opt_field peer_ops on_conn_seq [symmetric] peer_write_struct)

lemma peer_args:
  "write_ping_args (peer T S) a0 = on_conn (write_ping_args T a0)"
  "write_shutdown_args (peer T S) a0 = on_conn (write_shutdown_args T a0)"
  "write_extensions_args (peer T S) a0 = on_conn (write_extensions_args T a0)"
  "write_options_args (peer T S) a0 = on_conn (write_options_args T a0)"
  "write_call_args (peer T S) c = on_conn (write_call_args T c)"
  "write_register_args (peer T S) r = on_conn (write_register_args T r)"
  "write_deregister_args (peer T S) uuid = on_conn (write_deregister_args T uuid)"
  "write_query_args (peer T S) sql = on_conn (write_query_args T sql)"
  "write_get_query_columns_args (peer T S) sql = on_conn (write_get_query_columns_args T sql)"
  by (simp_all add: write_ping_args_def write_shutdown_args_def write_extensions_args_def write_options_args_def
    write_call_args_def write_register_args_def write_deregister_args_def write_query_args_def
    write_get_query_columns_args_def on_conn_ret_unit peer_field peer_write_string_map peer_write_registry
    peer_write_info peer_ops on_conn_seq [symmetric] peer_write_struct)

section \<open>A call\<close>

text \<open>A client whose connection is at rest: nothing is buffered at either end.\<close>

definition at_rest :: "'h \<Rightarrow> 'b chan \<times> ('b list \<times> 'h)" where
  "at_rest h = (([], [], False), ([], h))"

lemma emits_on_conn: "emits m w \<Longrightarrow> on_conn m ((i, out, eof), x) = (Ok (), ((i, out @ w, eof), x))"
  by (simp add: emits_def on_conn_def)

lemma on_conn_apply: "on_conn m (c, x) = (case m c of (r, c') \<Rightarrow> (r, (c', x)))"
  by (simp add: on_conn_def)

lemma client_recv_peer:
  "client_recv (peer T S) name (on_conn rres) okor ((c, x), sq)
    = (case client_recv T name rres okor (c, sq) of (r, (c', sq')) \<Rightarrow> (r, ((c', x), sq')))"
proof -
  let ?body = "\<lambda>T rres. bnd (rd_message_begin T) (\<lambda>mi.
       seq (lift_result (t_verify_seq T sq (mi_seq mi)))
       (seq (lift_result (t_verify_call T name (mi_name mi)))
       (if mi_type mi = MException
        then bnd (rd_app_error T) (\<lambda>e. seq (rd_message_end T) (fail (TApplication e)))
        else seq (lift_result (t_verify_type T MReply (mi_type mi)))
          (bnd rres (\<lambda>r. seq (rd_message_end T) (lift_result (okor r)))))))"
  have "?body (peer T S) (on_conn rres) = on_conn (?body T rres)"
    by (simp add: conn_simps peer_ops cong: if_cong)
  then have "?body (peer T S) (on_conn rres) (c, x) = (case ?body T rres c of (r, c') \<Rightarrow> (r, (c', x)))"
    by (simp only: on_conn_apply)
  then show ?thesis
    unfolding client_recv_def on_client_def prod.case by (simp split: prod.split)
qed

context wire_protocol
begin

lemma client_send_peer:
  assumes "emits wargs bs"
    and "S ((e_message E \<lparr>mi_name = name, mi_type = MCall, mi_seq = sq + 1\<rparr> @ bs, [], False), h)
      = (Ok (), (([], reply, eof), h'))"
  shows "client_send (peer T S) name (on_conn wargs) (at_rest h, sq)
    = (Ok (), (((reply, [], False), ([], h')), sq + 1))"
proof -
  let ?mi = "\<lparr>mi_name = name, mi_type = MCall, mi_seq = sq + 1\<rparr>"
  have "seq (on_conn (wr_message_begin T ?mi)) (seq (on_conn wargs) (seq (on_conn (wr_message_end T))
      (seq (on_conn (wr_flush T)) (deliver S)))) (at_rest h)
    = deliver S (([], e_message E ?mi @ bs, False), ([], h))"
    by (simp add: seq_def bnd_def at_rest_def emits_on_conn [OF message_write] emits_on_conn [OF assms(1)]
      emits_on_conn [OF message_end(1)] emits_on_conn [OF flush])
  also have "\<dots> = (Ok (), ((reply, [], False), ([], h')))"
    using assms(2) by (simp add: deliver_def)
  finally show ?thesis
    by (simp add: client_send_def on_client_def increment_sequence_number_def peer_ops)
qed

text \<open>A method against a peer that runs its handler, and the peer's exception.\<close>

lemma peer_reply:
  assumes name: "ok_string E name" and args: "crosses wargs rargs a"
    and dispatch: "dispatch \<lparr>mi_name = name, mi_type = MCall, mi_seq = sq + 1\<rparr>
      = process_method T name (sq + 1) rargs handle wres"
    and handle: "handle a h = (Ok v, h')" and result: "crosses (wres v) rres r" and ok: "okor r = Ok y"
  shows "client_rpc (peer T (process_message T dispatch)) name (on_conn wargs) (on_conn rres) okor (at_rest h, sq)
    = (Ok y, (at_rest h', sq + 1))"
proof -
  from args obtain bs where bs: "emits wargs bs" by (rule crossesE)
  obtain request reply where p: "client_send T name wargs (([], [], False), sq) = (Ok (), (([], request, False), sq + 1))"
    "process_message T dispatch ((request, [], False), h) = (Ok (), (([], reply, False), h'))"
    "client_recv T name rres okor ((reply, [], False), sq + 1) = (Ok y, (([], [], False), sq + 1))"
    by (rule call_pieces [where dispatch = dispatch and handle = handle and wres = wres and okor = okor, OF assms])
  have "request = e_message E \<lparr>mi_name = name, mi_type = MCall, mi_seq = sq + 1\<rparr> @ bs"
    using p(1) client_send_emits [OF bs, of name "[]" "[]" False sq] by simp
  from client_send_peer [where S = "process_message T dispatch", OF bs p(2) [unfolded this]] p(3) show ?thesis
    by (simp add: client_rpc_def seq_def bnd_def client_recv_peer at_rest_def)
qed

lemma peer_exception:
  assumes name: "ok_string E name" and args: "crosses wargs rargs a"
    and dispatch: "dispatch \<lparr>mi_name = name, mi_type = MCall, mi_seq = sq + 1\<rparr>
      = process_method T name (sq + 1) rargs handle wres"
    and handle: "handle a h = (Err e, h')" and e: "ok_app_error E (to_app_error T e)"
  shows "client_rpc (peer T (process_message T dispatch)) name (on_conn wargs) (on_conn rres) okor (at_rest h, sq)
    = (Err (TApplication (to_app_error T e)), (at_rest h', sq + 1))"
proof -
  from args obtain bs where bs: "emits wargs bs" "accepts rargs bs a" by (rule crossesE)
  let ?call = "\<lparr>mi_name = name, mi_type = MCall, mi_seq = sq + 1\<rparr>"
  let ?exc = "\<lparr>mi_name = name, mi_type = MException, mi_seq = sq + 1\<rparr>"
  have "dispatch ?call ((bs @ [], [], False), h)
      = (Ok (), (([], [] @ e_message E ?exc @ e_app_error E (to_app_error T e), False), h'))"
    unfolding dispatch by (rule process_method_exception [where handle = handle, OF bs(2) handle])
  then have "process_message T dispatch ((e_message E ?call @ bs, [], False), h)
      = (Ok (), (([], e_message E ?exc @ e_app_error E (to_app_error T e), False), h'))"
    using name by (intro process_message_dispatched) simp_all
  note sent = client_send_peer [where S = "process_message T dispatch", OF bs(1) this]
  have "client_recv T name rres okor
      ((e_message E ?exc @ e_app_error E (to_app_error T e) @ [], [], False), sq + 1)
      = (Err (TApplication (to_app_error T e)), (([], [], False), sq + 1))"
    by (rule client_recv_exception [OF name e])
  with sent show ?thesis
    by (simp add: client_rpc_def seq_def bnd_def client_recv_peer at_rest_def)
qed

end

section \<open>The client and osquery\<close>

text \<open>The client of \<open>Client\<close>, with a connection at rest; it has sent \<open>sq\<close> calls.\<close>

definition resting_client :: "'h \<Rightarrow> i32 \<Rightarrow> 's option \<Rightarrow> ('b chan \<times> ('b list \<times> 'h), 's) mgr_client" where
  "resting_client h sq stream = \<lparr>mc_rpc = (at_rest h, sq), mc_stream = stream\<rparr>"

lemma resting_client_inject [simp]:
  "resting_client h sq stream = resting_client h' sq' stream' \<longleftrightarrow> h = h' \<and> sq = sq' \<and> stream = stream'"
  by (simp add: resting_client_def at_rest_def)

text \<open>osquery behind the connection: the generated processor of its service, with a handler.\<close>

definition osquery :: "'b chan thrift \<Rightarrow> 'h mgr_handler \<Rightarrow> ('b chan \<times> ('b list \<times> 'h)) thrift" where
  "osquery T H = peer T (process_manager T H)"

lemma with_rpc_resting:
  assumes "m (at_rest h, sq) = (r, (at_rest h', sq'))"
  shows "with_rpc m f (resting_client h sq stream) = (replied f r, resting_client h' sq' stream)"
  using assms by (simp add: with_rpc_def resting_client_def)

text \<open>An answer as the client sees it, and the answers that can be sent.\<close>

fun seen :: "'c thrift \<Rightarrow> ('a \<Rightarrow> 'a) \<Rightarrow> ('a, thrift_error) result \<Rightarrow> ('a, thrift_error) result" where
  "seen T norm (Ok v) = Ok (norm v)"
| "seen T norm (Err e) = Err (TApplication (to_app_error T e))"
| "seen T norm r = r"

fun sendable_answer :: "'c thrift \<Rightarrow> 'b wire_enc \<Rightarrow> ('a \<Rightarrow> bool) \<Rightarrow> ('a, thrift_error) result \<Rightarrow> bool" where
  "sendable_answer T E ok (Ok v) = ok v"
| "sendable_answer T E ok (Err e) = ok_app_error E (to_app_error T e)"
| "sendable_answer T E ok r = False"

context wire_protocol
begin

lemma peer_method:
  assumes name: "ok_string E name" and args: "crosses wargs rargs a"
    and dispatch: "dispatch \<lparr>mi_name = name, mi_type = MCall, mi_seq = sq + 1\<rparr>
      = process_method T name (sq + 1) rargs handle wres"
    and handle: "handle a h = (r, h')" and sent: "sendable_answer T E okv r"
    and crosses: "\<And>v. okv v \<Longrightarrow> crosses (wres v) rres (read v)" and ok: "\<And>v. okor (read v) = Ok (norm v)"
  shows "client_rpc (peer T (process_message T dispatch)) name (on_conn wargs) (on_conn rres) okor (at_rest h, sq)
    = (seen T norm r, (at_rest h', sq + 1))"
proof (cases r)
  case (Ok v)
  then show ?thesis
    using peer_reply [where dispatch = dispatch and handle = handle and wres = wres and okor = okor and v = v
        and r = "read v", OF name args dispatch _ crosses ok] handle sent by simp
next
  case (Err e)
  then show ?thesis
    using peer_exception [where dispatch = dispatch and handle = handle and wres = wres and okor = okor,
        OF name args dispatch] handle sent by simp
qed (use sent in simp_all)

lemma ping_osquery:
  assumes "ok_string E ''ping''" and "handle_ping H h = (r, h')" and "sendable_answer T E (wire_status E) r"
  shows "client_mgr_ping (osquery T H) (resting_client h sq stream)
    = (replied ping_reply (seen T norm_status r), resting_client h' (sq + 1) stream)"
  unfolding client_mgr_ping_def client_ping_def osquery_def process_manager_def peer_args peer_results
  by (rule with_rpc_resting, rule peer_method [OF assms(1) crosses_empty_args(1) _ _ assms(3),
        where handle = "\<lambda>_. handle_ping H" and wres = "\<lambda>v. write_ping_result T (Some v)"
          and read = "\<lambda>v. Some (norm_status v)"])
    (simp_all add: dispatch_manager_def process_ping_def assms crosses_status_results ping_result_ok_or_def)

lemma register_osquery:
  assumes "ok_string E ''registerExtension''"
    and "wire_register_args E \<lparr>ra_info = registration_info name version, ra_registry = registry\<rparr>"
    and "handle_register_extension H (norm_extension_info (registration_info name version)) registry h = (r, h')"
    and "sendable_answer T E (wire_status E) r"
  shows "client_mgr_register_extension (osquery T H) name version registry (resting_client h sq stream)
    = (replied register_reply (seen T norm_status r), resting_client h' (sq + 1) stream)"
  unfolding client_mgr_register_extension_def client_register_extension_def osquery_def process_manager_def
    peer_args peer_results
  by (rule with_rpc_resting, rule peer_method [OF assms(1) crosses_register_args [OF assms(2)] _ _ assms(4),
        where handle = "\<lambda>a. handle_register_extension H (ra_info a) (ra_registry a)"
          and wres = "\<lambda>v. write_register_result T (Some v)" and read = "\<lambda>v. Some (norm_status v)"])
    (simp_all add: dispatch_manager_def process_register_extension_def assms crosses_status_results
      register_result_ok_or_def)

lemma deregister_osquery:
  assumes "ok_string E ''deregisterExtension''"
    and "handle_deregister_extension H uuid h = (r, h')" and "sendable_answer T E (wire_status E) r"
  shows "client_mgr_deregister_extension (osquery T H) uuid (resting_client h sq stream)
    = (replied ping_reply (seen T norm_status r), resting_client h' (sq + 1) stream)"
  unfolding client_mgr_deregister_extension_def client_deregister_extension_def osquery_def process_manager_def
    peer_args peer_results
  by (rule with_rpc_resting, rule peer_method [OF assms(1) crosses_deregister_args _ _ assms(3),
        where handle = "handle_deregister_extension H"
          and wres = "\<lambda>v. write_deregister_result T (Some v)" and read = "\<lambda>v. Some (norm_status v)"])
    (simp_all add: dispatch_manager_def process_deregister_extension_def assms crosses_status_results
      deregister_result_ok_or_def)

lemma query_osquery:
  assumes "ok_string E ''query''" and "ok_string E sql"
    and "handle_query H sql h = (r, h')" and "sendable_answer T E (wire_response E) r"
  shows "client_mgr_query (osquery T H) sql (resting_client h sq stream)
    = (replied response_rows (seen T norm_response r), resting_client h' (sq + 1) stream)"
  unfolding client_mgr_query_def client_query_def osquery_def process_manager_def peer_args peer_results
  by (rule with_rpc_resting, rule peer_method [OF assms(1) crosses_query_args [OF assms(2)] _ _ assms(4),
        where handle = "handle_query H" and wres = "\<lambda>v. write_query_result T (Some v)"
          and read = "\<lambda>v. Some (norm_response v)"])
    (simp_all add: dispatch_manager_def process_query_def assms crosses_response_results query_result_ok_or_def)

lemma get_query_columns_osquery:
  assumes "ok_string E ''getQueryColumns''" and "ok_string E sql"
    and "handle_get_query_columns H sql h = (r, h')" and "sendable_answer T E (wire_response E) r"
  shows "client_mgr_get_query_columns (osquery T H) sql (resting_client h sq stream)
    = (replied response_rows (seen T norm_response r), resting_client h' (sq + 1) stream)"
  unfolding client_mgr_get_query_columns_def client_get_query_columns_def osquery_def process_manager_def
    peer_args peer_results
  by (rule with_rpc_resting, rule peer_method [OF assms(1) crosses_get_query_columns_args [OF assms(2)] _ _ assms(4),
        where handle = "handle_get_query_columns H" and wres = "\<lambda>v. write_get_query_columns_result T (Some v)"
          and read = "\<lambda>v. Some (norm_response v)"])
    (simp_all add: dispatch_manager_def process_get_query_columns_def assms crosses_response_results
      get_query_columns_result_ok_or_def)

lemma call_osquery:
  assumes "ok_string E ''call''" and "wire_call_args E \<lparr>ca_registry = registry, ca_item = item, ca_request = request\<rparr>"
    and "handle_call H registry item request h = (r, h')" and "sendable_answer T E (wire_response E) r"
  shows "client_mgr_call (osquery T H) registry item request (resting_client h sq stream)
    = (replied response_rows (seen T norm_response r), resting_client h' (sq + 1) stream)"
  unfolding client_mgr_call_def client_call_def osquery_def process_manager_def peer_args peer_results
  by (rule with_rpc_resting, rule peer_method [OF assms(1) crosses_call_args [OF assms(2)] _ _ assms(4),
        where handle = "\<lambda>a. handle_call H (ca_registry a) (ca_item a) (ca_request a)"
          and wres = "\<lambda>v. write_call_result T (Some v)" and read = "\<lambda>v. Some (norm_response v)"])
    (simp_all add: dispatch_manager_def process_call_def assms crosses_response_results call_result_ok_or_def)

lemma extensions_osquery:
  assumes "ok_string E ''extensions''"
    and "handle_extensions H h = (r, h')" and "sendable_answer T E (wire_extension_list E) r"
  shows "client_mgr_extensions (osquery T H) (resting_client h sq stream)
    = (replied extensions_reply (seen T (map (apsnd norm_extension_info)) r), resting_client h' (sq + 1) stream)"
  unfolding client_mgr_extensions_def client_extensions_def osquery_def process_manager_def peer_args peer_results
  by (rule with_rpc_resting, rule peer_method [OF assms(1) crosses_empty_args(3) _ _ assms(3),
        where handle = "\<lambda>_. handle_extensions H" and wres = "\<lambda>v. write_extensions_result T (Some v)"
          and read = "\<lambda>v. Some (map (apsnd norm_extension_info) v)"])
    (simp_all add: dispatch_manager_def process_extensions_def assms crosses_extensions_result
      extensions_result_ok_or_def)

lemma options_osquery:
  assumes "ok_string E ''options''"
    and "handle_options H h = (r, h')" and "sendable_answer T E (wire_option_list E) r"
  shows "client_mgr_options (osquery T H) (resting_client h sq stream)
    = (replied options_reply (seen T (map (apsnd norm_option_info)) r), resting_client h' (sq + 1) stream)"
  unfolding client_mgr_options_def client_options_def osquery_def process_manager_def peer_args peer_results
  by (rule with_rpc_resting, rule peer_method [OF assms(1) crosses_empty_args(4) _ _ assms(3),
        where handle = "\<lambda>_. handle_options H" and wres = "\<lambda>v. write_options_result T (Some v)"
          and read = "\<lambda>v. Some (map (apsnd norm_option_info) v)"])
    (simp_all add: dispatch_manager_def process_options_def assms crosses_options_result options_result_ok_or_def)

end

end
