(* ===== verification/Registry.thy ===== *)
theory Registry
  imports Client
begin

text \<open>
  \<open>src/src/server/mod.rs\<close> and the request handler of \<open>src/src/server/manager.rs\<close>: registry
  names, plugins behind their locks, registration, the routes broadcast to osquery and the
  dispatch of a call. \<open>dyn OsqueryPlugin\<close> is the record \<open>plugin\<close> of its methods over a type
  \<open>'p\<close> of plugin states, a parameter. A \<open>HashMap\<close> is an association list without
  repeated keys, in whatever order it has; a lock is its content and its poisoned flag.
\<close>

section \<open>Registry names\<close>

datatype registry_name = RTable | RLogger | RConfig | RDistributed

primrec registry_name_display :: "registry_name \<Rightarrow> string" where
  "registry_name_display RTable = ''table''"
| "registry_name_display RLogger = ''logger''"
| "registry_name_display RConfig = ''config''"
| "registry_name_display RDistributed = ''distributed''"

definition registry_name_from_str :: "string \<Rightarrow> (registry_name, string) result" where
  "registry_name_from_str s =
     (if s = ''table'' then Ok RTable
      else if s = ''logger'' then Ok RLogger
      else if s = ''config'' then Ok RConfig
      else if s = ''distributed'' then Ok RDistributed
      else Err (''Unknown registry: '' @ s))"

lemma registry_name_round_trip: "registry_name_from_str (registry_name_display r) = Ok r"
  by (cases r) (simp_all add: registry_name_from_str_def)

lemma registry_name_from_str_iff: "registry_name_from_str s = Ok r \<longleftrightarrow> s = registry_name_display r"
  by (cases r) (auto simp: registry_name_from_str_def)

lemma registry_name_display_inject [simp]: "registry_name_display a = registry_name_display b \<longleftrightarrow> a = b"
  by (cases a; cases b) simp_all

section \<open>Plugins and their locks\<close>

text \<open>
  The methods of a plugin. \<open>call\<close> and \<open>shutdown\<close> run user code that changes the plugin and
  may panic or not return, the others are functions of it. \<open>shutdown\<close> returns nothing, so
  its error is never used.
\<close>

record 'p plugin =
  pl_name :: "'p \<Rightarrow> string"
  pl_registry_name :: "'p \<Rightarrow> registry_name"
  pl_routes :: "'p \<Rightarrow> plugin_response"
  pl_ping :: "'p \<Rightarrow> (unit, error) result"
  pl_call :: "plugin_request \<Rightarrow> ('p, plugin_response, error) act"
  pl_shutdown :: "('p, unit, error) act"

text \<open>What a shutdown of the server relies on to get through: every plugin's own shutdown returns.\<close>

locale returning_shutdown =
  fixes V :: "'p plugin"
  assumes shutdown_returns: "\<exists>p'. pl_shutdown V p = (Ok (), p')"

record 'p cell =
  ce_plugin :: 'p
  ce_poisoned :: bool

type_synonym 'p plugins = "(string \<times> 'p cell) list"

record 'p registry =
  rg_map :: "(registry_name \<times> 'p plugins) list"
  rg_poisoned :: bool

definition new_registry :: "'p registry" where
  "new_registry = \<lparr>rg_map = [], rg_poisoned = False\<rparr>"

definition or_default_entry :: "'k \<Rightarrow> ('k \<times> 'v list) list \<Rightarrow> ('k \<times> 'v list) list" where
  "or_default_entry k m = (if map_of m k = None then m @ [(k, [])] else m)"

definition modify_entry :: "'k \<Rightarrow> ('v \<Rightarrow> 'v) \<Rightarrow> ('k \<times> 'v) list \<Rightarrow> ('k \<times> 'v) list" where
  "modify_entry k f m = map (\<lambda>(k', v). (k', if k' = k then f v else v)) m"

definition plugins_of :: "'p registry \<Rightarrow> registry_name \<Rightarrow> 'p plugins" where
  "plugins_of reg r = (case map_of (rg_map reg) r of None \<Rightarrow> [] | Some ps \<Rightarrow> ps)"

definition lookup_cell :: "'p registry \<Rightarrow> registry_name \<Rightarrow> string \<Rightarrow> 'p cell option" where
  "lookup_cell reg r n = map_of (plugins_of reg r) n"

lemma map_of_or_default_entry: "map_of (or_default_entry k m) k' =
    (if k' = k \<and> map_of m k = None then Some [] else map_of m k')"
  by (auto simp: or_default_entry_def map_add_def split: option.splits)

lemma map_of_modify_entry: "map_of (modify_entry k f m) k' =
    (if k' = k then map_option f (map_of m k') else map_of m k')"
  unfolding modify_entry_def by (induction m) auto

lemma keys_modify_entry [simp]: "map fst (modify_entry k f m) = map fst m"
  unfolding modify_entry_def by (induction m) auto

lemma distinct_or_default_entry: "distinct (map fst m) \<Longrightarrow> distinct (map fst (or_default_entry k m))"
  by (auto simp: or_default_entry_def map_of_eq_None_iff)

section \<open>Registering plugins\<close>

definition already_registered :: "string \<Rightarrow> registry_name \<Rightarrow> error" where
  "already_registered name r = Other (''plugin \"'' @ name @ ''\" already registered in ''
     @ registry_name_display r @ '' registry'')"

text \<open>The entry is created before the name is looked up, so also when the name is taken.\<close>

definition register_entry :: "'p plugin \<Rightarrow> 'p \<Rightarrow> ('p registry, unit, error) act" where
  "register_entry V p reg =
     (let name = pl_name V p; r = pl_registry_name V p; m = or_default_entry r (rg_map reg) in
      if map_of (case map_of m r of None \<Rightarrow> [] | Some ps \<Rightarrow> ps) name \<noteq> None
      then (Err (already_registered name r), reg\<lparr>rg_map := m\<rparr>)
      else (Ok (), reg\<lparr>rg_map := modify_entry r
             (\<lambda>ps. ps @ [(name, \<lparr>ce_plugin = p, ce_poisoned = False\<rparr>)]) m\<rparr>))"

definition registry_lock_poisoned :: error where
  "registry_lock_poisoned = Other ''registry lock poisoned''"

definition register_plugin :: "'p plugin \<Rightarrow> 'p \<Rightarrow> ('p registry, unit, error) act" where
  "register_plugin V p reg =
     (if rg_poisoned reg then (Err registry_lock_poisoned, reg) else register_entry V p reg)"

primrec register_entries :: "'p plugin \<Rightarrow> 'p list \<Rightarrow> ('p registry, unit, error) act" where
  "register_entries V [] = ret ()"
| "register_entries V (p # ps) = seq (register_entry V p) (register_entries V ps)"

definition register_plugins :: "'p plugin \<Rightarrow> 'p list \<Rightarrow> ('p registry, unit, error) act" where
  "register_plugins V ps reg =
     (if rg_poisoned reg then (Err registry_lock_poisoned, reg) else register_entries V ps reg)"

section \<open>The routes sent to osquery\<close>

primrec gen_routes ::
  "'p plugin \<Rightarrow> 'p plugins \<Rightarrow> (string, plugin_response) btree \<Rightarrow> ((string, plugin_response) btree, error) result" where
  "gen_routes V [] routes = Ok routes"
| "gen_routes V (np # ps) routes =
     (if ce_poisoned (snd np) then Err (Other ''plugin lock poisoned'')
      else gen_routes V ps
        (if bt_contains_key routes (fst np) then routes
         else bt_insert (fst np) (pl_routes V (ce_plugin (snd np))) routes))"

primrec gen_registries ::
  "'p plugin \<Rightarrow> (registry_name \<times> 'p plugins) list \<Rightarrow> extension_registry \<Rightarrow> (extension_registry, error) result" where
  "gen_registries V [] ext = Ok ext"
| "gen_registries V (rp # rps) ext =
     (let key = registry_name_display (fst rp);
          routes = (case bt_get ext key of None \<Rightarrow> [] | Some t \<Rightarrow> t) in
      bind_result (gen_routes V (snd rp) routes) (\<lambda>routes'.
        gen_registries V rps (bt_insert key routes' ext)))"

definition gen_registry :: "'p plugin \<Rightarrow> 'p registry \<Rightarrow> (extension_registry, error) result" where
  "gen_registry V reg =
     (if rg_poisoned reg then Err registry_lock_poisoned else gen_registries V (rg_map reg) [])"

section \<open>The shutdown channel\<close>

text \<open>\<open>mpsc::sync_channel(1)\<close>: one buffered signal and whether the receiver is alive.\<close>

record channel =
  ch_buffer :: "error option option"
  ch_open :: bool

definition new_channel :: channel where
  "new_channel = \<lparr>ch_buffer = None, ch_open = True\<rparr>"

text \<open>\<open>send\<close> blocks while the buffer is full; then the caller does not return.\<close>

definition channel_send :: "error option \<Rightarrow> (channel, unit, unit) act" where
  "channel_send v ch =
     (if \<not> ch_open ch then (Err (), ch)
      else if ch_buffer ch = None then (Ok (), ch\<lparr>ch_buffer := Some v\<rparr>)
      else (Diverge, ch))"

definition channel_try_send :: "error option \<Rightarrow> (channel, unit, unit) act" where
  "channel_try_send v ch =
     (if \<not> ch_open ch \<or> ch_buffer ch \<noteq> None then (Err (), ch)
      else (Ok (), ch\<lparr>ch_buffer := Some v\<rparr>))"

definition shutdown_handle_shutdown :: "channel \<Rightarrow> channel" where
  "shutdown_handle_shutdown ch = snd (channel_try_send None ch)"

section \<open>Handling requests\<close>

record 'p handler_state =
  hs_registry :: "'p registry"
  hs_channel :: channel

fun plugin_response_to_wire :: "(plugin_response, error) result \<Rightarrow> (w_response, thrift_error) result" where
  "plugin_response_to_wire (Ok rows) = Ok (mk_response (mk_status 0 ''OK'' None) (Some rows))"
| "plugin_response_to_wire (Err (Status code message)) = Ok (mk_response (mk_status code message None) None)"
| "plugin_response_to_wire (Err e) = Ok (mk_response (mk_status 1 (show_error e) None) None)"
| "plugin_response_to_wire (Panic p) = Panic p"
| "plugin_response_to_wire Diverge = Diverge"

definition failure_response :: "string \<Rightarrow> w_response" where
  "failure_response message = mk_response (mk_status 1 message None) None"

definition ext_handle_ping :: "('p handler_state, w_status) tact" where
  "ext_handle_ping = ret (mk_status 0 ''OK'' None)"

definition set_cell :: "registry_name \<Rightarrow> string \<Rightarrow> 'p cell \<Rightarrow> 'p registry \<Rightarrow> 'p registry" where
  "set_cell r n c reg = reg\<lparr>rg_map := modify_entry r (modify_entry n (\<lambda>_. c)) (rg_map reg)\<rparr>"

text \<open>\<open>plugin.lock()\<close> and the call under it; a panic of the plugin poisons its lock.\<close>

definition call_locked ::
  "'p plugin \<Rightarrow> plugin_request \<Rightarrow> 'p cell \<Rightarrow> (w_response, thrift_error) result \<times> 'p cell" where
  "call_locked V request c =
     (if ce_poisoned c then (Err (thrift_error_from_str ''plugin lock poisoned''), c)
      else (case pl_call V request (ce_plugin c) of (r, p) \<Rightarrow>
        (plugin_response_to_wire r,
         \<lparr>ce_plugin = p, ce_poisoned = (case r of Panic _ \<Rightarrow> True | _ \<Rightarrow> False)\<rparr>)))"

definition ext_handle_call ::
  "'p plugin \<Rightarrow> string \<Rightarrow> string \<Rightarrow> plugin_request \<Rightarrow> ('p handler_state, w_response) tact" where
  "ext_handle_call V registry item request hs =
     (case registry_name_from_str registry of
        Err msg \<Rightarrow> (Ok (failure_response msg), hs)
      | Panic p \<Rightarrow> (Panic p, hs)
      | Diverge \<Rightarrow> (Diverge, hs)
      | Ok r \<Rightarrow>
          if rg_poisoned (hs_registry hs) then (Err (thrift_error_from_str ''registry lock poisoned''), hs)
          else (case map_of (rg_map (hs_registry hs)) r of
              None \<Rightarrow> (Ok (failure_response (''Unknown registry: '' @ registry)), hs)
            | Some subreg \<Rightarrow> (case map_of subreg item of
                  None \<Rightarrow> (Ok (failure_response (''Unknown registry item: '' @ item)), hs)
                | Some c \<Rightarrow> (case call_locked V request c of (resp, c') \<Rightarrow>
                    (resp, hs\<lparr>hs_registry := set_cell r item c' (hs_registry hs)\<rparr>)))))"

definition ext_handle_shutdown :: "('p handler_state, unit) tact" where
  "ext_handle_shutdown hs =
     (case channel_send None (hs_channel hs) of (r, ch) \<Rightarrow>
        (map_err (\<lambda>_. thrift_error_from_str ''could not send shutdown signal'') r,
         hs\<lparr>hs_channel := ch\<rparr>))"

definition extension_handler :: "'p plugin \<Rightarrow> 'p handler_state ext_handler" where
  "extension_handler V =
     \<lparr>handle_ping = ext_handle_ping, handle_call = ext_handle_call V, handle_shutdown = ext_handle_shutdown\<rparr>"

section \<open>Registration\<close>

text \<open>No registry and no name occurs twice, as in the hash maps.\<close>

definition registry_ok :: "'p registry \<Rightarrow> bool" where
  "registry_ok reg = (distinct (map fst (rg_map reg))
     \<and> (\<forall>(r, ps) \<in> set (rg_map reg). distinct (map fst ps)))"

lemma registry_ok_new [simp]: "registry_ok new_registry"
  by (simp add: registry_ok_def new_registry_def)

lemma registry_ok_plugins: "registry_ok reg \<Longrightarrow> map_of (rg_map reg) r = Some ps \<Longrightarrow> distinct (map fst ps)"
  by (auto simp: registry_ok_def dest: map_of_SomeD)

lemma plugins_of_or_default:
  "(case map_of (or_default_entry r (rg_map reg)) r of None \<Rightarrow> [] | Some ps \<Rightarrow> ps) = plugins_of reg r"
  by (auto simp: plugins_of_def map_of_or_default_entry split: option.split)

lemma lookup_cell_or_default [simp]:
  "lookup_cell (reg\<lparr>rg_map := or_default_entry r (rg_map reg)\<rparr>) r' n = lookup_cell reg r' n"
  by (auto simp: lookup_cell_def plugins_of_def map_of_or_default_entry split: option.split)

lemma register_entry_taken:
  "lookup_cell reg (pl_registry_name V p) (pl_name V p) \<noteq> None \<Longrightarrow>
   register_entry V p reg = (Err (already_registered (pl_name V p) (pl_registry_name V p)),
     reg\<lparr>rg_map := or_default_entry (pl_registry_name V p) (rg_map reg)\<rparr>)"
  by (simp add: register_entry_def Let_def plugins_of_or_default lookup_cell_def del: map_of_eq_None_iff)

definition with_entry :: "'p plugin \<Rightarrow> 'p \<Rightarrow> 'p registry \<Rightarrow> 'p registry" where
  "with_entry V p reg = reg\<lparr>rg_map := modify_entry (pl_registry_name V p)
     (\<lambda>ps. ps @ [(pl_name V p, \<lparr>ce_plugin = p, ce_poisoned = False\<rparr>)])
     (or_default_entry (pl_registry_name V p) (rg_map reg))\<rparr>"

lemma register_entry_free:
  "lookup_cell reg (pl_registry_name V p) (pl_name V p) = None \<Longrightarrow>
   register_entry V p reg = (Ok (), with_entry V p reg)"
  by (simp add: register_entry_def Let_def plugins_of_or_default lookup_cell_def with_entry_def
    del: map_of_eq_None_iff)

lemma rg_poisoned_with_entry [simp]: "rg_poisoned (with_entry V p reg) = rg_poisoned reg"
  by (simp add: with_entry_def)

lemma lookup_cell_with_entry:
  assumes "lookup_cell reg (pl_registry_name V p) (pl_name V p) = None"
  shows "lookup_cell (with_entry V p reg) r n =
      (if r = pl_registry_name V p \<and> n = pl_name V p then Some \<lparr>ce_plugin = p, ce_poisoned = False\<rparr>
       else lookup_cell reg r n)"
  using assms
  by (auto simp: with_entry_def lookup_cell_def plugins_of_def map_of_modify_entry
    map_of_or_default_entry map_add_def split: option.splits)

lemma registry_ok_modify:
  assumes "registry_ok reg" and "\<And>ps. map_of (rg_map reg) r = Some ps \<Longrightarrow> distinct (map fst (f ps))"
    and "rg_map reg' = modify_entry r f (rg_map reg)"
  shows "registry_ok reg'"
  using assms unfolding registry_ok_def modify_entry_def
  by (fastforce simp: comp_def case_prod_beta map_of_is_SomeI)

lemma registry_ok_or_default:
  "registry_ok reg \<Longrightarrow> registry_ok (reg\<lparr>rg_map := or_default_entry r (rg_map reg)\<rparr>)"
  by (auto simp: registry_ok_def or_default_entry_def map_of_eq_None_iff)

lemma registry_ok_register_entry:
  assumes "registry_ok reg" and "register_entry V p reg = (r, reg')"
  shows "registry_ok reg'"
proof (cases "lookup_cell reg (pl_registry_name V p) (pl_name V p)")
  case None
  let ?reg = "reg\<lparr>rg_map := or_default_entry (pl_registry_name V p) (rg_map reg)\<rparr>"
  have ok: "registry_ok ?reg"
    using assms(1) by (rule registry_ok_or_default)
  have "map_of ps (pl_name V p) = None"
    if "map_of (rg_map ?reg) (pl_registry_name V p) = Some ps" for ps
    using None that by (auto simp: lookup_cell_def plugins_of_def map_of_or_default_entry split: option.splits if_splits)
  then have "registry_ok (with_entry V p reg)"
    using registry_ok_plugins [OF ok]
    by (intro registry_ok_modify [OF ok, where r = "pl_registry_name V p"
          and f = "\<lambda>ps. ps @ [(pl_name V p, \<lparr>ce_plugin = p, ce_poisoned = False\<rparr>)]"])
      (auto simp: with_entry_def map_of_eq_None_iff)
  then show ?thesis
    using assms(2) register_entry_free [OF None] by simp
next
  case (Some c)
  then show ?thesis
    using assms register_entry_taken [of reg V p] by (auto intro: registry_ok_or_default)
qed

lemma registry_ok_register_entries:
  "registry_ok reg \<Longrightarrow> register_entries V ps reg = (r, reg') \<Longrightarrow> registry_ok reg'"
proof (induction ps arbitrary: reg)
  case (Cons p ps)
  obtain r1 reg1 where 1: "register_entry V p reg = (r1, reg1)"
    by (cases "register_entry V p reg")
  with Cons show ?case
    using registry_ok_register_entry [OF Cons.prems(1) 1]
    by (cases r1) (auto simp: seq_def bnd_def)
qed (simp add: ret_def)

text \<open>
  Registering several plugins adds them in order up to the first whose name is taken; the
  ones before it stay.
\<close>

lemma register_entries_append:
  "register_entries V (ps @ qs) = seq (register_entries V ps) (register_entries V qs)"
  by (induction ps) (simp_all add: seq_def bnd_assoc bnd_ret_left)

lemma register_entries_Ok:
  assumes "distinct (map (\<lambda>p. (pl_registry_name V p, pl_name V p)) ps)"
    and "\<forall>p \<in> set ps. lookup_cell reg (pl_registry_name V p) (pl_name V p) = None"
  shows "register_entries V ps reg = (Ok (), fold (with_entry V) ps reg)"
  using assms
proof (induction ps arbitrary: reg)
  case (Cons p ps)
  have "(pl_registry_name V q, pl_name V q) \<noteq> (pl_registry_name V p, pl_name V p)" if "q \<in> set ps" for q
    using Cons.prems(1) that by (auto simp: rev_image_eqI)
  then have "register_entries V ps (with_entry V p reg) = (Ok (), fold (with_entry V) ps (with_entry V p reg))"
    using Cons.prems by (intro Cons.IH) (auto simp: lookup_cell_with_entry)
  then show ?case
    using Cons.prems by (simp add: register_entry_free seq_def bnd_def)
qed (simp add: ret_def)

section \<open>The broadcast registry\<close>

lemma gen_routes_get:
  "gen_routes V ps routes = Ok routes' \<Longrightarrow> distinct (map fst ps) \<Longrightarrow>
   bt_get routes' n = (case bt_get routes n of
       Some x \<Rightarrow> Some x
     | None \<Rightarrow> map_option (\<lambda>c. pl_routes V (ce_plugin c)) (map_of ps n))"
proof (induction ps arbitrary: routes)
  case (Cons np ps)
  then have IH: "bt_get routes' n = (case bt_get (if bt_contains_key routes (fst np) then routes
         else bt_insert (fst np) (pl_routes V (ce_plugin (snd np))) routes) n of
       Some x \<Rightarrow> Some x
     | None \<Rightarrow> map_option (\<lambda>c. pl_routes V (ce_plugin c)) (map_of ps n))"
    by (intro Cons.IH) (auto split: if_splits)
  have "fst np \<notin> fst ` set ps"
    using Cons.prems(2) by auto
  then have "map_of ps (fst np) = None"
    by (simp add: map_of_eq_None_iff)
  then show ?case
    unfolding IH by (auto simp: bt_contains_key_def split: option.splits)
qed (auto split: option.split)

lemma gen_routes_wf: "gen_routes V ps routes = Ok routes' \<Longrightarrow> bt_wf routes \<Longrightarrow> bt_wf routes'"
  by (induction ps arbitrary: routes) (auto split: if_splits)

lemma gen_routes_result:
  "\<exists>routes'. gen_routes V ps routes
     = (if \<exists>np \<in> set ps. ce_poisoned (snd np) then Err (Other ''plugin lock poisoned'') else Ok routes')"
  by (induction ps arbitrary: routes) auto

lemma gen_registries_get:
  "gen_registries V rps ext = Ok ext' \<Longrightarrow> distinct (map fst rps) \<Longrightarrow>
   \<forall>r \<in> fst ` set rps. bt_get ext (registry_name_display r) = None \<Longrightarrow>
   (case map_of rps r of
      None \<Rightarrow> bt_get ext' (registry_name_display r) = bt_get ext (registry_name_display r)
    | Some ps \<Rightarrow> \<exists>t. bt_get ext' (registry_name_display r) = Some t \<and> gen_routes V ps [] = Ok t)"
proof (induction rps arbitrary: ext)
  case (Cons rp rps)
  obtain r1 ps1 where rp: "rp = (r1, ps1)"
    by (cases rp)
  obtain t where t: "gen_routes V ps1 [] = Ok t"
    and g: "gen_registries V rps (bt_insert (registry_name_display r1) t ext) = Ok ext'"
    using Cons.prems(1,3) rp by (auto simp: Let_def bind_result_Ok_iff)
  have r1: "r1 \<notin> fst ` set rps"
    using Cons.prems(2) rp by auto
  have "case map_of rps r of
      None \<Rightarrow> bt_get ext' (registry_name_display r) = bt_get (bt_insert (registry_name_display r1) t ext) (registry_name_display r)
    | Some ps \<Rightarrow> \<exists>t. bt_get ext' (registry_name_display r) = Some t \<and> gen_routes V ps [] = Ok t"
    using Cons.prems r1 rp by (intro Cons.IH [OF g]) (auto simp: rev_image_eqI)
  then show ?case
    using r1 t rp by (auto simp: map_of_eq_None_iff [symmetric] split: option.splits if_splits)
qed simp

lemma gen_registries_wf: "gen_registries V rps ext = Ok ext' \<Longrightarrow> bt_wf ext \<Longrightarrow> bt_wf ext'"
  by (induction rps arbitrary: ext) (auto simp: Let_def bind_result_Ok_iff)

lemma gen_registries_keys:
  "gen_registries V rps ext = Ok ext' \<Longrightarrow> bt_get ext' k \<noteq> None \<Longrightarrow>
   bt_get ext k \<noteq> None \<or> k \<in> range registry_name_display"
  by (induction rps arbitrary: ext) (fastforce simp: Let_def bind_result_Ok_iff split: if_splits)+

text \<open>The routes of a registered plugin, wherever it sits in the hash maps.\<close>

definition broadcast_routes :: "extension_registry \<Rightarrow> string \<Rightarrow> string \<Rightarrow> plugin_response option" where
  "broadcast_routes ext key n = (case bt_get ext key of None \<Rightarrow> None | Some t \<Rightarrow> bt_get t n)"

lemma gen_registry_routes:
  assumes "registry_ok reg" and "gen_registry V reg = Ok ext"
  shows "broadcast_routes ext (registry_name_display r) n
    = map_option (\<lambda>c. pl_routes V (ce_plugin c)) (lookup_cell reg r n)"
proof -
  have g: "gen_registries V (rg_map reg) [] = Ok ext"
    using assms(2) by (simp add: gen_registry_def split: if_splits)
  have "case map_of (rg_map reg) r of
      None \<Rightarrow> bt_get ext (registry_name_display r) = bt_get [] (registry_name_display r)
    | Some ps \<Rightarrow> \<exists>t. bt_get ext (registry_name_display r) = Some t \<and> gen_routes V ps [] = Ok t"
    using assms(1) by (intro gen_registries_get [OF g]) (auto simp: registry_ok_def)
  then show ?thesis
    using registry_ok_plugins [OF assms(1)]
    by (auto simp: broadcast_routes_def lookup_cell_def plugins_of_def gen_routes_get split: option.splits)
qed

section \<open>Dispatch\<close>

lemma lookup_cell_set_cell:
  "lookup_cell (set_cell r n c reg) r' n' =
     (if r' = r \<and> n' = n \<and> lookup_cell reg r n \<noteq> None then Some c else lookup_cell reg r' n')"
  by (auto simp: lookup_cell_def plugins_of_def set_cell_def map_of_modify_entry split: option.splits)

lemma modify_entry_same:
  "distinct (map fst m) \<Longrightarrow> map_of m k = Some v \<Longrightarrow> f v = v \<Longrightarrow> modify_entry k f m = m"
  unfolding modify_entry_def by (rule map_idI) (auto simp del: map_of_eq_Some_iff dest: map_of_is_SomeI)

lemma set_cell_same:
  assumes "registry_ok reg" and "lookup_cell reg r n = Some c"
  shows "set_cell r n c reg = reg"
proof -
  obtain ps where ps: "map_of (rg_map reg) r = Some ps" "map_of ps n = Some c"
    using assms(2) by (auto simp: lookup_cell_def plugins_of_def split: option.splits)
  have "modify_entry n (\<lambda>_. c) ps = ps"
    using registry_ok_plugins [OF assms(1) ps(1)] ps(2) by (rule modify_entry_same) simp
  then have "modify_entry r (modify_entry n (\<lambda>_. c)) (rg_map reg) = rg_map reg"
    using assms(1) ps(1) by (intro modify_entry_same [where v = ps]) (auto simp: registry_ok_def)
  then show ?thesis
    by (simp add: set_cell_def)
qed

lemma registry_ok_set_cell: "registry_ok reg \<Longrightarrow> registry_ok (set_cell r n c reg)"
  by (rule registry_ok_modify [where f = "modify_entry n (\<lambda>_. c)"])
    (auto simp: set_cell_def dest: registry_ok_plugins)

lemma lookup_cell_Some:
  "lookup_cell reg r n = Some c \<longleftrightarrow> (\<exists>ps. map_of (rg_map reg) r = Some ps \<and> map_of ps n = Some c)"
  by (auto simp: lookup_cell_def plugins_of_def split: option.split)

lemma ext_handle_call_found:
  assumes "\<not> rg_poisoned (hs_registry hs)" and "lookup_cell (hs_registry hs) r item = Some c"
  shows "ext_handle_call V (registry_name_display r) item request hs =
    (case call_locked V request c of (resp, c') \<Rightarrow>
      (resp, hs\<lparr>hs_registry := set_cell r item c' (hs_registry hs)\<rparr>))"
  using assms
  by (auto simp: ext_handle_call_def registry_name_round_trip lookup_cell_Some split: prod.split)

lemma ext_handle_call_missing:
  assumes "\<not> rg_poisoned (hs_registry hs)" and "lookup_cell (hs_registry hs) r item = None"
  shows "\<exists>msg. ext_handle_call V (registry_name_display r) item request hs = (Ok (failure_response msg), hs)"
  using assms
  by (auto simp: ext_handle_call_def registry_name_round_trip lookup_cell_def plugins_of_def
    split: option.splits)

lemma ext_handle_call_unknown_registry:
  "registry \<notin> range registry_name_display \<Longrightarrow>
   ext_handle_call V registry item request hs = (Ok (failure_response (''Unknown registry: '' @ registry)), hs)"
proof -
  assume a: "registry \<notin> range registry_name_display"
  have "registry \<noteq> registry_name_display r" for r
    using a by blast
  from this [of RTable] this [of RLogger] this [of RConfig] this [of RDistributed]
  show ?thesis
    by (simp add: ext_handle_call_def registry_name_from_str_def)
qed

text \<open>What the caller of a plugin sees, on either side of the wire.\<close>

fun reported :: "(plugin_response, error) result \<Rightarrow> (plugin_response, error) result" where
  "reported (Ok rows) = Ok rows"
| "reported (Err (Status code message)) = (if code = 0 then Ok [] else Err (Status code message))"
| "reported (Err e) = Err (Status 1 (show_error e))"
| "reported (Panic p) = Panic p"
| "reported Diverge = Diverge"

lemma response_rows_to_wire:
  "plugin_response_to_wire r = Ok w \<Longrightarrow> response_rows w = reported r \<and> response_rows (norm_response w) = reported r"
  by (cases r rule: plugin_response_to_wire.cases)
    (auto simp: response_rows_def mk_response_def mk_status_def norm_response_def norm_status_def or_default_def)

lemma plugin_response_to_wire_Ok:
  "plugin_response_to_wire r = Ok w \<Longrightarrow> (\<exists>rows. r = Ok rows) \<or> (\<exists>e. r = Err e)"
  by (cases r) auto

section \<open>Properties\<close>

text \<open>A table plugin for the witnesses: its state is its name, and it answers with one row.\<close>

definition echo_plugin :: "string plugin" where
  "echo_plugin = \<lparr>pl_name = \<lambda>p. p, pl_registry_name = \<lambda>_. RTable, pl_routes = \<lambda>p. [[(''id'', p)]],
     pl_ping = \<lambda>_. Ok (), pl_call = \<lambda>req p. (Ok [req], p), pl_shutdown = ret ()\<rparr>"

interpretation echo: returning_shutdown echo_plugin
  by unfold_locales (simp add: echo_plugin_def ret_def)

definition echo_registry :: "string registry" where
  "echo_registry = snd (register_plugins echo_plugin [''a'', ''b''] new_registry)"

lemma echo_registry_eq:
  "echo_registry = \<lparr>rg_map = [(RTable, [(''a'', \<lparr>ce_plugin = ''a'', ce_poisoned = False\<rparr>),
     (''b'', \<lparr>ce_plugin = ''b'', ce_poisoned = False\<rparr>)])], rg_poisoned = False\<rparr>"
  by (simp add: Let_def echo_registry_def register_plugins_def register_entry_def echo_plugin_def new_registry_def
    seq_def bnd_def ret_def or_default_entry_def modify_entry_def)

text \<open>
  C33: a plugin is registered under its registry and name, once. If the name is free there,
  registering it succeeds, makes it the plugin found under that name and leaves every other
  entry; if the name is taken, it fails and every entry stays. The hash maps keep their
  keys distinct.
\<close>

theorem register_plugin_adds_once:
  assumes "\<not> rg_poisoned reg" and "registry_ok reg" and "register_plugin V p reg = (r, reg')"
  shows "registry_ok reg' \<and>
    (if lookup_cell reg (pl_registry_name V p) (pl_name V p) = None
     then r = Ok () \<and> (\<forall>rn n. lookup_cell reg' rn n =
        (if rn = pl_registry_name V p \<and> n = pl_name V p then Some \<lparr>ce_plugin = p, ce_poisoned = False\<rparr>
         else lookup_cell reg rn n))
     else r = Err (already_registered (pl_name V p) (pl_registry_name V p))
       \<and> (\<forall>rn n. lookup_cell reg' rn n = lookup_cell reg rn n))"
proof -
  have e: "register_entry V p reg = (r, reg')"
    using assms(1,3) by (simp add: register_plugin_def)
  have "registry_ok reg'"
    by (rule registry_ok_register_entry [OF assms(2) e])
  then show ?thesis
    using e register_entry_free [of reg V p] register_entry_taken [of reg V p] lookup_cell_with_entry [of reg V p]
    by (auto split: if_splits)
qed

theorem register_plugin_adds_once_witness:
  "lookup_cell (snd (register_plugin echo_plugin ''c'' echo_registry)) RTable ''a''
    = Some \<lparr>ce_plugin = ''a'', ce_poisoned = False\<rparr>"
  using register_plugin_adds_once [of echo_registry echo_plugin "''c''" "fst (register_plugin echo_plugin ''c'' echo_registry)"
      "snd (register_plugin echo_plugin ''c'' echo_registry)"]
  by (simp add: echo_registry_eq registry_ok_def lookup_cell_def plugins_of_def echo_plugin_def)

text \<open>
  Registering several plugins is not all or nothing. When a plugin of the list has a
  name that is taken, also by one before it in the list, the call fails with that name, and
  the plugins before it stay registered.
\<close>

lemma register_plugins_keeps_prefix:
  assumes "\<not> rg_poisoned reg"
    and "distinct (map (\<lambda>p. (pl_registry_name V p, pl_name V p)) ps)"
    and "\<forall>p \<in> set ps. lookup_cell reg (pl_registry_name V p) (pl_name V p) = None"
    and "lookup_cell (fold (with_entry V) ps reg) (pl_registry_name V q) (pl_name V q) \<noteq> None"
  shows "fst (register_plugins V (ps @ q # qs) reg) = Err (already_registered (pl_name V q) (pl_registry_name V q))
    \<and> (\<forall>r n. lookup_cell (snd (register_plugins V (ps @ q # qs) reg)) r n
        = lookup_cell (fold (with_entry V) ps reg) r n)"
  using assms register_entries_Ok [OF assms(2,3)] register_entry_taken [OF assms(4)]
  by (simp add: register_plugins_def register_entries_append seq_def bnd_def)

text \<open>
  C17: the registry broadcast to osquery holds exactly the registered plugins: under every
  registry's name and every plugin name it has the routes of the plugin registered there,
  and nothing else, whatever the order of the hash maps.
\<close>

theorem broadcast_is_registered:
  assumes "registry_ok reg" and "gen_registry V reg = Ok ext"
  shows "bt_wf ext \<and> (\<forall>r n. broadcast_routes ext (registry_name_display r) n
      = map_option (\<lambda>c. pl_routes V (ce_plugin c)) (lookup_cell reg r n))
    \<and> (\<forall>key. key \<notin> range registry_name_display \<longrightarrow> bt_get ext key = None)"
proof -
  have g: "gen_registries V (rg_map reg) [] = Ok ext"
    using assms(2) by (simp add: gen_registry_def split: if_splits)
  show ?thesis
    using gen_registry_routes [OF assms] gen_registries_wf [OF g] gen_registries_keys [OF g]
    by (metis bt_get_Nil bt_wf_Nil)
qed

theorem broadcast_is_registered_witness:
  "broadcast_routes [(''table'', [(''a'', [[(''id'', ''a'')]]), (''b'', [[(''id'', ''b'')]])])] (registry_name_display RTable) ''b''
    = Some [[(''id'', ''b'')]]"
proof -
  have "gen_registry echo_plugin echo_registry
      = Ok [(''table'', [(''a'', [[(''id'', ''a'')]]), (''b'', [[(''id'', ''b'')]])])]"
    by (simp add: gen_registry_def echo_registry_eq echo_plugin_def bt_contains_key_def Let_def bt_get_Cons)
  moreover have "registry_ok echo_registry"
    by (simp add: registry_ok_def echo_registry_eq)
  ultimately have "broadcast_routes [(''table'', [(''a'', [[(''id'', ''a'')]]), (''b'', [[(''id'', ''b'')]])])]
        (registry_name_display RTable) ''b''
      = map_option (\<lambda>c. pl_routes echo_plugin (ce_plugin c)) (lookup_cell echo_registry RTable ''b'')"
    using broadcast_is_registered by blast
  then show ?thesis
    by (simp add: echo_registry_eq lookup_cell_def plugins_of_def echo_plugin_def)
qed

text \<open>
  C12: a call reaches the plugin it names and no other. With the registry and the plugin's
  lock intact, the request runs that plugin's \<open>call\<close> on its state, the reply is the wire
  form of its result, the plugin's new state is kept, and no other plugin changes.
\<close>

theorem call_is_dispatched:
  assumes "\<not> rg_poisoned (hs_registry hs)" and "lookup_cell (hs_registry hs) r item = Some c"
    and "\<not> ce_poisoned c" and "pl_call V request (ce_plugin c) = (res, p')"
    and "ext_handle_call V (registry_name_display r) item request hs = (reply, hs')"
  shows "reply = plugin_response_to_wire res \<and> hs_channel hs' = hs_channel hs
    \<and> map_option ce_plugin (lookup_cell (hs_registry hs') r item) = Some p'
    \<and> (\<forall>r' n. (r', n) \<noteq> (r, item) \<longrightarrow> lookup_cell (hs_registry hs') r' n = lookup_cell (hs_registry hs) r' n)"
  using assms(2-5) ext_handle_call_found [OF assms(1,2), of V request]
  by (auto simp: call_locked_def lookup_cell_set_cell)

theorem call_is_dispatched_witness:
  "fst (ext_handle_call echo_plugin ''table'' ''b'' [(''action'', ''generate'')]
      \<lparr>hs_registry = echo_registry, hs_channel = new_channel\<rparr>)
    = Ok (mk_response (mk_status 0 ''OK'' None) (Some [[(''action'', ''generate'')]]))"
  using call_is_dispatched [of "\<lparr>hs_registry = echo_registry, hs_channel = new_channel\<rparr>" RTable "''b''"
      "\<lparr>ce_plugin = ''b'', ce_poisoned = False\<rparr>" echo_plugin "[(''action'', ''generate'')]"
      "Ok [[(''action'', ''generate'')]]" "''b''"]
  by (cases "ext_handle_call echo_plugin ''table'' ''b'' [(''action'', ''generate'')]
      \<lparr>hs_registry = echo_registry, hs_channel = new_channel\<rparr>")
    (simp add: echo_registry_eq lookup_cell_def plugins_of_def echo_plugin_def)

text \<open>
  C18: a plugin that panics takes only itself down. The panic poisons its lock, every later
  call of it is refused with an application error without running it, and every other
  plugin is as it was.
\<close>

theorem panic_poisons_one_plugin:
  assumes "\<not> rg_poisoned (hs_registry hs)" and "lookup_cell (hs_registry hs) r item = Some c"
    and "\<not> ce_poisoned c" and "pl_call V request (ce_plugin c) = (Panic text, p')"
    and "ext_handle_call V (registry_name_display r) item request hs = (reply, hs')"
  shows "reply = Panic text
    \<and> ext_handle_call V (registry_name_display r) item request' hs'
        = (Err (thrift_error_from_str ''plugin lock poisoned''), hs'
            \<lparr>hs_registry := set_cell r item \<lparr>ce_plugin = p', ce_poisoned = True\<rparr> (hs_registry hs')\<rparr>)
    \<and> (\<forall>r' n. (r', n) \<noteq> (r, item) \<longrightarrow> lookup_cell (hs_registry hs') r' n = lookup_cell (hs_registry hs) r' n)"
proof -
  have hs': "reply = Panic text" "hs' = hs\<lparr>hs_registry := set_cell r item \<lparr>ce_plugin = p', ce_poisoned = True\<rparr> (hs_registry hs)\<rparr>"
    using assms(3-5) ext_handle_call_found [OF assms(1,2), of V request] by (simp_all add: call_locked_def)
  have "\<not> rg_poisoned (hs_registry hs')"
    "lookup_cell (hs_registry hs') r item = Some \<lparr>ce_plugin = p', ce_poisoned = True\<rparr>"
    using assms(1,2) by (simp_all add: hs' lookup_cell_set_cell) (simp add: set_cell_def)
  from ext_handle_call_found [OF this, of V request'] show ?thesis
    using hs' by (simp add: call_locked_def lookup_cell_set_cell)
qed

theorem panic_poisons_one_plugin_witness:
  "fst (ext_handle_call (echo_plugin\<lparr>pl_call := \<lambda>_ p. (Panic ''boom'', p)\<rparr>) ''table'' ''b'' []
      \<lparr>hs_registry = echo_registry, hs_channel = new_channel\<rparr>) = Panic ''boom''"
  using panic_poisons_one_plugin [of "\<lparr>hs_registry = echo_registry, hs_channel = new_channel\<rparr>" RTable "''b''"
      "\<lparr>ce_plugin = ''b'', ce_poisoned = False\<rparr>" "echo_plugin\<lparr>pl_call := \<lambda>_ p. (Panic ''boom'', p)\<rparr>" "[]" "''boom''" "''b''"]
  by (cases "ext_handle_call (echo_plugin\<lparr>pl_call := \<lambda>_ p. (Panic ''boom'', p)\<rparr>) ''table'' ''b'' []
      \<lparr>hs_registry = echo_registry, hs_channel = new_channel\<rparr>")
    (simp add: echo_registry_eq lookup_cell_def plugins_of_def)

end
