(* ===== verification/Listener.thy ===== *)
theory Listener
  imports Errors
begin

text \<open>
  \<open>src/src/server/threaded.rs\<close>: the accept loop with its connection permits, as a step
  relation over the listener and the tasks it has spawned. What one task does with its
  connection is in the theory on serving a connection. \<open>listen_pipe\<close> differs from
  \<open>listen_uds\<close> in the calls to the system only: creating the next pipe instance may fail
  after a client has connected, which drops the permit as a failed accept does.
\<close>

section \<open>The accept loop\<close>

definition MAX_CONCURRENT_CONNECTIONS :: nat where
  "MAX_CONCURRENT_CONNECTIONS = 128"

text \<open>
  The loop binds its socket, waits for a permit, then for a connection, and at either
  point for the stop signal. A task takes the permit with it, counts itself in
  \<open>active_connections\<close>, serves, and returns the permit when it ends, also when it unwinds
  or is aborted; then it does not reach \<open>fetch_sub\<close>. \<open>l_lost\<close> is a ghost count of those.
\<close>

datatype listen_phase = Binding | AwaitPermit | AwaitAccept | Stopped "(unit, io_error) result"

record listener =
  l_phase :: listen_phase
  l_permits :: nat
  l_spawned :: nat
  l_serving :: nat
  l_active :: nat
  l_stop :: bool
  l_lost :: nat

definition with_connection_limit :: "nat \<Rightarrow> listener" where
  "with_connection_limit limit =
     \<lparr>l_phase = Binding, l_permits = limit, l_spawned = 0, l_serving = 0, l_active = 0,
      l_stop = False, l_lost = 0\<rparr>"

definition new_extension_server :: listener where
  "new_extension_server = with_connection_limit MAX_CONCURRENT_CONNECTIONS"

text \<open>\<open>StopHandle::stop\<close>; a send without receivers is ignored.\<close>

definition stop_handle_stop :: "listener \<Rightarrow> listener" where
  "stop_handle_stop l = l\<lparr>l_stop := True\<rparr>"

text \<open>
  What becomes of an accepted connection, or of a failure, in \<open>listen_uds\<close> and in
  \<open>listen_pipe\<close>, where \<open>next\<close> is the outcome of creating the following pipe instance.
\<close>

definition handle_accepted :: "listener \<Rightarrow> listener" where
  "handle_accepted l = l\<lparr>l_phase := AwaitPermit, l_spawned := l_spawned l + 1\<rparr>"

definition accept_failed :: "io_error \<Rightarrow> listener \<Rightarrow> listener" where
  "accept_failed e l = l\<lparr>l_phase := Stopped (Err e), l_permits := l_permits l + 1\<rparr>"

fun uds_accept :: "(unit, io_error) result \<Rightarrow> listener \<Rightarrow> listener" where
  "uds_accept (Ok u) l = handle_accepted l"
| "uds_accept (Err e) l = accept_failed e l"
| "uds_accept r l = l"

fun pipe_accept :: "(unit, io_error) result \<Rightarrow> (unit, io_error) result \<Rightarrow> listener \<Rightarrow> listener" where
  "pipe_accept (Ok u) next l = uds_accept next l"
| "pipe_accept (Err e) next l = accept_failed e l"
| "pipe_accept r next l = l"

text \<open>
  \<open>abort\<close> is the drop of the server after its loop: the runtime goes, and with it the
  tasks that are left.
\<close>

inductive listen_step :: "listener \<Rightarrow> listener \<Rightarrow> bool" where
  bind: "l_phase l = Binding \<Longrightarrow> listen_step l (l\<lparr>l_phase := AwaitPermit\<rparr>)"
| bind_error: "l_phase l = Binding \<Longrightarrow> listen_step l (l\<lparr>l_phase := Stopped (Err e)\<rparr>)"
| acquire: "l_phase l = AwaitPermit \<Longrightarrow> 0 < l_permits l \<Longrightarrow>
    listen_step l (l\<lparr>l_phase := AwaitAccept, l_permits := l_permits l - 1\<rparr>)"
| stop_waiting: "l_phase l = AwaitPermit \<Longrightarrow> l_stop l \<Longrightarrow> listen_step l (l\<lparr>l_phase := Stopped (Ok ())\<rparr>)"
| accept: "l_phase l = AwaitAccept \<Longrightarrow>
    listen_step l (handle_accepted l)"
| accept_error: "l_phase l = AwaitAccept \<Longrightarrow>
    listen_step l (accept_failed e l)"
| stop_accepting: "l_phase l = AwaitAccept \<Longrightarrow> l_stop l \<Longrightarrow>
    listen_step l (l\<lparr>l_phase := Stopped (Ok ()), l_permits := l_permits l + 1\<rparr>)"
| begin_serving: "0 < l_spawned l \<Longrightarrow>
    listen_step l (l\<lparr>l_spawned := l_spawned l - 1, l_serving := l_serving l + 1, l_active := l_active l + 1\<rparr>)"
| end_serving: "0 < l_serving l \<Longrightarrow>
    listen_step l (l\<lparr>l_serving := l_serving l - 1, l_active := l_active l - 1, l_permits := l_permits l + 1\<rparr>)"
| unwind: "0 < l_serving l \<Longrightarrow>
    listen_step l (l\<lparr>l_serving := l_serving l - 1, l_permits := l_permits l + 1, l_lost := l_lost l + 1\<rparr>)"
| abort: "l_phase l = Stopped r \<Longrightarrow>
    listen_step l (l\<lparr>l_spawned := 0, l_serving := 0, l_permits := l_permits l + l_spawned l + l_serving l,
      l_lost := l_lost l + l_serving l\<rparr>)"
| stop: "listen_step l (stop_handle_stop l)"

inductive_cases listen_stepE [elim!]: "listen_step l l'"

text \<open>The states a listener with so many permits can reach.\<close>

inductive listening :: "nat \<Rightarrow> listener \<Rightarrow> bool" for limit where
  start: "listening limit (with_connection_limit limit)"
| step: "listening limit l \<Longrightarrow> listen_step l l' \<Longrightarrow> listening limit l'"

lemma accept_steps:
  assumes "l_phase l = AwaitAccept"
  shows "is_ok r \<or> is_err r \<Longrightarrow> listen_step l (uds_accept r l)"
    "is_ok r \<or> is_err r \<Longrightarrow> is_ok r' \<or> is_err r' \<Longrightarrow> listen_step l (pipe_accept r r' l)"
  using listen_step.accept [OF assms] listen_step.accept_error [OF assms]
  by (cases r; cases r'; simp)+

section \<open>Invariants\<close>

definition listen_inv :: "nat \<Rightarrow> listener \<Rightarrow> bool" where
  "listen_inv limit l =
     (l_permits l + l_spawned l + l_serving l + (if l_phase l = AwaitAccept then 1 else 0) = limit
      \<and> l_active l = l_serving l + l_lost l)"

lemma listening_inv: "listening limit l \<Longrightarrow> listen_inv limit l"
  by (induction rule: listening.induct)
    (auto simp: listen_inv_def with_connection_limit_def stop_handle_stop_def handle_accepted_def accept_failed_def split: if_splits)

lemma listening_bounded:
  assumes "listening limit l"
  shows "l_spawned l + l_serving l \<le> limit" "l_serving l \<le> l_active l"
  using listening_inv [OF assms] by (auto simp: listen_inv_def split: if_splits)

lemma listen_step_stop: "listen_step l l' \<Longrightarrow> l_stop l \<Longrightarrow> l_stop l'"
  by (auto simp: stop_handle_stop_def handle_accepted_def accept_failed_def)

text \<open>
  A stop request cannot be lost: once the stop signal is sent, the accept loop has ended
  or can end without accepting another connection.
\<close>

lemma stop_is_heard:
  assumes "l_stop l"
  shows "\<exists>l' r. listen_step\<^sup>*\<^sup>* l l' \<and> l_phase l' = Stopped r \<and> l_spawned l' = l_spawned l"
proof (cases "l_phase l")
  case Binding
  let ?l1 = "l\<lparr>l_phase := AwaitPermit\<rparr>"
  have "listen_step l ?l1" "listen_step ?l1 (?l1\<lparr>l_phase := Stopped (Ok ())\<rparr>)"
    using assms listen_step.bind [OF Binding] listen_step.stop_waiting [of ?l1] by simp_all
  then show ?thesis
    by (intro exI [of _ "?l1\<lparr>l_phase := Stopped (Ok ())\<rparr>"] exI [of _ "Ok ()"]) auto
next
  case AwaitPermit
  from listen_step.stop_waiting [OF AwaitPermit assms] show ?thesis
    by (intro exI [of _ "l\<lparr>l_phase := Stopped (Ok ())\<rparr>"] exI [of _ "Ok ()"]) auto
next
  case AwaitAccept
  from listen_step.stop_accepting [OF AwaitAccept assms] show ?thesis
    by (intro exI [of _ "l\<lparr>l_phase := Stopped (Ok ()), l_permits := l_permits l + 1\<rparr>"] exI [of _ "Ok ()"]) auto
qed auto

section \<open>Properties\<close>

text \<open>
  A counter that is not given back. A connection whose processor unwinds returns its
  permit but not its count: a state can be reached in which no connection is served and
  \<open>active_connections\<close> is positive.
\<close>

lemma active_count_leaks:
  "\<exists>l. listening 128 l \<and> l_spawned l + l_serving l = 0 \<and> 0 < l_active l"
proof -
  let ?l = "\<lambda>ph p sp sv ac pa. \<lparr>l_phase = ph, l_permits = p, l_spawned = sp, l_serving = sv, l_active = ac,
    l_stop = False, l_lost = pa\<rparr>"
  have "listening 128 (?l Binding 128 0 0 0 0)"
    using listening.start [of 128] by (simp add: with_connection_limit_def)
  then have "listening 128 (?l AwaitPermit 128 0 0 0 0)"
    by (rule listening.step) (use listen_step.bind [of "?l Binding 128 0 0 0 0"] in simp)
  then have "listening 128 (?l AwaitAccept 127 0 0 0 0)"
    by (rule listening.step) (use listen_step.acquire [of "?l AwaitPermit 128 0 0 0 0"] in simp)
  then have "listening 128 (?l AwaitPermit 127 1 0 0 0)"
    by (rule listening.step) (use listen_step.accept [of "?l AwaitAccept 127 0 0 0 0"] in \<open>simp add: handle_accepted_def\<close>)
  then have "listening 128 (?l AwaitPermit 127 0 1 1 0)"
    by (rule listening.step) (use listen_step.begin_serving [of "?l AwaitPermit 127 1 0 0 0"] in simp)
  then have "listening 128 (?l AwaitPermit 128 0 0 1 1)"
    by (rule listening.step) (use listen_step.unwind [of "?l AwaitPermit 127 0 1 1 0"] in simp)
  then show ?thesis
    by (rule exI [where x = "?l AwaitPermit 128 0 0 1 1", OF conjI]) simp
qed

end
