(* ===== verification/Mock.thy ===== *)
theory Mock
  imports Registry
begin

text \<open>
  \<open>src/src/mock.rs\<close>: the mocks of the extension manager and of a plugin. Every method
  counts its calls and runs the closure set for it, or returns a default. The closures act
  on a hidden state \<open>'g\<close>; a counter is unbounded here.
\<close>

section \<open>\<open>MockExtensionManager\<close>\<close>

record 'g mock_manager =
  mm_state :: 'g
  mm_close_fn :: "('g \<Rightarrow> 'g) option"
  mm_close_call_count :: nat
  mm_ping_fn :: "(('g, unit, error) act) option"
  mm_ping_call_count :: nat
  mm_call_fn :: "(string \<Rightarrow> string \<Rightarrow> plugin_request \<Rightarrow> ('g, plugin_response, error) act) option"
  mm_call_call_count :: nat
  mm_extensions_fn :: "(('g, extension_info list, error) act) option"
  mm_extensions_call_count :: nat
  mm_options_fn :: "(('g, (string, option_info) btree, error) act) option"
  mm_options_call_count :: nat
  mm_register_extension_fn :: "(string \<Rightarrow> string option \<Rightarrow> extension_registry \<Rightarrow> ('g, extension_uuid, error) act) option"
  mm_register_extension_call_count :: nat
  mm_deregister_extension_fn :: "(extension_uuid \<Rightarrow> ('g, unit, error) act) option"
  mm_deregister_extension_call_count :: nat
  mm_query_fn :: "(string \<Rightarrow> ('g, plugin_response, error) act) option"
  mm_query_call_count :: nat
  mm_get_query_columns_fn :: "(string \<Rightarrow> ('g, plugin_response, error) act) option"
  mm_get_query_columns_call_count :: nat

definition mock_manager_new :: "'g \<Rightarrow> 'g mock_manager" where
  "mock_manager_new g =
     \<lparr>mm_state = g,
      mm_close_fn = None, mm_close_call_count = 0,
      mm_ping_fn = None, mm_ping_call_count = 0,
      mm_call_fn = None, mm_call_call_count = 0,
      mm_extensions_fn = None, mm_extensions_call_count = 0,
      mm_options_fn = None, mm_options_call_count = 0,
      mm_register_extension_fn = None, mm_register_extension_call_count = 0,
      mm_deregister_extension_fn = None, mm_deregister_extension_call_count = 0,
      mm_query_fn = None, mm_query_call_count = 0,
      mm_get_query_columns_fn = None, mm_get_query_columns_call_count = 0\<rparr>"

text \<open>The closure if one is set, the default otherwise.\<close>

definition mock_run :: "('g, 'a, error) act option \<Rightarrow> 'a \<Rightarrow> ('g mock_manager, 'a, error) act" where
  "mock_run f d m = (case f of
     None \<Rightarrow> (Ok d, m)
   | Some f \<Rightarrow> (case f (mm_state m) of (r, g) \<Rightarrow> (r, m\<lparr>mm_state := g\<rparr>)))"

definition mock_close :: "'g mock_manager \<Rightarrow> 'g mock_manager" where
  "mock_close m =
     (let m' = m\<lparr>mm_close_call_count := mm_close_call_count m + 1\<rparr> in
      case mm_close_fn m of None \<Rightarrow> m' | Some f \<Rightarrow> m'\<lparr>mm_state := f (mm_state m')\<rparr>)"

definition mock_ping :: "('g mock_manager, unit, error) act" where
  "mock_ping m =
     mock_run (mm_ping_fn m) (()) (m\<lparr>mm_ping_call_count := mm_ping_call_count m + 1\<rparr>)"

definition mock_call :: "string \<Rightarrow> string \<Rightarrow> plugin_request \<Rightarrow> ('g mock_manager, plugin_response, error) act" where
  "mock_call registry item request m =
     mock_run (map_option (\<lambda>f. f registry item request) (mm_call_fn m)) ([]) (m\<lparr>mm_call_call_count := mm_call_call_count m + 1\<rparr>)"

definition mock_extensions :: "('g mock_manager, extension_info list, error) act" where
  "mock_extensions m =
     mock_run (mm_extensions_fn m) ([]) (m\<lparr>mm_extensions_call_count := mm_extensions_call_count m + 1\<rparr>)"

definition mock_options :: "('g mock_manager, (string, option_info) btree, error) act" where
  "mock_options m =
     mock_run (mm_options_fn m) ([]) (m\<lparr>mm_options_call_count := mm_options_call_count m + 1\<rparr>)"

definition mock_register_extension :: "string \<Rightarrow> string option \<Rightarrow> extension_registry \<Rightarrow> ('g mock_manager, extension_uuid, error) act" where
  "mock_register_extension name version registry m =
     mock_run (map_option (\<lambda>f. f name version registry) (mm_register_extension_fn m)) (i64_of_int 1) (m\<lparr>mm_register_extension_call_count := mm_register_extension_call_count m + 1\<rparr>)"

definition mock_deregister_extension :: "extension_uuid \<Rightarrow> ('g mock_manager, unit, error) act" where
  "mock_deregister_extension uuid m =
     mock_run (map_option (\<lambda>f. f uuid) (mm_deregister_extension_fn m)) (()) (m\<lparr>mm_deregister_extension_call_count := mm_deregister_extension_call_count m + 1\<rparr>)"

definition mock_query :: "string \<Rightarrow> ('g mock_manager, plugin_response, error) act" where
  "mock_query sql m =
     mock_run (map_option (\<lambda>f. f sql) (mm_query_fn m)) ([]) (m\<lparr>mm_query_call_count := mm_query_call_count m + 1\<rparr>)"

definition mock_get_query_columns :: "string \<Rightarrow> ('g mock_manager, plugin_response, error) act" where
  "mock_get_query_columns sql m =
     mock_run (map_option (\<lambda>f. f sql) (mm_get_query_columns_fn m)) ([]) (m\<lparr>mm_get_query_columns_call_count := mm_get_query_columns_call_count m + 1\<rparr>)"

definition mock_close_invoked :: "'g mock_manager \<Rightarrow> bool" where
  "mock_close_invoked m = (0 < mm_close_call_count m)"

definition mock_ping_invoked :: "'g mock_manager \<Rightarrow> bool" where
  "mock_ping_invoked m = (0 < mm_ping_call_count m)"

definition mock_call_invoked :: "'g mock_manager \<Rightarrow> bool" where
  "mock_call_invoked m = (0 < mm_call_call_count m)"

definition mock_extensions_invoked :: "'g mock_manager \<Rightarrow> bool" where
  "mock_extensions_invoked m = (0 < mm_extensions_call_count m)"

definition mock_options_invoked :: "'g mock_manager \<Rightarrow> bool" where
  "mock_options_invoked m = (0 < mm_options_call_count m)"

definition mock_register_extension_invoked :: "'g mock_manager \<Rightarrow> bool" where
  "mock_register_extension_invoked m = (0 < mm_register_extension_call_count m)"

definition mock_deregister_extension_invoked :: "'g mock_manager \<Rightarrow> bool" where
  "mock_deregister_extension_invoked m = (0 < mm_deregister_extension_call_count m)"

definition mock_query_invoked :: "'g mock_manager \<Rightarrow> bool" where
  "mock_query_invoked m = (0 < mm_query_call_count m)"

definition mock_get_query_columns_invoked :: "'g mock_manager \<Rightarrow> bool" where
  "mock_get_query_columns_invoked m = (0 < mm_get_query_columns_call_count m)"

definition mock_ext_manager :: "'g mock_manager ext_manager" where
  "mock_ext_manager =
     \<lparr>em_close = mock_close,
      em_ping = mock_ping,
      em_call = mock_call,
      em_extensions = mock_extensions,
      em_options = mock_options,
      em_register_extension = mock_register_extension,
      em_deregister_extension = mock_deregister_extension,
      em_query = mock_query,
      em_get_query_columns = mock_get_query_columns\<rparr>"

text \<open>The mock answers a deregistration when the closure set for it does.\<close>

definition mock_answers :: "'g mock_manager \<Rightarrow> bool" where
  "mock_answers m = (case mm_deregister_extension_fn m of None \<Rightarrow> True
     | Some f \<Rightarrow> (\<forall>uuid g. is_ok (fst (f uuid g)) \<or> is_err (fst (f uuid g))))"

lemma mock_run_closures:
  "mm_deregister_extension_fn (snd (mock_run f d m)) = mm_deregister_extension_fn m"
  by (simp add: mock_run_def split: option.split prod.split)

lemma mock_run_answers:
  assumes "case f of None \<Rightarrow> True | Some g \<Rightarrow> is_ok (fst (g (mm_state m))) \<or> is_err (fst (g (mm_state m)))"
  shows "is_ok (fst (mock_run f d m)) \<or> is_err (fst (mock_run f d m))"
  using assms by (auto simp: mock_run_def split: option.splits prod.splits)

interpretation mock: answering_manager mock_ext_manager mock_answers "\<lambda>_ _ _. True"
proof unfold_locales
  fix m :: "'g mock_manager" and name version registry uuid
  assume m: "mock_answers m"
  then show "mock_answers (snd (em_ping mock_ext_manager m))"
    "mock_answers (snd (em_register_extension mock_ext_manager name version registry m))"
    by (simp_all add: mock_ext_manager_def mock_ping_def mock_register_extension_def mock_answers_def mock_run_closures)
  show "is_ok (fst (em_deregister_extension mock_ext_manager uuid m))
      \<or> is_err (fst (em_deregister_extension mock_ext_manager uuid m))"
    using m unfolding mock_ext_manager_def mock_deregister_extension_def
    by simp (rule mock_run_answers, auto simp: mock_answers_def split: option.splits)
qed

section \<open>\<open>MockPlugin\<close>\<close>

record 'g mock_plugin =
  mp_name :: string
  mp_registry_name :: registry_name
  mp_state :: 'g
  mp_call_fn :: "(plugin_request \<Rightarrow> ('g, plugin_response, error) act) option"
  mp_call_call_count :: nat
  mp_routes_fn :: "plugin_response option"
  mp_routes_call_count :: nat
  mp_ping_fn :: "(unit, error) result option"
  mp_ping_call_count :: nat
  mp_shutdown_fn :: "('g, unit, error) act option"
  mp_shutdown_call_count :: nat

definition mock_plugin_new :: "string \<Rightarrow> registry_name \<Rightarrow> 'g \<Rightarrow> 'g mock_plugin" where
  "mock_plugin_new name registry g =
     \<lparr>mp_name = name, mp_registry_name = registry, mp_state = g, mp_call_fn = None, mp_call_call_count = 0,
      mp_routes_fn = None, mp_routes_call_count = 0, mp_ping_fn = None, mp_ping_call_count = 0,
      mp_shutdown_fn = None, mp_shutdown_call_count = 0\<rparr>"

text \<open>\<open>routes\<close> and \<open>ping\<close> take \<open>&self\<close> and count in an atomic.\<close>

definition mock_plugin_routes :: "'g mock_plugin \<Rightarrow> plugin_response \<times> 'g mock_plugin" where
  "mock_plugin_routes p =
     ((case mp_routes_fn p of None \<Rightarrow> [] | Some r \<Rightarrow> r), p\<lparr>mp_routes_call_count := mp_routes_call_count p + 1\<rparr>)"

definition mock_plugin_ping :: "('g mock_plugin, unit, error) act" where
  "mock_plugin_ping p =
     ((case mp_ping_fn p of None \<Rightarrow> Ok () | Some r \<Rightarrow> r), p\<lparr>mp_ping_call_count := mp_ping_call_count p + 1\<rparr>)"

definition mock_plugin_call :: "plugin_request \<Rightarrow> ('g mock_plugin, plugin_response, error) act" where
  "mock_plugin_call req p =
     (let p' = p\<lparr>mp_call_call_count := mp_call_call_count p + 1\<rparr> in
      case mp_call_fn p of
        None \<Rightarrow> (Ok [], p')
      | Some f \<Rightarrow> (case f req (mp_state p') of (r, g) \<Rightarrow> (r, p'\<lparr>mp_state := g\<rparr>)))"

definition mock_plugin_shutdown :: "('g mock_plugin, unit, error) act" where
  "mock_plugin_shutdown p =
     (let p' = p\<lparr>mp_shutdown_call_count := mp_shutdown_call_count p + 1\<rparr> in
      case mp_shutdown_fn p of
        None \<Rightarrow> (Ok (), p')
      | Some f \<Rightarrow> (case f (mp_state p') of (r, g) \<Rightarrow> (r, p'\<lparr>mp_state := g\<rparr>)))"

definition mock_plugin_call_invoked :: "'g mock_plugin \<Rightarrow> bool" where
  "mock_plugin_call_invoked p = (0 < mp_call_call_count p)"

definition mock_plugin_routes_invoked :: "'g mock_plugin \<Rightarrow> bool" where
  "mock_plugin_routes_invoked p = (0 < mp_routes_call_count p)"

definition mock_plugin_ping_invoked :: "'g mock_plugin \<Rightarrow> bool" where
  "mock_plugin_ping_invoked p = (0 < mp_ping_call_count p)"

definition mock_plugin_shutdown_invoked :: "'g mock_plugin \<Rightarrow> bool" where
  "mock_plugin_shutdown_invoked p = (0 < mp_shutdown_call_count p)"

text \<open>The plugin's methods for the registry; counting routes and pings is left out there,
  where both are functions of the plugin.\<close>

definition mock_plugin_vtable :: "'g mock_plugin plugin" where
  "mock_plugin_vtable =
     \<lparr>pl_name = mp_name, pl_registry_name = mp_registry_name, pl_routes = \<lambda>p. fst (mock_plugin_routes p),
      pl_ping = \<lambda>p. fst (mock_plugin_ping p), pl_call = mock_plugin_call, pl_shutdown = mock_plugin_shutdown\<rparr>"

end
