(* ===== verification/Server.thy ===== *)
theory Server
  imports Registry Listener Mock
begin

text \<open>
  \<open>src/src/server/manager.rs\<close>: building, registering and starting the
  extension manager server, as functions on its state. Shutting it down is in the theory
  \<open>Shutdown\<close>, how it runs beside its other threads in \<open>ServerRun\<close>.
\<close>

section \<open>The builder\<close>

definition MAX_SOCKET_PATH_CHARACTERS :: nat where
  "MAX_SOCKET_PATH_CHARACTERS = 97"

definition DEFAULT_TIMEOUT :: nat where
  "DEFAULT_TIMEOUT = 1000000000"

definition DEFAULT_PING_INTERVAL :: nat where
  "DEFAULT_PING_INTERVAL = 5000000000"

definition CLIENT_LOCK_DEADLINE :: nat where
  "CLIENT_LOCK_DEADLINE = 1000000000"

datatype ownership = Owned | Borrowed

record 'k builder =
  bd_name :: string
  bd_socket_path :: string
  bd_version :: "string option"
  bd_timeout :: nat
  bd_ping_interval :: nat
  bd_client :: "'k option"

definition new_builder :: "string \<Rightarrow> string \<Rightarrow> 'k builder" where
  "new_builder name socket_path =
     \<lparr>bd_name = name, bd_socket_path = socket_path, bd_version = None, bd_timeout = DEFAULT_TIMEOUT,
      bd_ping_interval = DEFAULT_PING_INTERVAL, bd_client = None\<rparr>"

definition builder_version :: "string \<Rightarrow> 'k builder \<Rightarrow> 'k builder" where
  "builder_version v b = b\<lparr>bd_version := Some v\<rparr>"

definition builder_timeout :: "nat \<Rightarrow> 'k builder \<Rightarrow> 'k builder" where
  "builder_timeout t b = b\<lparr>bd_timeout := t\<rparr>"

definition builder_ping_interval :: "nat \<Rightarrow> 'k builder \<Rightarrow> 'k builder" where
  "builder_ping_interval i b = b\<lparr>bd_ping_interval := i\<rparr>"

definition builder_client :: "'k \<Rightarrow> 'k builder \<Rightarrow> 'k builder" where
  "builder_client k b = b\<lparr>bd_client := Some k\<rparr>"

section \<open>The server\<close>

text \<open>
  \<open>sv_rx\<close> is whether the receiver has not been taken yet, \<open>sv_listener\<close> the listener
  behind the stop handle and \<open>sv_stop_handle\<close> whether the server still has that handle.
  \<open>sv_trace\<close> is a ghost record of the effects of a shutdown, in their order, and
  \<open>sv_closed\<close> the client as \<open>close\<close> left it, which the code drops.
\<close>

datatype effect =
    Deregistered extension_uuid
  | ListenerStopped
  | PluginShutdown registry_name string
  | ClientClosed

record ('k, 'p) server =
  sv_name :: string
  sv_version :: "string option"
  sv_client :: "'k option"
  sv_client_poisoned :: bool
  sv_ownership :: ownership
  sv_registry :: "'p registry"
  sv_socket_path :: string
  sv_listen_path :: "string option"
  sv_uuid :: "extension_uuid option"
  sv_listener :: "listener option"
  sv_stop_handle :: bool
  sv_ping_interval :: nat
  sv_channel :: channel
  sv_rx :: bool
  sv_trace :: "effect list"
  sv_closed :: "'k option"

definition build :: "(string \<Rightarrow> nat \<Rightarrow> ('k, error) result) \<Rightarrow> 'k builder \<Rightarrow> (('k, 'p) server, error) result" where
  "build connect b =
     (if MAX_SOCKET_PATH_CHARACTERS < length (bd_socket_path b) then
        Err (Other (''socket path '' @ bd_socket_path b @ '' ('' @ show_nat (length (bd_socket_path b))
          @ '' characters) exceeded the maximum socket path character length of ''
          @ show_nat MAX_SOCKET_PATH_CHARACTERS))
      else bind_result
        (case bd_client b of
           Some c \<Rightarrow> Ok (c, Borrowed)
         | None \<Rightarrow> bind_result (connect (bd_socket_path b) (bd_timeout b)) (\<lambda>c. Ok (c, Owned)))
        (\<lambda>(c, own). Ok
           \<lparr>sv_name = bd_name b, sv_version = bd_version b, sv_client = Some c, sv_client_poisoned = False,
            sv_ownership = own, sv_registry = new_registry, sv_socket_path = bd_socket_path b,
            sv_listen_path = None, sv_uuid = None, sv_listener = None, sv_stop_handle = False,
            sv_ping_interval = bd_ping_interval b, sv_channel = new_channel, sv_rx = True, sv_trace = [], sv_closed = None\<rparr>))"

definition new_server ::
  "(string \<Rightarrow> nat \<Rightarrow> ('k, error) result) \<Rightarrow> string \<Rightarrow> string \<Rightarrow> (('k, 'p) server, error) result" where
  "new_server connect name socket_path = build connect (new_builder name socket_path)"

text \<open>A method call on the locked client; a panic poisons the lock.\<close>

definition on_client_lock ::
  "('k, 'a, error) act \<Rightarrow> 'k \<Rightarrow> ('k, 'p) server \<Rightarrow> ('a, error) result \<times> ('k, 'p) server" where
  "on_client_lock m k sv = (case m k of (r, k') \<Rightarrow>
     (r, sv\<lparr>sv_client := Some k',
        sv_client_poisoned := (case r of Panic _ \<Rightarrow> True | _ \<Rightarrow> sv_client_poisoned sv)\<rparr>))"

definition register_extension ::
  "'k ext_manager \<Rightarrow> 'p plugin \<Rightarrow> (('k, 'p) server, extension_uuid, error) act" where
  "register_extension EM V sv =
     (case gen_registry V (sv_registry sv) of
        Err e \<Rightarrow> (Err e, sv)
      | Panic p \<Rightarrow> (Panic p, sv)
      | Diverge \<Rightarrow> (Diverge, sv)
      | Ok registry \<Rightarrow>
          if sv_client_poisoned sv then (Err (Other ''osquery client lock poisoned''), sv)
          else (case sv_client sv of
              None \<Rightarrow> (Err (Other ''cannot start, shutdown in progress''), sv)
            | Some k \<Rightarrow> (case on_client_lock (em_register_extension EM (sv_name sv) (sv_version sv) registry) k sv of
                (Ok uuid, sv') \<Rightarrow> (Ok uuid, sv'\<lparr>sv_uuid := Some uuid,
                    sv_listen_path := Some (sv_socket_path sv' @ ''.'' @ show_i64 uuid)\<rparr>)
              | (r, sv') \<Rightarrow> (map_err (\<lambda>e. error_context e ''registering extension'') r, sv'))))"

text \<open>The client a run can rely on, and a registration that can be sent.\<close>

definition fit_client ::
  "('k \<Rightarrow> bool) \<Rightarrow> (string \<Rightarrow> string option \<Rightarrow> extension_registry \<Rightarrow> bool) \<Rightarrow> 'p plugin \<Rightarrow> ('k, 'p) server \<Rightarrow> bool" where
  "fit_client sane sendable V sv \<longleftrightarrow> (\<forall>k. sv_client sv = Some k \<longrightarrow> sane k)
     \<and> (\<forall>registry. gen_registry V (sv_registry sv) = Ok registry \<longrightarrow> sendable (sv_name sv) (sv_version sv) registry)"

text \<open>\<open>rt\<close> is the outcome of creating the listener's runtime.\<close>

definition start ::
  "'k ext_manager \<Rightarrow> 'p plugin \<Rightarrow> (unit, io_error) result \<Rightarrow> (('k, 'p) server, unit, error) act" where
  "start EM V rt = bnd (register_extension EM V) (\<lambda>uuid sv.
     (case sv_listen_path sv of
        None \<Rightarrow> (Err (Other ''set the listen_path to start server''), sv)
      | Some listen_path \<Rightarrow> (case rt of
            Ok u \<Rightarrow> (Ok (), sv\<lparr>sv_stop_handle := True,
              sv_listener := Some new_extension_server\<rparr>)
          | r \<Rightarrow> (map_err error_from_io r, sv))))"

lemma on_client_lock_keeps [simp]:
  assumes "on_client_lock m k sv = (r, sv')"
  shows "sv_uuid sv' = sv_uuid sv" "sv_trace sv' = sv_trace sv" "sv_registry sv' = sv_registry sv"
    "sv_stop_handle sv' = sv_stop_handle sv" "sv_ownership sv' = sv_ownership sv"
    "sv_listener sv' = sv_listener sv" "sv_client sv' \<noteq> None" "sv_name sv' = sv_name sv"
    "sv_socket_path sv' = sv_socket_path sv" "sv_channel sv' = sv_channel sv" "sv_rx sv' = sv_rx sv"
    "sv_listen_path sv' = sv_listen_path sv" "sv_version sv' = sv_version sv"
  using assms by (auto simp: on_client_lock_def split: prod.splits)

section \<open>Registering and starting\<close>

lemma register_extension_Ok:
  assumes "register_extension EM V sv = (Ok uuid, sv')"
  shows "sv_uuid sv' = Some uuid" "sv_listen_path sv' = Some (sv_socket_path sv @ ''.'' @ show_i64 uuid)"
    "sv_trace sv' = sv_trace sv" "sv_rx sv' = sv_rx sv" "sv_channel sv' = sv_channel sv"
    "sv_registry sv' = sv_registry sv" "sv_ownership sv' = sv_ownership sv" "sv_client sv' \<noteq> None"
    "\<exists>k k' registry. sv_client sv = Some k \<and> gen_registry V (sv_registry sv) = Ok registry
       \<and> em_register_extension EM (sv_name sv) (sv_version sv) registry k = (Ok uuid, k')"
proof -
  obtain registry where g: "gen_registry V (sv_registry sv) = Ok registry"
    using assms by (auto simp: register_extension_def split: result.splits)
  then obtain k where k: "sv_client sv = Some k" "\<not> sv_client_poisoned sv"
    using assms by (auto simp: register_extension_def split: if_splits option.splits)
  obtain r k' where m: "em_register_extension EM (sv_name sv) (sv_version sv) registry k = (r, k')"
    by (cases "em_register_extension EM (sv_name sv) (sv_version sv) registry k")
  have r: "r = Ok uuid"
    using assms g k m by (cases r) (auto simp: register_extension_def on_client_lock_def)
  have *: "sv' = sv\<lparr>sv_client := Some k', sv_client_poisoned := False\<rparr>\<lparr>sv_uuid := Some uuid,
      sv_listen_path := Some (sv_socket_path sv @ ''.'' @ show_i64 uuid)\<rparr>"
    using assms g k m r by (simp add: register_extension_def on_client_lock_def)
  show "sv_uuid sv' = Some uuid" "sv_listen_path sv' = Some (sv_socket_path sv @ ''.'' @ show_i64 uuid)"
    "sv_trace sv' = sv_trace sv" "sv_rx sv' = sv_rx sv" "sv_channel sv' = sv_channel sv"
    "sv_registry sv' = sv_registry sv" "sv_ownership sv' = sv_ownership sv" "sv_client sv' \<noteq> None"
    by (simp_all add: *)
  show "\<exists>k k' registry. sv_client sv = Some k \<and> gen_registry V (sv_registry sv) = Ok registry
       \<and> em_register_extension EM (sv_name sv) (sv_version sv) registry k = (Ok uuid, k')"
    using g k m r by blast
qed

lemma start_Ok:
  assumes "start EM V rt sv = (Ok u, sv')"
  obtains uuid sv1 where "register_extension EM V sv = (Ok uuid, sv1)" "rt = Ok ()"
    "sv' = sv1\<lparr>sv_stop_handle := True, sv_listener := Some new_extension_server\<rparr>"
proof -
  obtain r sv1 where m: "register_extension EM V sv = (r, sv1)"
    by (cases "register_extension EM V sv")
  then obtain uuid where r: "r = Ok uuid"
    using assms by (cases r) (auto simp: start_def bnd_def)
  show thesis
    using that [of uuid sv1] assms m r register_extension_Ok(2) [of EM V sv uuid sv1]
    by (cases rt) (auto simp: start_def bnd_def)
qed

lemma build_Ok:
  assumes "build connect b = Ok sv"
  shows "length (sv_socket_path sv) \<le> MAX_SOCKET_PATH_CHARACTERS" "sv_uuid sv = None" "sv_rx sv"
    "sv_trace sv = []" "registry_ok (sv_registry sv)" "sv_client sv \<noteq> None"
    "sv_ownership sv = Borrowed \<longleftrightarrow> bd_client b \<noteq> None"
  using assms by (auto simp: build_def bind_result_Ok_iff split: if_splits option.splits)

context answering_manager
begin

lemma register_extension_sane:
  assumes "fit_client sane sendable V sv" and "register_extension EM V sv = (r, sv')"
    and "sv_client sv' = Some k"
  shows "sane k"
proof (cases "\<exists>k0 registry. sv_client sv = Some k0 \<and> gen_registry V (sv_registry sv) = Ok registry
    \<and> \<not> sv_client_poisoned sv")
  case True
  then obtain k0 registry where k0: "sv_client sv = Some k0" "gen_registry V (sv_registry sv) = Ok registry"
    "\<not> sv_client_poisoned sv" by blast
  obtain r1 k1 where m: "em_register_extension EM (sv_name sv) (sv_version sv) registry k0 = (r1, k1)"
    by (cases "em_register_extension EM (sv_name sv) (sv_version sv) registry k0")
  have "sane k1"
    using register_sane [of k0 "sv_name sv" "sv_version sv" registry] assms(1) k0(1,2) by (simp add: m fit_client_def)
  moreover have "k1 = k"
    using assms(2,3) k0 m by (cases r1) (auto simp: register_extension_def on_client_lock_def)
  ultimately show ?thesis by simp
next
  case False
  then have "sv' = sv"
    using assms(2) by (auto simp: register_extension_def split: result.splits if_splits option.splits)
  then show ?thesis
    using assms(1,3) by (simp add: fit_client_def)
qed

end

lemma register_extension_fails:
  assumes "register_extension EM V sv = (r, sv')" and "\<not> is_ok r"
  shows "sv_uuid sv' = sv_uuid sv \<and> sv_listen_path sv' = sv_listen_path sv"
proof (cases "gen_registry V (sv_registry sv)")
  case (Ok registry)
  then show ?thesis
    using assms by (auto simp: register_extension_def split: if_splits option.splits prod.splits result.splits)
qed (use assms in \<open>auto simp: register_extension_def\<close>)

section \<open>Properties\<close>

text \<open>For the witnesses: the mock client of the repository.\<close>

lemmas mock_defs = mock_ext_manager_def mock_manager_new_def mock_ping_def mock_register_extension_def
  mock_deregister_extension_def mock_close_def mock_run_def i64_of_int_def

definition registered_server :: "(unit mock_manager, string) server" where
  "registered_server =
     \<lparr>sv_name = ''ext'', sv_version = None, sv_client = Some (mock_manager_new ()), sv_client_poisoned = False, sv_ownership = Owned,
      sv_registry = echo_registry, sv_socket_path = ''/s'', sv_listen_path = None, sv_uuid = Some (I64 7),
      sv_listener = None, sv_stop_handle = True, sv_ping_interval = 0, sv_channel = new_channel, sv_rx = True,
      sv_trace = [], sv_closed = None\<rparr>"

lemma mock_answers_new [simp]: "mock_answers (mock_manager_new g)"
  by (simp add: mock_answers_def mock_manager_new_def)

lemma registered_client: "sv_client registered_server = Some k \<Longrightarrow> k = mock_manager_new ()"
  by (simp add: registered_server_def)

lemma registered_sane: "sv_client registered_server = Some k \<Longrightarrow> mock_answers k"
  by (drule registered_client) simp

lemma registered_fit: "fit_client mock_answers (\<lambda>_ _ _. True) V registered_server"
  by (simp add: fit_client_def registered_sane)

text \<open>
  Registering names the socket osquery will call. When the client answers a
  registration with a uuid, the server keeps that uuid and listens on the client's socket
  path followed by a dot and the uuid in decimal; the registry it sent holds the routes of
  its plugins. When registering fails, uuid and path are what they were.
\<close>

lemma registration_names_the_socket:
  assumes "register_extension EM V sv = (r, sv')"
  shows "case r of
      Ok uuid \<Rightarrow> sv_uuid sv' = Some uuid \<and> sv_listen_path sv' = Some (sv_socket_path sv @ ''.'' @ show_i64 uuid)
        \<and> (\<exists>k registry. sv_client sv = Some k \<and> gen_registry V (sv_registry sv) = Ok registry
            \<and> fst (em_register_extension EM (sv_name sv) (sv_version sv) registry k) = Ok uuid)
    | _ \<Rightarrow> sv_uuid sv' = sv_uuid sv \<and> sv_listen_path sv' = sv_listen_path sv"
proof (cases r)
  case (Ok uuid)
  then show ?thesis
    using register_extension_Ok [of EM V sv uuid sv'] assms by fastforce
qed (use register_extension_fails [OF assms] in simp_all)

end
