(* ===== verification/Shutdown.thy ===== *)
theory Shutdown
  imports Server
begin

text \<open>
  \<open>src/src/server/manager.rs\<close>: shutting down a registered server, as a function on its
  state: the bounded waits for the client lock, the deregistration, the stop of the
  listener, the plugins' own shutdowns, which may panic, and the close of an owned client.
\<close>

section \<open>The steps\<close>

text \<open>\<open>busy k\<close> is what the \<open>k\<close>-th \<open>try_lock\<close> finds; 10 ms pass between two of them.\<close>

record lock_env =
  le_busy :: "nat \<Rightarrow> bool"
  le_clock :: "nat \<Rightarrow> nat"
  le_start :: nat

datatype lock_outcome = Locked | GaveUp | StillTrying

primrec try_lock_loop :: "nat \<Rightarrow> lock_env \<Rightarrow> bool \<Rightarrow> nat \<Rightarrow> nat \<Rightarrow> lock_outcome" where
  "try_lock_loop 0 env poisoned give_up k = StillTrying"
| "try_lock_loop (Suc n) env poisoned give_up k =
     (if \<not> le_busy env k then (if poisoned then GaveUp else Locked)
      else if give_up \<le> le_clock env k then GaveUp
      else try_lock_loop n env poisoned give_up (Suc k))"

definition LOCK_POLL_NANOS :: nat where
  "LOCK_POLL_NANOS = 10000000"

definition try_lock_client :: "lock_env \<Rightarrow> nat \<Rightarrow> ('k, 'p) server \<Rightarrow> lock_outcome" where
  "try_lock_client env deadline sv =
     try_lock_loop (deadline div LOCK_POLL_NANOS + 2) env (sv_client_poisoned sv) (le_start env + deadline) 0"

definition deregister_step ::
  "'k ext_manager \<Rightarrow> lock_env \<Rightarrow> extension_uuid \<Rightarrow> (('k, 'p) server, unit, error) act" where
  "deregister_step EM env uuid sv =
     (case try_lock_client env CLIENT_LOCK_DEADLINE sv of
        GaveUp \<Rightarrow> (Ok (), sv)
      | StillTrying \<Rightarrow> (Diverge, sv)
      | Locked \<Rightarrow> (case sv_client sv of
            None \<Rightarrow> (Ok (), sv)
          | Some k \<Rightarrow> (case on_client_lock (em_deregister_extension EM uuid) k sv of
                (Panic p, sv') \<Rightarrow> (Panic p, sv'\<lparr>sv_trace := sv_trace sv' @ [Deregistered uuid]\<rparr>)
              | (Diverge, sv') \<Rightarrow> (Diverge, sv')
              | (_, sv') \<Rightarrow> (Ok (), sv'\<lparr>sv_trace := sv_trace sv' @ [Deregistered uuid]\<rparr>))))"

definition stop_listener_step :: "('k, 'p) server \<Rightarrow> ('k, 'p) server" where
  "stop_listener_step sv =
     (if sv_stop_handle sv
      then sv\<lparr>sv_stop_handle := False, sv_listener := map_option stop_handle_stop (sv_listener sv),
        sv_trace := sv_trace sv @ [ListenerStopped]\<rparr>
      else sv)"

text \<open>
  The loop over the registry: the plugins one after the other, each under its own lock; a
  poisoned lock is passed over. A panic of a plugin's \<open>shutdown\<close> unwinds through the
  guards of both locks and ends the loop.
\<close>

definition shutdown_cell :: "'p plugin \<Rightarrow> ('p cell, unit, error) act" where
  "shutdown_cell V c =
     (if ce_poisoned c then (Ok (), c)
      else (case pl_shutdown V (ce_plugin c) of
          (Panic m, p) \<Rightarrow> (Panic m, \<lparr>ce_plugin = p, ce_poisoned = True\<rparr>)
        | (Diverge, p) \<Rightarrow> (Diverge, c\<lparr>ce_plugin := p\<rparr>)
        | (_, p) \<Rightarrow> (Ok (), c\<lparr>ce_plugin := p\<rparr>)))"

definition shutdown_plugin :: "'p plugin \<Rightarrow> registry_name \<times> string \<Rightarrow> (('k, 'p) server, unit, error) act" where
  "shutdown_plugin V rn sv =
     (case lookup_cell (sv_registry sv) (fst rn) (snd rn) of
        None \<Rightarrow> (Ok (), sv)
      | Some c \<Rightarrow> (case shutdown_cell V c of (res, c') \<Rightarrow>
          (res, sv\<lparr>sv_registry := set_cell (fst rn) (snd rn) c' (sv_registry sv),
             sv_trace := sv_trace sv @ (if ce_poisoned c then [] else [PluginShutdown (fst rn) (snd rn)])\<rparr>)))"

primrec shutdown_each ::
  "'p plugin \<Rightarrow> (registry_name \<times> string) list \<Rightarrow> (('k, 'p) server, unit, error) act" where
  "shutdown_each V [] = ret ()"
| "shutdown_each V (rn # rns) = seq (shutdown_plugin V rn) (shutdown_each V rns)"

definition plugin_keys :: "'p registry \<Rightarrow> (registry_name \<times> string) list" where
  "plugin_keys reg = concat (map (\<lambda>(r, ps). map (\<lambda>(n, c). (r, n)) ps) (rg_map reg))"

text \<open>How the loop ends for the registry's own lock.\<close>

fun leave_registry :: "(unit, error) result \<Rightarrow> ('k, 'p) server \<Rightarrow> ('k, 'p) server" where
  "leave_registry (Panic m) sv = sv\<lparr>sv_registry := (sv_registry sv)\<lparr>rg_poisoned := True\<rparr>\<rparr>"
| "leave_registry r sv = sv"

definition shutdown_plugins_step :: "'p plugin \<Rightarrow> (('k, 'p) server, unit, error) act" where
  "shutdown_plugins_step V sv =
     (if rg_poisoned (sv_registry sv) then (Ok (), sv)
      else (case shutdown_each V (plugin_keys (sv_registry sv)) sv of (r, sv') \<Rightarrow> (r, leave_registry r sv')))"

definition close_client_step :: "'k ext_manager \<Rightarrow> lock_env \<Rightarrow> (('k, 'p) server, unit, error) act" where
  "close_client_step EM env sv =
     (if sv_ownership sv = Borrowed then (Ok (), sv)
      else (case try_lock_client env CLIENT_LOCK_DEADLINE sv of
          GaveUp \<Rightarrow> (Ok (), sv)
        | StillTrying \<Rightarrow> (Diverge, sv)
        | Locked \<Rightarrow> (Ok (), case sv_client sv of
              None \<Rightarrow> sv
            | Some k \<Rightarrow> sv\<lparr>sv_client := None, sv_closed := Some (em_close EM k),
                sv_trace := sv_trace sv @ [ClientClosed]\<rparr>)))"

definition shutdown ::
  "'k ext_manager \<Rightarrow> 'p plugin \<Rightarrow> lock_env \<Rightarrow> lock_env \<Rightarrow> (('k, 'p) server, unit, error) act" where
  "shutdown EM V env1 env2 sv =
     (case sv_uuid sv of
        None \<Rightarrow> (Ok (), sv)
      | Some uuid \<Rightarrow>
          bnd (deregister_step EM env1 uuid) (\<lambda>_ sv'.
            seq (shutdown_plugins_step V) (close_client_step EM env2) (stop_listener_step sv'))
          (sv\<lparr>sv_uuid := None\<rparr>))"

definition drop_server ::
  "'k ext_manager \<Rightarrow> 'p plugin \<Rightarrow> lock_env \<Rightarrow> lock_env \<Rightarrow> ('k, 'p) server \<Rightarrow> ('k, 'p) server" where
  "drop_server EM V env1 env2 sv = snd (shutdown EM V env1 env2 sv)"

section \<open>The client lock\<close>

lemma try_lock_loop_ends:
  assumes clock: "\<And>k. le_clock env k + LOCK_POLL_NANOS \<le> le_clock env (Suc k)"
  shows "give_up \<le> le_clock env k + n * LOCK_POLL_NANOS \<Longrightarrow>
    try_lock_loop (Suc n) env poisoned give_up k \<noteq> StillTrying"
proof (induction n arbitrary: k)
  case (Suc n)
  have "give_up \<le> le_clock env (Suc k) + n * LOCK_POLL_NANOS"
    using Suc.prems clock [of k] by simp
  from Suc.IH [OF this] show ?case
    by (simp add: try_lock_loop.simps(2) [of "Suc n"] del: try_lock_loop.simps)
qed simp

definition ticks :: "lock_env \<Rightarrow> bool" where
  "ticks env = (le_start env \<le> le_clock env 0
     \<and> (\<forall>k. le_clock env k + LOCK_POLL_NANOS \<le> le_clock env (Suc k)))"

lemma try_lock_client_ends: "ticks env \<Longrightarrow> try_lock_client env deadline sv \<noteq> StillTrying"
proof -
  assume t: "ticks env"
  let ?n = "deadline div LOCK_POLL_NANOS + 1"
  have "deadline \<le> ?n * LOCK_POLL_NANOS"
    using dividend_less_div_times [of LOCK_POLL_NANOS deadline] by (simp add: LOCK_POLL_NANOS_def)
  then have "le_start env + deadline \<le> le_clock env 0 + ?n * LOCK_POLL_NANOS"
    using t by (simp add: ticks_def)
  from try_lock_loop_ends [OF _ this] show ?thesis
    using t by (simp add: try_lock_client_def ticks_def del: try_lock_loop.simps)
qed

lemma try_lock_loop_busy: "(\<forall>k. le_busy env k) \<Longrightarrow> try_lock_loop n env poisoned give_up k \<noteq> Locked"
  by (induction n arbitrary: k) auto

lemma try_lock_loop_poisoned: "try_lock_loop n env True give_up k \<noteq> Locked"
  by (induction n arbitrary: k) auto

lemma try_lock_loop_Locked: "try_lock_loop n env poisoned give_up k = Locked \<Longrightarrow> \<not> poisoned"
  using try_lock_loop_poisoned by (metis (full_types))

section \<open>Shutting down\<close>

lemma shutdown_unregistered: "sv_uuid sv = None \<Longrightarrow> shutdown EM V env1 env2 sv = (Ok (), sv)"
  by (simp add: shutdown_def)

text \<open>The step touches the client, its lock and the trace.\<close>

lemma deregister_step_frame:
  assumes "deregister_step EM env uuid sv = (r, sv')"
  shows "\<exists>c p t. sv' = sv\<lparr>sv_client := c, sv_client_poisoned := p, sv_trace := t\<rparr>
    \<and> (c = None \<longleftrightarrow> sv_client sv = None)"
proof (cases "try_lock_client env CLIENT_LOCK_DEADLINE sv = Locked \<and> sv_client sv \<noteq> None")
  case True
  then obtain k where k: "sv_client sv = Some k" by auto
  obtain r1 k' where m: "em_deregister_extension EM uuid k = (r1, k')"
    by (cases "em_deregister_extension EM uuid k")
  have "sv' = sv\<lparr>sv_client := Some k', sv_client_poisoned := sv_client_poisoned sv', sv_trace := sv_trace sv'\<rparr>"
    using assms True k m by (cases r1) (auto simp: deregister_step_def on_client_lock_def)
  then show ?thesis
    using k by (intro exI [of _ "Some k'"] exI [of _ "sv_client_poisoned sv'"] exI [of _ "sv_trace sv'"]) simp
next
  case False
  then have "sv' = sv"
    using assms by (auto simp: deregister_step_def split: lock_outcome.splits option.splits)
  then show ?thesis
    by (intro exI [of _ "sv_client sv"] exI [of _ "sv_client_poisoned sv"] exI [of _ "sv_trace sv"]) simp
qed

lemma deregister_step_trace:
  assumes "deregister_step EM env uuid sv = (Ok u, sv')"
  shows "sv_trace sv' = sv_trace sv @
    (if try_lock_client env CLIENT_LOCK_DEADLINE sv = Locked \<and> sv_client sv \<noteq> None then [Deregistered uuid] else [])
    \<and> sv_client_poisoned sv' = sv_client_poisoned sv"
proof (cases "try_lock_client env CLIENT_LOCK_DEADLINE sv = Locked \<and> sv_client sv \<noteq> None")
  case True
  then obtain k where k: "sv_client sv = Some k" by auto
  obtain r1 k' where m: "em_deregister_extension EM uuid k = (r1, k')"
    by (cases "em_deregister_extension EM uuid k")
  show ?thesis
    using assms True k m by (cases r1) (auto simp: deregister_step_def on_client_lock_def)
next
  case False
  then show ?thesis
    using assms by (auto simp: deregister_step_def split: lock_outcome.splits option.splits)
qed

text \<open>What no step of a shutdown touches.\<close>

definition same_identity :: "('k, 'p) server \<Rightarrow> ('k, 'p) server \<Rightarrow> bool" where
  "same_identity sv sv' \<longleftrightarrow> sv_uuid sv' = sv_uuid sv \<and> sv_rx sv' = sv_rx sv \<and> sv_ownership sv' = sv_ownership sv
     \<and> sv_channel sv' = sv_channel sv \<and> sv_listen_path sv' = sv_listen_path sv \<and> sv_name sv' = sv_name sv"

lemma same_identity_refl [simp]: "same_identity sv sv"
  by (simp add: same_identity_def)

lemma same_identity_trans: "same_identity a b \<Longrightarrow> same_identity b c \<Longrightarrow> same_identity a c"
  by (simp add: same_identity_def)

text \<open>A plugin's shutdown touches the registry and the trace.\<close>

definition only_plugins :: "('k, 'p) server \<Rightarrow> ('k, 'p) server \<Rightarrow> bool" where
  "only_plugins sv sv' \<longleftrightarrow> sv' = sv\<lparr>sv_registry := sv_registry sv', sv_trace := sv_trace sv'\<rparr>"

lemma only_plugins_refl [simp]: "only_plugins sv sv"
  by (simp add: only_plugins_def)

lemma only_pluginsI: "sv' = sv\<lparr>sv_registry := reg, sv_trace := t\<rparr> \<Longrightarrow> only_plugins sv sv'"
  by (simp add: only_plugins_def)

lemma only_pluginsE:
  assumes "only_plugins sv sv'"
  obtains reg t where "sv' = sv\<lparr>sv_registry := reg, sv_trace := t\<rparr>"
  using assms unfolding only_plugins_def by blast

lemma only_plugins_trans: "only_plugins a b \<Longrightarrow> only_plugins b c \<Longrightarrow> only_plugins a c"
  by (erule only_pluginsE, erule only_pluginsE) (simp add: only_plugins_def)

lemma only_plugins_keeps:
  assumes "only_plugins sv sv'"
  shows "sv_client sv' = sv_client sv" "sv_client_poisoned sv' = sv_client_poisoned sv"
    "sv_ownership sv' = sv_ownership sv" "sv_listener sv' = sv_listener sv"
    "sv_stop_handle sv' = sv_stop_handle sv" "sv_closed sv' = sv_closed sv" "same_identity sv sv'"
    "try_lock_client env d sv' = try_lock_client env d sv"
  by (rule only_pluginsE [OF assms], simp add: same_identity_def try_lock_client_def)+

lemma shutdown_plugin_frame: "only_plugins sv (snd (shutdown_plugin V rn sv))"
  by (simp add: shutdown_plugin_def only_plugins_def split: option.split prod.split)

lemma shutdown_each_frame: "only_plugins sv (snd (shutdown_each V rns sv))"
proof (induction rns arbitrary: sv)
  case (Cons rn rns)
  obtain r sv1 where m: "shutdown_plugin V rn sv = (r, sv1)"
    by (cases "shutdown_plugin V rn sv")
  then have "only_plugins sv sv1"
    using shutdown_plugin_frame [of sv V rn] by simp
  then show ?case
    using m only_plugins_trans [OF _ Cons.IH] by (cases r) (simp_all add: seq_def bnd_def)
qed (simp add: ret_def)

lemma leave_registry_frame: "only_plugins sv (leave_registry r sv)"
  by (cases r) (simp_all add: only_plugins_def)

lemma shutdown_plugins_step_frame:
  "shutdown_plugins_step V sv = (r, sv') \<Longrightarrow> only_plugins sv sv'"
  using only_plugins_trans [OF shutdown_each_frame [of sv V "plugin_keys (sv_registry sv)"] leave_registry_frame [where r = r]]
  by (auto simp: shutdown_plugins_step_def split: if_splits prod.splits)

lemma close_client_step_keeps:
  "close_client_step EM env sv = (r, sv') \<Longrightarrow> same_identity sv sv' \<and> sv_registry sv' = sv_registry sv
    \<and> sv_listener sv' = sv_listener sv \<and> sv_stop_handle sv' = sv_stop_handle sv"
  by (auto simp: close_client_step_def same_identity_def split: if_splits lock_outcome.splits option.splits)

lemma close_client_step_Ok: "ticks env \<Longrightarrow> \<exists>sv'. close_client_step EM env sv = (Ok (), sv')"
  using try_lock_client_ends [of env CLIENT_LOCK_DEADLINE sv]
  by (auto simp: close_client_step_def split: lock_outcome.split)

lemma stop_listener_step_keeps [simp]:
  "same_identity sv (stop_listener_step sv)" "sv_client (stop_listener_step sv) = sv_client sv"
  "sv_client_poisoned (stop_listener_step sv) = sv_client_poisoned sv"
  "sv_registry (stop_listener_step sv) = sv_registry sv"
  "sv_closed (stop_listener_step sv) = sv_closed sv"
  "sv_ownership (stop_listener_step sv) = sv_ownership sv"
  by (simp_all add: stop_listener_step_def same_identity_def)

lemma deregister_step_effect:
  assumes "deregister_step EM env uuid sv = (r, sv')"
  shows "\<exists>d \<in> {[], [Deregistered uuid]}. sv_trace sv' = sv_trace sv @ d"
proof (cases "try_lock_client env CLIENT_LOCK_DEADLINE sv = Locked \<and> sv_client sv \<noteq> None")
  case True
  then obtain k where k: "sv_client sv = Some k" by auto
  obtain r1 k' where m: "em_deregister_extension EM uuid k = (r1, k')"
    by (cases "em_deregister_extension EM uuid k")
  show ?thesis
    using assms True k m by (cases r1) (auto simp: deregister_step_def on_client_lock_def)
next
  case False
  then show ?thesis
    using assms by (auto simp: deregister_step_def split: lock_outcome.splits option.splits)
qed

lemma deregister_step_calm:
  assumes "deregister_step EM env uuid sv = (r, sv')"
    and "\<And>k t k'. sv_client sv = Some k \<Longrightarrow> em_deregister_extension EM uuid k \<noteq> (Panic t, k')"
  shows "r \<noteq> Panic t"
proof (cases "sv_client sv")
  case (Some k)
  obtain r1 k' where m: "em_deregister_extension EM uuid k = (r1, k')"
    by (cases "em_deregister_extension EM uuid k")
  then show ?thesis
    using assms(1) assms(2) [OF Some] Some by (cases r1) (auto simp: deregister_step_def on_client_lock_def split: lock_outcome.splits)
qed (use assms(1) in \<open>auto simp: deregister_step_def split: lock_outcome.splits\<close>)

lemma deregister_step_keeps:
  "deregister_step EM env uuid sv = (r, sv') \<Longrightarrow> same_identity sv sv' \<and> sv_registry sv' = sv_registry sv
    \<and> sv_listener sv' = sv_listener sv \<and> sv_stop_handle sv' = sv_stop_handle sv
    \<and> (sv_client sv' = None \<longleftrightarrow> sv_client sv = None) \<and> sv_closed sv' = sv_closed sv"
  by (drule deregister_step_frame) (auto simp: same_identity_def)

lemma shutdown_identity:
  assumes "shutdown EM V env1 env2 sv = (r, sv')"
  shows "same_identity (sv\<lparr>sv_uuid := None\<rparr>) sv'"
proof (cases "sv_uuid sv")
  case (Some uuid)
  obtain r1 sv1 where d: "deregister_step EM env1 uuid (sv\<lparr>sv_uuid := None\<rparr>) = (r1, sv1)"
    by (cases "deregister_step EM env1 uuid (sv\<lparr>sv_uuid := None\<rparr>)")
  obtain r2 sv2 where p: "shutdown_plugins_step V (stop_listener_step sv1) = (r2, sv2)"
    by (cases "shutdown_plugins_step V (stop_listener_step sv1)")
  have i: "same_identity (sv\<lparr>sv_uuid := None\<rparr>) sv1" "same_identity sv1 sv2"
    using deregister_step_keeps [OF d]
      same_identity_trans [OF _ only_plugins_keeps(7) [OF shutdown_plugins_step_frame [OF p]]] by simp_all
  note i2 = same_identity_trans [OF i]
  consider (dereg) "sv' = sv1" | (plugins) "sv' = sv2" | (close) "close_client_step EM env2 sv2 = (r, sv')"
    using assms Some d p by (cases r1; cases r2) (auto simp: shutdown_def bnd_def seq_def)
  then show ?thesis
  proof cases
    case close
    then show ?thesis
      using close_client_step_keeps [OF close] same_identity_trans [OF i2] by blast
  qed (use i i2 in auto)
qed (use assms in \<open>simp add: shutdown_def same_identity_def\<close>)

lemma shutdown_clears_uuid: "shutdown EM V env1 env2 sv = (r, sv') \<Longrightarrow> sv_uuid sv' = None"
  using shutdown_identity by (fastforce simp: same_identity_def)

lemma shutdown_twice:
  "shutdown EM V env1 env2 sv = (r, sv') \<Longrightarrow> shutdown EM V env3 env4 sv' = (Ok (), sv')"
  by (rule shutdown_unregistered) (rule shutdown_clears_uuid)

text \<open>A shutdown that gets through.\<close>

lemma shutdown_OkE:
  assumes "shutdown EM V env1 env2 sv = (Ok u, sv')" and "sv_uuid sv = Some uuid"
  obtains sv1 sv2 where "deregister_step EM env1 uuid (sv\<lparr>sv_uuid := None\<rparr>) = (Ok (), sv1)"
    "shutdown_plugins_step V (stop_listener_step sv1) = (Ok (), sv2)" "close_client_step EM env2 sv2 = (Ok (), sv')"
  using assms by (auto simp: shutdown_def bnd_def seq_def split: prod.splits result.splits)

subsection \<open>The plugins\<close>

lemma lookup_plugin_keys:
  "lookup_cell reg r n = Some c \<Longrightarrow> (r, n) \<in> set (plugin_keys reg)"
  by (fastforce simp: lookup_cell_Some plugin_keys_def dest: map_of_SomeD)

lemma distinct_plugin_keys:
  assumes "registry_ok reg"
  shows "distinct (plugin_keys reg)"
proof -
  have "distinct (concat (map (\<lambda>(r, ps). map (\<lambda>(n, c). (r, n)) ps) m))"
    if "distinct (map fst m)" "\<And>r ps. (r, ps) \<in> set m \<Longrightarrow> distinct (map fst ps)"
    for m :: "(registry_name \<times> 'a plugins) list"
    using that
  proof (induction m)
    case (Cons rp m)
    obtain r ps where rp: "rp = (r, ps)" by (cases rp)
    have "map (\<lambda>(n, c). (r, n)) ps = map (Pair r) (map fst ps)"
      by (simp add: case_prod_unfold)
    moreover have "distinct (map (Pair r) (map fst ps))"
      using Cons.prems(2) [of r ps] by (simp add: rp distinct_map inj_on_def)
    ultimately have "distinct (map (\<lambda>(n, c). (r, n)) ps)"
      by (simp only:)
    moreover have "distinct (concat (map (\<lambda>(r, ps). map (\<lambda>(n, c). (r, n)) ps) m))"
      by (rule Cons.IH) (use Cons.prems in \<open>force simp: rp\<close>)+
    ultimately show ?case
      using Cons.prems(1) by (force simp: rp)
  qed simp
  then show ?thesis
    using assms by (auto simp: registry_ok_def plugin_keys_def)
qed

definition plugin_shutdowns :: "'p registry \<Rightarrow> (registry_name \<times> string) list \<Rightarrow> effect list" where
  "plugin_shutdowns reg rns = map (\<lambda>(r, n). PluginShutdown r n)
     (filter (\<lambda>(r, n). \<exists>c. lookup_cell reg r n = Some c \<and> \<not> ce_poisoned c) rns)"

lemma shutdown_plugin_lookup:
  "lookup_cell (sv_registry (snd (shutdown_plugin V (r, n) sv))) r' n'
    = (if r' = r \<and> n' = n then map_option (\<lambda>c. snd (shutdown_cell V c)) (lookup_cell (sv_registry sv) r n)
       else lookup_cell (sv_registry sv) r' n')"
  by (auto simp: shutdown_plugin_def lookup_cell_set_cell split: option.split prod.split)

lemma shutdown_each_Ok:
  assumes "shutdown_each V rns sv = (Ok u, sv')" and "distinct rns"
  shows "sv_trace sv' = sv_trace sv @ plugin_shutdowns (sv_registry sv) rns"
    and "lookup_cell (sv_registry sv') r n
      = (if (r, n) \<in> set rns then map_option (\<lambda>c. snd (shutdown_cell V c)) (lookup_cell (sv_registry sv) r n)
         else lookup_cell (sv_registry sv) r n)"
    and "rg_poisoned (sv_registry sv') = rg_poisoned (sv_registry sv)"
proof -
  have "sv_trace sv' = sv_trace sv @ plugin_shutdowns (sv_registry sv) rns
    \<and> (\<forall>r n. lookup_cell (sv_registry sv') r n
      = (if (r, n) \<in> set rns then map_option (\<lambda>c. snd (shutdown_cell V c)) (lookup_cell (sv_registry sv) r n)
         else lookup_cell (sv_registry sv) r n))
    \<and> rg_poisoned (sv_registry sv') = rg_poisoned (sv_registry sv)"
    using assms
  proof (induction rns arbitrary: sv)
    case (Cons rn rns)
    obtain r n where rn: "rn = (r, n)" by (cases rn)
    obtain sv1 where m: "shutdown_plugin V rn sv = (Ok (), sv1)" and e: "shutdown_each V rns sv1 = (Ok u, sv')"
      using Cons.prems(1) by (auto simp: seq_def bnd_def split: prod.splits result.splits)
    have l: "lookup_cell (sv_registry sv1) r' n'
        = (if r' = r \<and> n' = n then map_option (\<lambda>c. snd (shutdown_cell V c)) (lookup_cell (sv_registry sv) r n)
           else lookup_cell (sv_registry sv) r' n')" for r' n'
      using shutdown_plugin_lookup [of V r n sv r' n'] m by (simp add: rn)
    have t: "sv_trace sv1 = sv_trace sv @ plugin_shutdowns (sv_registry sv) [rn]"
      and p: "rg_poisoned (sv_registry sv1) = rg_poisoned (sv_registry sv)"
      using m by (auto simp: shutdown_plugin_def plugin_shutdowns_def rn set_cell_def split: option.splits prod.splits)
    have "lookup_cell (sv_registry sv1) r' n' = lookup_cell (sv_registry sv) r' n'" if "(r', n') \<in> set rns" for r' n'
      using Cons.prems(2) that by (auto simp: l rn)
    then have "plugin_shutdowns (sv_registry sv1) rns = plugin_shutdowns (sv_registry sv) rns"
      unfolding plugin_shutdowns_def by (intro arg_cong [of _ _ "map _"] filter_cong) auto
    then show ?case
      using Cons.IH [OF e] Cons.prems(2) t l p by (auto simp: rn plugin_shutdowns_def)
  qed (simp add: ret_def plugin_shutdowns_def)
  then show "sv_trace sv' = sv_trace sv @ plugin_shutdowns (sv_registry sv) rns"
    "lookup_cell (sv_registry sv') r n
      = (if (r, n) \<in> set rns then map_option (\<lambda>c. snd (shutdown_cell V c)) (lookup_cell (sv_registry sv) r n)
         else lookup_cell (sv_registry sv) r n)"
    "rg_poisoned (sv_registry sv') = rg_poisoned (sv_registry sv)"
    by blast+
qed

text \<open>A panic ends the loop: the plugins before were told, the ones after were not.\<close>

lemma shutdown_each_Panic:
  assumes "shutdown_each V rns sv = (Panic m, sv')" and "distinct rns"
  shows "\<exists>before r n after c'. rns = before @ (r, n) # after
    \<and> sv_trace sv' = sv_trace sv @ plugin_shutdowns (sv_registry sv) before @ [PluginShutdown r n]
    \<and> lookup_cell (sv_registry sv') r n = Some c' \<and> ce_poisoned c'
    \<and> (\<forall>(r', n') \<in> set after. lookup_cell (sv_registry sv') r' n' = lookup_cell (sv_registry sv) r' n')"
  using assms
proof (induction rns arbitrary: sv)
  case (Cons rn rns)
  obtain r n where rn: "rn = (r, n)" by (cases rn)
  obtain r1 sv1 where m: "shutdown_plugin V rn sv = (r1, sv1)"
    by (cases "shutdown_plugin V rn sv")
  have l: "lookup_cell (sv_registry sv1) r' n' = lookup_cell (sv_registry sv) r' n'" if "(r', n') \<in> set rns" for r' n'
    using shutdown_plugin_lookup [of V r n sv r' n'] m that Cons.prems(2) by (auto simp: rn)
  show ?case
  proof (cases r1)
    case (Ok u)
    then have e: "shutdown_each V rns sv1 = (Panic m, sv')"
      using Cons.prems(1) m by (simp add: seq_def bnd_def)
    obtain before r2 n2 after c' where ih: "rns = before @ (r2, n2) # after"
      "sv_trace sv' = sv_trace sv1 @ plugin_shutdowns (sv_registry sv1) before @ [PluginShutdown r2 n2]"
      "lookup_cell (sv_registry sv') r2 n2 = Some c'" "ce_poisoned c'"
      "\<forall>(r', n') \<in> set after. lookup_cell (sv_registry sv') r' n' = lookup_cell (sv_registry sv1) r' n'"
      using Cons.IH [OF e] Cons.prems(2) by auto
    have "sv_trace sv1 = sv_trace sv @ plugin_shutdowns (sv_registry sv) [rn]"
      using m Ok by (auto simp: shutdown_plugin_def plugin_shutdowns_def rn split: option.splits prod.splits)
    moreover have "plugin_shutdowns (sv_registry sv1) before = plugin_shutdowns (sv_registry sv) before"
      unfolding plugin_shutdowns_def using l ih(1) by (intro arg_cong [of _ _ "map _"] filter_cong) auto
    ultimately show ?thesis
      using ih l by (intro exI [of _ "rn # before"] exI [of _ r2] exI [of _ n2] exI [of _ after] exI [of _ c'])
        (auto simp: plugin_shutdowns_def)
  next
    case (Panic m')
    then obtain c where "lookup_cell (sv_registry sv) r n = Some c" "\<not> ce_poisoned c"
      using m by (auto simp: shutdown_plugin_def shutdown_cell_def rn split: option.splits if_splits)
    moreover have "sv' = sv1"
      using Cons.prems(1) m Panic by (simp add: seq_def bnd_def)
    ultimately show ?thesis
      using m Panic l
      by (intro exI [of _ "[]"] exI [of _ r] exI [of _ n] exI [of _ rns])
        (auto simp: rn shutdown_plugin_def shutdown_cell_def plugin_shutdowns_def lookup_cell_set_cell
          split: prod.splits result.splits)
  qed (use Cons.prems m in \<open>auto simp: seq_def bnd_def\<close>)
qed (simp add: ret_def)

text \<open>The whole step, when it gets through.\<close>

definition plugin_effects :: "'p registry \<Rightarrow> effect list" where
  "plugin_effects reg = (if rg_poisoned reg then [] else plugin_shutdowns reg (plugin_keys reg))"

lemma shutdown_plugins_Ok:
  assumes "shutdown_plugins_step V sv = (Ok u, sv')" and "registry_ok (sv_registry sv)"
  shows "sv_trace sv' = sv_trace sv @ plugin_effects (sv_registry sv)"
    and "lookup_cell (sv_registry sv') r n = (if rg_poisoned (sv_registry sv) then lookup_cell (sv_registry sv) r n
      else map_option (\<lambda>c. snd (shutdown_cell V c)) (lookup_cell (sv_registry sv) r n))"
proof -
  have e: "shutdown_each V (plugin_keys (sv_registry sv)) sv = (Ok u, sv')" if "\<not> rg_poisoned (sv_registry sv)"
    using assms(1) that by (auto simp: shutdown_plugins_step_def split: prod.splits)
  show "sv_trace sv' = sv_trace sv @ plugin_effects (sv_registry sv)"
    using assms(1) shutdown_each_Ok(1) [OF e distinct_plugin_keys [OF assms(2)]]
    by (cases "rg_poisoned (sv_registry sv)") (simp_all add: shutdown_plugins_step_def plugin_effects_def)
  have "lookup_cell (sv_registry sv) r n = None" if "(r, n) \<notin> set (plugin_keys (sv_registry sv))"
    using that lookup_plugin_keys by (metis not_None_eq)
  then show "lookup_cell (sv_registry sv') r n = (if rg_poisoned (sv_registry sv) then lookup_cell (sv_registry sv) r n
      else map_option (\<lambda>c. snd (shutdown_cell V c)) (lookup_cell (sv_registry sv) r n))"
    using assms(1) shutdown_each_Ok(2) [OF e distinct_plugin_keys [OF assms(2)], of r n]
    by (cases "rg_poisoned (sv_registry sv)") (auto simp: shutdown_plugins_step_def)
qed

context returning_shutdown
begin

lemma shutdown_plugin_returns: "\<exists>sv'. shutdown_plugin V rn sv = (Ok (), sv')"
proof (cases "lookup_cell (sv_registry sv) (fst rn) (snd rn)")
  case (Some c)
  obtain p where "pl_shutdown V (ce_plugin c) = (Ok (), p)"
    using shutdown_returns by blast
  then show ?thesis
    by (simp add: shutdown_plugin_def shutdown_cell_def Some)
qed (simp add: shutdown_plugin_def)

lemma shutdown_each_returns: "\<exists>sv'. shutdown_each V rns sv = (Ok (), sv')"
proof (induction rns arbitrary: sv)
  case (Cons rn rns)
  obtain sv1 where "shutdown_plugin V rn sv = (Ok (), sv1)"
    using shutdown_plugin_returns by blast
  with Cons.IH [of sv1] show ?case
    by (simp add: seq_def bnd_def)
qed (simp add: ret_def)

lemma shutdown_plugins_returns: "\<exists>sv'. shutdown_plugins_step V sv = (Ok (), sv')"
  using shutdown_each_returns [of "plugin_keys (sv_registry sv)" sv]
  by (auto simp: shutdown_plugins_step_def)

end

subsection \<open>All of it\<close>

lemma shutdown_trace:
  assumes "sv_uuid sv = Some uuid" and "shutdown EM V env1 env2 sv = (Ok u, sv')" and "registry_ok (sv_registry sv)"
  shows "sv_trace sv' = sv_trace sv
    @ (if try_lock_client env1 CLIENT_LOCK_DEADLINE sv = Locked \<and> sv_client sv \<noteq> None then [Deregistered uuid] else [])
    @ (if sv_stop_handle sv then [ListenerStopped] else [])
    @ plugin_effects (sv_registry sv)
    @ (if sv_ownership sv = Owned \<and> try_lock_client env2 CLIENT_LOCK_DEADLINE sv = Locked
          \<and> sv_client sv \<noteq> None then [ClientClosed] else [])"
proof -
  let ?sv = "sv\<lparr>sv_uuid := None\<rparr>"
  have lock: "try_lock_client env d ?sv = try_lock_client env d sv" for env d
    by (simp add: try_lock_client_def)
  obtain sv1 sv2 where d: "deregister_step EM env1 uuid ?sv = (Ok (), sv1)"
    and p: "shutdown_plugins_step V (stop_listener_step sv1) = (Ok (), sv2)"
    and c: "close_client_step EM env2 sv2 = (Ok (), sv')"
    by (rule shutdown_OkE [OF assms(2,1)])
  have dt: "sv_client_poisoned sv1 = sv_client_poisoned sv"
    "sv_trace sv1 = sv_trace sv
      @ (if try_lock_client env1 CLIENT_LOCK_DEADLINE sv = Locked \<and> sv_client sv \<noteq> None then [Deregistered uuid] else [])"
    using deregister_step_trace [OF d] lock [of env1] by simp_all
  note dk = deregister_step_keeps [OF d]
  note pk = only_plugins_keeps [OF shutdown_plugins_step_frame [OF p]]
  have t2: "sv_trace sv2 = sv_trace (stop_listener_step sv1) @ plugin_effects (sv_registry sv)"
    using shutdown_plugins_Ok(1) [OF p] dk assms(3) by simp
  have t1: "sv_trace (stop_listener_step sv1) = sv_trace sv1 @ (if sv_stop_handle sv then [ListenerStopped] else [])"
    using dk by (simp add: stop_listener_step_def)
  have o: "sv_ownership sv2 = sv_ownership sv" "sv_client sv2 = None \<longleftrightarrow> sv_client sv = None"
    using pk(1,3) dk by (simp_all add: same_identity_def)
  have k: "try_lock_client env2 CLIENT_LOCK_DEADLINE sv2 = try_lock_client env2 CLIENT_LOCK_DEADLINE sv"
    using pk(2) dt(1) by (simp add: try_lock_client_def)
  have "sv_trace sv' = sv_trace sv2 @ (if sv_ownership sv2 = Owned
      \<and> try_lock_client env2 CLIENT_LOCK_DEADLINE sv2 = Locked \<and> sv_client sv2 \<noteq> None then [ClientClosed] else [])"
    using c by (cases "sv_ownership sv2"; cases "sv_client sv2")
      (auto simp: close_client_step_def split: lock_outcome.splits)
  then show ?thesis
    unfolding t2 t1 o k dt(2) by simp
qed

lemma shutdown_registry:
  assumes "sv_uuid sv = Some uuid" and "shutdown EM V env1 env2 sv = (Ok u, sv')" and "registry_ok (sv_registry sv)"
  shows "lookup_cell (sv_registry sv') r n = (if rg_poisoned (sv_registry sv) then lookup_cell (sv_registry sv) r n
    else map_option (\<lambda>c. snd (shutdown_cell V c)) (lookup_cell (sv_registry sv) r n))"
proof -
  obtain sv1 sv2 where d: "deregister_step EM env1 uuid (sv\<lparr>sv_uuid := None\<rparr>) = (Ok (), sv1)"
    and p: "shutdown_plugins_step V (stop_listener_step sv1) = (Ok (), sv2)"
    and c: "close_client_step EM env2 sv2 = (Ok (), sv')"
    by (rule shutdown_OkE [OF assms(2,1)])
  show ?thesis
    using shutdown_plugins_Ok(2) [OF p, of r n] deregister_step_keeps [OF d] close_client_step_keeps [OF c] assms(3)
    by simp
qed

lemma shutdown_each_ends:
  "(\<And>p. fst (pl_shutdown V p) \<noteq> Diverge) \<Longrightarrow> fst (shutdown_each V rns sv) \<noteq> Diverge"
proof (induction rns arbitrary: sv)
  case (Cons rn rns)
  obtain r sv1 where m: "shutdown_plugin V rn sv = (r, sv1)"
    by (cases "shutdown_plugin V rn sv")
  have "fst (shutdown_cell V c) \<noteq> Diverge" for c
    using Cons.prems [of "ce_plugin c"] by (auto simp: shutdown_cell_def split: prod.split result.split)
  then have "r \<noteq> Diverge"
    using m by (auto simp: shutdown_plugin_def split: option.splits prod.splits) (metis fst_conv)
  then show ?case
    using m Cons by (cases r) (simp_all add: seq_def bnd_def)
qed (simp add: ret_def)

lemma deregister_step_ends:
  assumes "ticks env" and "\<And>k. sv_client sv = Some k \<Longrightarrow> fst (em_deregister_extension EM uuid k) \<noteq> Diverge"
  shows "fst (deregister_step EM env uuid sv) \<noteq> Diverge"
proof (cases "sv_client sv")
  case (Some k)
  obtain r k' where m: "em_deregister_extension EM uuid k = (r, k')"
    by (cases "em_deregister_extension EM uuid k")
  then show ?thesis
    using assms(2) [OF Some] Some try_lock_client_ends [OF assms(1), of CLIENT_LOCK_DEADLINE sv]
    by (cases r) (auto simp: deregister_step_def on_client_lock_def split: lock_outcome.splits)
qed (use try_lock_client_ends [OF assms(1), of CLIENT_LOCK_DEADLINE sv] in
  \<open>auto simp: deregister_step_def split: lock_outcome.splits\<close>)

lemma shutdown_returns:
  assumes "ticks env1" "ticks env2"
    and "\<And>uuid k. sv_client sv = Some k \<Longrightarrow> fst (em_deregister_extension EM uuid k) \<noteq> Diverge"
    and "\<And>p. fst (pl_shutdown V p) \<noteq> Diverge"
  shows "fst (shutdown EM V env1 env2 sv) \<noteq> Diverge"
proof (cases "sv_uuid sv")
  case (Some uuid)
  obtain r1 sv1 where d: "deregister_step EM env1 uuid (sv\<lparr>sv_uuid := None\<rparr>) = (r1, sv1)" and r1: "r1 \<noteq> Diverge"
    using deregister_step_ends [OF assms(1), of "sv\<lparr>sv_uuid := None\<rparr>" EM uuid] assms(3)
    by (cases "deregister_step EM env1 uuid (sv\<lparr>sv_uuid := None\<rparr>)") auto
  obtain r2 sv2 where p: "shutdown_plugins_step V (stop_listener_step sv1) = (r2, sv2)"
    by (cases "shutdown_plugins_step V (stop_listener_step sv1)")
  then have "r2 \<noteq> Diverge"
    using shutdown_each_ends [of V "plugin_keys (sv_registry sv1)" "stop_listener_step sv1", OF assms(4)]
    by (auto simp: shutdown_plugins_step_def split: if_splits prod.splits)
  with r1 show ?thesis
    using Some d p close_client_step_Ok [OF assms(2), of EM sv2]
    by (cases r1; cases r2) (auto simp: shutdown_def bnd_def seq_def)
qed (simp add: shutdown_def)

text \<open>With a client that answers and plugins whose shutdown returns, a shutdown returns.\<close>

context answering_manager
begin

lemma deregister_step_Ok:
  assumes "ticks env" and "\<And>k. sv_client sv = Some k \<Longrightarrow> sane k"
  shows "\<exists>sv'. deregister_step EM env uuid sv = (Ok (), sv')"
proof (cases "sv_client sv")
  case (Some k)
  obtain r k' where m: "em_deregister_extension EM uuid k = (r, k')"
    by (cases "em_deregister_extension EM uuid k")
  then have "is_ok r \<or> is_err r"
    using deregister_answers [OF assms(2) [OF Some], of uuid] by simp
  then show ?thesis
    using Some m try_lock_client_ends [OF assms(1), of CLIENT_LOCK_DEADLINE sv]
    by (cases r) (auto simp: deregister_step_def on_client_lock_def split: lock_outcome.split)
qed (use try_lock_client_ends [OF assms(1), of CLIENT_LOCK_DEADLINE sv] in
  \<open>auto simp: deregister_step_def split: lock_outcome.split\<close>)

lemma shutdown_Ok:
  assumes "ticks env1" "ticks env2" and "\<And>k. sv_client sv = Some k \<Longrightarrow> sane k" and "returning_shutdown V"
  shows "\<exists>sv'. shutdown EM V env1 env2 sv = (Ok (), sv')"
proof (cases "sv_uuid sv")
  case (Some uuid)
  obtain sv1 where d: "deregister_step EM env1 uuid (sv\<lparr>sv_uuid := None\<rparr>) = (Ok (), sv1)"
    using deregister_step_Ok [OF assms(1), of "sv\<lparr>sv_uuid := None\<rparr>" uuid] assms(3) by auto
  obtain sv2 where p: "shutdown_plugins_step V (stop_listener_step sv1) = (Ok (), sv2)"
    using returning_shutdown.shutdown_plugins_returns [OF assms(4)] by blast
  show ?thesis
    using Some d p close_client_step_Ok [OF assms(2), of EM sv2] by (simp add: shutdown_def bnd_def seq_def)
qed (simp add: shutdown_def)

end

section \<open>Properties\<close>

text \<open>Locks for the witnesses that are free or taken.\<close>

definition free_lock :: lock_env where
  "free_lock = \<lparr>le_busy = \<lambda>_. False, le_clock = \<lambda>k. k * LOCK_POLL_NANOS, le_start = 0\<rparr>"

definition busy_lock :: lock_env where
  "busy_lock = \<lparr>le_busy = \<lambda>_. True, le_clock = \<lambda>k. k * LOCK_POLL_NANOS, le_start = 0\<rparr>"

lemma free_lock_locked: "\<not> sv_client_poisoned sv \<Longrightarrow> try_lock_client free_lock d sv = Locked"
  by (simp add: try_lock_client_def free_lock_def)



text \<open>
  Shutting down is done once. Whatever a shutdown did and however it ended, the server
  is no longer registered, and shutting down again, also when it is dropped, does nothing.
\<close>

lemma shutdown_is_idempotent:
  assumes "shutdown EM V env1 env2 sv = (r, sv')"
  shows "sv_uuid sv' = None \<and> shutdown EM V env3 env4 sv' = (Ok (), sv') \<and> drop_server EM V env3 env4 sv' = sv'"
  using shutdown_twice [OF assms] shutdown_clears_uuid [OF assms] by (simp add: drop_server_def)



text \<open>
  A client that another thread holds is left alone. When the lock is busy for as long
  as a shutdown waits, the shutdown neither deregisters nor closes, and the client is the
  one it was.
\<close>

lemma busy_client_is_skipped:
  assumes "\<forall>k. le_busy env1 k" and "\<forall>k. le_busy env2 k" and "shutdown EM V env1 env2 sv = (r, sv')"
  shows "sv_client sv' = sv_client sv \<and> sv_closed sv' = sv_closed sv"
proof (cases "sv_uuid sv")
  case (Some uuid)
  have n: "try_lock_client env1 d sv0 \<noteq> Locked" "try_lock_client env2 d sv0 \<noteq> Locked" for d and sv0 :: "('x, 'y) server"
    using try_lock_loop_busy [OF assms(1)] try_lock_loop_busy [OF assms(2)]
    by (simp_all add: try_lock_client_def del: try_lock_loop.simps)
  obtain r1 where d: "deregister_step EM env1 uuid sv0 = (r1, sv0)" if "sv0 = sv\<lparr>sv_uuid := None\<rparr>" for sv0
    by (cases "try_lock_client env1 CLIENT_LOCK_DEADLINE (sv\<lparr>sv_uuid := None\<rparr>)")
      (auto simp: deregister_step_def n(1))
  obtain r2 sv2 where p: "shutdown_plugins_step V (stop_listener_step (sv\<lparr>sv_uuid := None\<rparr>)) = (r2, sv2)"
    by (cases "shutdown_plugins_step V (stop_listener_step (sv\<lparr>sv_uuid := None\<rparr>))")
  have k: "sv_client sv2 = sv_client sv" "sv_closed sv2 = sv_closed sv"
    using only_plugins_keeps [OF shutdown_plugins_step_frame [OF p]] by simp_all
  have c: "snd (close_client_step EM env2 sv2) = sv2"
    by (auto simp: close_client_step_def n(2) split: lock_outcome.split)
  have "sv' = sv\<lparr>sv_uuid := None\<rparr> \<or> sv' = sv2"
    using assms(3) Some d [OF refl] p c
    by (cases r1; cases r2; cases "close_client_step EM env2 sv2") (auto simp: shutdown_def bnd_def seq_def)
  then show ?thesis
    using k by auto
qed (use assms(3) in \<open>simp add: shutdown_def\<close>)

text \<open>
  A shutdown tells every plugin. When the registry lock is intact, a shutdown of a
  registered server that returns leaves every plugin whose lock is intact in the state after
  its own \<open>shutdown\<close>, and every other plugin, and the set of plugins, as they were.
\<close>

lemma shutdown_reaches_plugins:
  assumes "sv_uuid sv = Some uuid" and "shutdown EM V env1 env2 sv = (Ok u, sv')"
    and "\<not> rg_poisoned (sv_registry sv)" and "registry_ok (sv_registry sv)"
    and "\<And>p. is_ok (fst (pl_shutdown V p))"
  shows "lookup_cell (sv_registry sv') r n
    = map_option (\<lambda>c. if ce_poisoned c then c else c\<lparr>ce_plugin := snd (pl_shutdown V (ce_plugin c))\<rparr>)
        (lookup_cell (sv_registry sv) r n)"
proof -
  have "snd (shutdown_cell V c) = (if ce_poisoned c then c else c\<lparr>ce_plugin := snd (pl_shutdown V (ce_plugin c))\<rparr>)" for c
    using assms(5) [of "ce_plugin c"] by (auto simp: shutdown_cell_def split: prod.split result.splits)
  then show ?thesis
    using assms(3) by (simp add: shutdown_registry [OF assms(1,2,4)])
qed

text \<open>
  C31: a plugin that panics in its shutdown ends the server's. When a shutdown of a registered
  server unwinds and its client answered the deregistration, it unwinds out of one plugin:
  the plugins before it in the registry were told, the ones after it are as they were, its
  own lock and the registry's are poisoned, the client is not closed, and shutting down
  again, or dropping the server, does not take up what is left.
\<close>

theorem panicking_plugin_ends_shutdown:
  assumes "sv_uuid sv = Some uuid" and "shutdown EM V env1 env2 sv = (Panic m, sv')" and "registry_ok (sv_registry sv)"
    and "\<And>k t k'. sv_client sv = Some k \<Longrightarrow> em_deregister_extension EM uuid k \<noteq> (Panic t, k')"
  shows "\<exists>before r n after c'. plugin_keys (sv_registry sv) = before @ (r, n) # after
    \<and> (\<exists>d \<in> {[], [Deregistered uuid]}. sv_trace sv' = sv_trace sv @ d @ (if sv_stop_handle sv then [ListenerStopped] else [])
        @ plugin_shutdowns (sv_registry sv) before @ [PluginShutdown r n])
    \<and> lookup_cell (sv_registry sv') r n = Some c' \<and> ce_poisoned c' \<and> rg_poisoned (sv_registry sv')
    \<and> (\<forall>(r', n') \<in> set after. lookup_cell (sv_registry sv') r' n' = lookup_cell (sv_registry sv) r' n')
    \<and> (sv_client sv' = None \<longleftrightarrow> sv_client sv = None) \<and> sv_closed sv' = sv_closed sv
    \<and> drop_server EM V env3 env4 sv' = sv'"
proof -
  let ?sv = "sv\<lparr>sv_uuid := None\<rparr>"
  obtain r1 sv1 where d: "deregister_step EM env1 uuid ?sv = (r1, sv1)"
    by (cases "deregister_step EM env1 uuid ?sv")
  have "r1 \<noteq> Panic t" for t
    using deregister_step_calm [OF d] assms(4) by simp
  then have p: "shutdown_plugins_step V (stop_listener_step sv1) = (Panic m, sv')"
    using assms(1,2) d by (cases r1) (auto simp: shutdown_def bnd_def seq_def close_client_step_def
      split: prod.splits result.splits if_splits lock_outcome.splits)
  note k = deregister_step_keeps [OF d]
  obtain sv2 where e: "shutdown_each V (plugin_keys (sv_registry sv)) (stop_listener_step sv1) = (Panic m, sv2)"
    and sv': "sv' = leave_registry (Panic m) sv2"
    using p k by (auto simp: shutdown_plugins_step_def split: if_splits prod.splits)
  obtain e1 where e1: "e1 \<in> {[], [Deregistered uuid]}" "sv_trace sv1 = sv_trace sv @ e1"
    using deregister_step_effect [OF d] by auto
  have t: "sv_trace (stop_listener_step sv1) = sv_trace sv @ e1 @ (if sv_stop_handle sv then [ListenerStopped] else [])"
    using k e1(2) by (simp add: stop_listener_step_def)
  have l: "lookup_cell (sv_registry sv') r n = lookup_cell (sv_registry sv2) r n" for r n
    by (simp add: sv' lookup_cell_def plugins_of_def)
  have o: "only_plugins (stop_listener_step sv1) sv'"
    by (rule shutdown_plugins_step_frame [OF p])
  have "drop_server EM V env3 env4 sv' = sv'"
    using shutdown_twice [OF assms(2)] by (simp add: drop_server_def)
  moreover have "sv_client sv' = None \<longleftrightarrow> sv_client sv = None" "sv_closed sv' = sv_closed sv"
    using only_plugins_keeps [OF o] k by simp_all
  moreover have "rg_poisoned (sv_registry sv')" "sv_trace sv' = sv_trace sv2"
    by (simp_all add: sv')
  moreover obtain before r n after c' where x: "plugin_keys (sv_registry sv) = before @ (r, n) # after"
    "sv_trace sv2 = sv_trace (stop_listener_step sv1) @ plugin_shutdowns (sv_registry sv) before @ [PluginShutdown r n]"
    "lookup_cell (sv_registry sv2) r n = Some c'" "ce_poisoned c'"
    "\<forall>(r', n') \<in> set after. lookup_cell (sv_registry sv2) r' n' = lookup_cell (sv_registry sv) r' n'"
    using shutdown_each_Panic [OF e distinct_plugin_keys [OF assms(3)]] k by auto
  moreover have "sv_trace sv2 = sv_trace sv @ e1 @ (if sv_stop_handle sv then [ListenerStopped] else [])
      @ plugin_shutdowns (sv_registry sv) before @ [PluginShutdown r n]"
    by (simp add: x(2) t)
  ultimately show ?thesis
    unfolding l using e1(1)
    by (intro exI [of _ before] exI [of _ r] exI [of _ n] exI [of _ after] exI [of _ c']) auto
qed

theorem panicking_plugin_ends_shutdown_witness:
  "\<exists>m sv'. shutdown mock_ext_manager (echo_plugin\<lparr>pl_shutdown := \<lambda>p. (Panic ''boom'', p)\<rparr>) free_lock free_lock registered_server
      = (Panic m, sv') \<and> rg_poisoned (sv_registry sv')
    \<and> (\<exists>r n c'. lookup_cell (sv_registry sv') r n = Some c' \<and> ce_poisoned c')
    \<and> drop_server mock_ext_manager (echo_plugin\<lparr>pl_shutdown := \<lambda>p. (Panic ''boom'', p)\<rparr>) free_lock free_lock sv' = sv'"
proof -
  let ?V = "echo_plugin\<lparr>pl_shutdown := \<lambda>p. (Panic ''boom'', p)\<rparr>"
  obtain sv' where s: "shutdown mock_ext_manager ?V free_lock free_lock registered_server = (Panic ''boom'', sv')"
    by (simp add: shutdown_def deregister_step_def free_lock_locked registered_server_def bnd_def seq_def
      on_client_lock_def mock_defs stop_listener_step_def shutdown_plugins_step_def echo_registry_eq plugin_keys_def
      shutdown_plugin_def shutdown_cell_def lookup_cell_def plugins_of_def)
  have reg: "sv_uuid registered_server = Some (I64 7)" "registry_ok (sv_registry registered_server)"
    "plugin_keys (sv_registry registered_server) = [(RTable, ''a''), (RTable, ''b'')]"
    by (simp_all add: registered_server_def echo_registry_eq registry_ok_def plugin_keys_def lookup_cell_def plugins_of_def)
  have "em_deregister_extension mock_ext_manager (I64 7) k \<noteq> (Panic t, k')" if "sv_client registered_server = Some k" for k t k'
    using registered_client [OF that] by (simp add: mock_defs)
  from panicking_plugin_ends_shutdown [OF reg(1) s reg(2) this, of free_lock free_lock]
  obtain before r n after c' where "rg_poisoned (sv_registry sv')"
    "lookup_cell (sv_registry sv') r n = Some c'" "ce_poisoned c'"
    "drop_server mock_ext_manager ?V free_lock free_lock sv' = sv'"
    by blast
  with s show ?thesis by blast
qed

end
