(* ===== verification/Beside.thy ===== *)
theory Beside
  imports Shutdown
begin

text \<open>
  \<open>src/src/server/manager.rs\<close>: what the other threads do to a running server (the
  listener and its requests, the ping watcher, shutdown handles, the signal thread), as a
  step relation on the server's state, and what all of their steps keep.
\<close>

section \<open>What the other threads do\<close>

text \<open>A sender that finds the buffer full blocks; what it would send is not received, since
  \<open>run\<close> receives once.\<close>

definition send_signal :: "error option \<Rightarrow> ('k, 'p) server \<Rightarrow> ('k, 'p) server" where
  "send_signal v sv = sv\<lparr>sv_channel := snd (channel_send v (sv_channel sv))\<rparr>"

text \<open>
  One round of the ping watcher after its timeout: the server afterwards and whether the
  watcher goes on.
\<close>

definition ping_round :: "'k ext_manager \<Rightarrow> ('k, 'p) server \<Rightarrow> ('k, 'p) server \<times> bool" where
  "ping_round EM sv =
     (if sv_client_poisoned sv
      then (send_signal (Some (error_from_str ''could not lock osquery client for ping'')) sv, False)
      else (case sv_client sv of
          None \<Rightarrow> (sv, False)
        | Some k \<Rightarrow> (case on_client_lock (em_ping EM) k sv of
              (Ok u, sv') \<Rightarrow> (sv', True)
            | (Err e, sv') \<Rightarrow> (send_signal (Some (error_context e ''extension ping failed'')) sv', False)
            | (_, sv') \<Rightarrow> (sv', False))))"

definition on_handler :: "('p handler_state, 'a) tact \<Rightarrow> ('k, 'p) server \<Rightarrow> ('k, 'p) server" where
  "on_handler m sv = (case m \<lparr>hs_registry = sv_registry sv, hs_channel = sv_channel sv\<rparr> of
     (_, hs) \<Rightarrow> sv\<lparr>sv_registry := hs_registry hs, sv_channel := hs_channel hs\<rparr>)"

text \<open>The state is the server and whether its ping watcher is running.\<close>

inductive others_step ::
  "'k ext_manager \<Rightarrow> 'p plugin \<Rightarrow> ('k, 'p) server \<times> bool \<Rightarrow> ('k, 'p) server \<times> bool \<Rightarrow> bool" for EM V where
  osquery_call: "others_step EM V (sv, w) (on_handler (ext_handle_call V registry item request) sv, w)"
| osquery_shutdown: "others_step EM V (sv, w) (on_handler ext_handle_shutdown sv, w)"
| handle_shutdown: "others_step EM V (sv, w) (sv\<lparr>sv_channel := shutdown_handle_shutdown (sv_channel sv)\<rparr>, w)"
| signal_caught: "others_step EM V (sv, w) (send_signal None sv, w)"
| signal_failed: "others_step EM V (sv, w) (send_signal (Some e) sv, w)"
| ping: "others_step EM V (sv, True) (ping_round EM sv)"
| listens: "sv_listener sv = Some l \<Longrightarrow> listen_step l l' \<Longrightarrow>
    (\<forall>e. l_phase l' = Stopped (Err e) \<longrightarrow> l_phase l = l_phase l') \<Longrightarrow>
    others_step EM V (sv, w) (sv\<lparr>sv_listener := Some l'\<rparr>, w)"
| listener_failed: "sv_listener sv = Some l \<Longrightarrow> listen_step l l' \<Longrightarrow> l_phase l \<noteq> Stopped (Err e) \<Longrightarrow>
    l_phase l' = Stopped (Err e) \<Longrightarrow>
    others_step EM V (sv, w) (send_signal (Some (error_from_io e)) (sv\<lparr>sv_listener := Some l'\<rparr>), w)"

inductive others ::
  "'k ext_manager \<Rightarrow> 'p plugin \<Rightarrow> ('k, 'p) server \<times> bool \<Rightarrow> ('k, 'p) server \<times> bool \<Rightarrow> bool" for EM V where
  refl: "others EM V s s"
| trans: "others EM V s s' \<Longrightarrow> others_step EM V s' s'' \<Longrightarrow> others EM V s s''"

section \<open>What they keep\<close>

text \<open>The other threads change the client, the registry, the channel and the listener.\<close>

definition same_frame :: "('k, 'p) server \<Rightarrow> ('k, 'p) server \<Rightarrow> bool" where
  "same_frame sv sv' \<longleftrightarrow> sv_uuid sv' = sv_uuid sv \<and> sv_trace sv' = sv_trace sv
     \<and> sv_ownership sv' = sv_ownership sv \<and> sv_stop_handle sv' = sv_stop_handle sv \<and> sv_rx sv' = sv_rx sv
     \<and> sv_listen_path sv' = sv_listen_path sv \<and> sv_name sv' = sv_name sv
     \<and> (sv_client sv' = None \<longleftrightarrow> sv_client sv = None)"

lemma same_frame_refl [simp]: "same_frame sv sv"
  by (simp add: same_frame_def)

lemma same_frame_trans: "same_frame a b \<Longrightarrow> same_frame b c \<Longrightarrow> same_frame a c"
  by (simp add: same_frame_def)

lemma channel_send_keeps: "ch_buffer ch = Some v \<Longrightarrow> snd (channel_send x ch) = ch"
  by (simp add: channel_send_def)

lemma same_frame_on_handler: "same_frame sv (on_handler m sv)"
  by (simp add: same_frame_def on_handler_def split: prod.split)

lemma same_frame_send_signal: "same_frame sv (send_signal v sv)"
  by (simp add: same_frame_def send_signal_def)

lemma same_frame_ping_round: "same_frame sv (fst (ping_round EM sv))"
proof (cases "sv_client sv")
  case (Some k)
  obtain r k' where m: "em_ping EM k = (r, k')"
    by (cases "em_ping EM k")
  show ?thesis
    using Some m by (cases r) (auto simp: ping_round_def on_client_lock_def same_frame_def send_signal_def)
qed (simp add: ping_round_def same_frame_send_signal)

lemma others_step_frame: "others_step EM V s s' \<Longrightarrow> same_frame (fst s) (fst s')"
proof (induction rule: others_step.induct)
  case (listener_failed sv l l' e w)
  then show ?case
    by (simp add: same_frame_def send_signal_def)
qed (simp_all add: same_frame_on_handler same_frame_send_signal same_frame_ping_round, simp_all add: same_frame_def)

lemma others_frame: "others EM V s s' \<Longrightarrow> same_frame (fst s) (fst s')"
  by (induction rule: others.induct) (auto dest: others_step_frame intro: same_frame_trans)

text \<open>A signal that is in the channel stays there: the first one wins.\<close>

lemma ping_round_signal:
  "ch_buffer (sv_channel sv) = Some v \<Longrightarrow> sv_channel (fst (ping_round EM sv)) = sv_channel sv"
  by (cases "sv_client sv"; cases "em_ping EM (the (sv_client sv))"; cases "fst (em_ping EM (the (sv_client sv)))")
    (auto simp: ping_round_def on_client_lock_def send_signal_def channel_send_keeps)

lemma ext_handle_call_channel: "hs_channel (snd (ext_handle_call V r i q hs)) = hs_channel hs"
  by (auto simp: ext_handle_call_def split: result.splits option.splits prod.splits)

lemma others_step_signal:
  "others_step EM V s s' \<Longrightarrow> ch_buffer (sv_channel (fst s)) = Some v \<Longrightarrow> sv_channel (fst s') = sv_channel (fst s)"
proof (induction rule: others_step.induct)
  case (osquery_call sv w r i q)
  then show ?case
    using ext_handle_call_channel [of V r i q "\<lparr>hs_registry = sv_registry sv, hs_channel = sv_channel sv\<rparr>"]
    by (auto simp: on_handler_def split: prod.split)
qed (auto simp: on_handler_def ext_handle_shutdown_def send_signal_def channel_send_keeps
  shutdown_handle_shutdown_def channel_try_send_def ping_round_signal channel_send_def split: prod.splits)

lemma others_signal:
  "others EM V s s' \<Longrightarrow> ch_buffer (sv_channel (fst s)) = Some v \<Longrightarrow> sv_channel (fst s') = sv_channel (fst s)"
proof (induction rule: others.induct)
  case (trans s s' s'')
  then show ?case
    using others_step_signal [OF trans.hyps(2)] by simp
qed simp

lemma registry_ok_on_call:
  assumes "registry_ok (sv_registry sv)"
  shows "registry_ok (sv_registry (on_handler (ext_handle_call V r i q) sv))"
  using assms
  by (auto simp: on_handler_def ext_handle_call_def registry_ok_set_cell split: result.splits option.splits prod.splits)

lemma ping_round_registry: "sv_registry (fst (ping_round EM sv)) = sv_registry sv"
  by (cases "sv_client sv"; cases "em_ping EM (the (sv_client sv))"; cases "fst (em_ping EM (the (sv_client sv)))")
    (auto simp: ping_round_def on_client_lock_def send_signal_def)

lemma others_step_registry:
  "others_step EM V s s' \<Longrightarrow> registry_ok (sv_registry (fst s)) \<Longrightarrow> registry_ok (sv_registry (fst s'))"
proof (induction rule: others_step.induct)
  case (osquery_shutdown sv w)
  then show ?case
    by (simp add: on_handler_def ext_handle_shutdown_def split: prod.split)
qed (simp_all add: registry_ok_on_call ping_round_registry send_signal_def)

text \<open>Registered plugins stay registered, and a poisoned lock stays poisoned.\<close>

lemma plugin_keys_set_cell [simp]: "plugin_keys (set_cell r n c reg) = plugin_keys reg"
proof -
  have "map (\<lambda>(n, c). (r', n)) (modify_entry n' f ps) = map (\<lambda>(n, c). (r', n)) ps" for r' :: registry_name and n' f and ps :: "'a plugins"
    by (simp add: modify_entry_def case_prod_unfold)
  then show ?thesis
    by (auto simp: plugin_keys_def set_cell_def modify_entry_def [of r] comp_def intro!: arg_cong [of _ _ concat])
qed

definition registry_kept :: "'p registry \<Rightarrow> 'p registry \<Rightarrow> bool" where
  "registry_kept reg reg' \<longleftrightarrow> plugin_keys reg' = plugin_keys reg
     \<and> (\<forall>r n c'. lookup_cell reg' r n = Some c' \<longrightarrow>
         (\<exists>c. lookup_cell reg r n = Some c \<and> (ce_poisoned c \<longrightarrow> ce_poisoned c')))"

lemma registry_kept_refl [simp]: "registry_kept reg reg"
  by (simp add: registry_kept_def)

lemma registry_kept_trans: "registry_kept a b \<Longrightarrow> registry_kept b c \<Longrightarrow> registry_kept a c"
  unfolding registry_kept_def by (metis (no_types, opaque_lifting))

lemma registry_kept_set_cell:
  "lookup_cell reg r n = Some c \<Longrightarrow> (ce_poisoned c \<Longrightarrow> ce_poisoned c') \<Longrightarrow> registry_kept reg (set_cell r n c' reg)"
  by (auto simp: registry_kept_def lookup_cell_set_cell)

lemma call_locked_poisoned: "call_locked V q c = (r, c') \<Longrightarrow> ce_poisoned c \<Longrightarrow> ce_poisoned c'"
  by (simp add: call_locked_def)

lemma ext_handle_call_registry:
  "registry_kept (hs_registry hs) (hs_registry (snd (ext_handle_call V registry item q hs)))
    \<and> rg_poisoned (hs_registry (snd (ext_handle_call V registry item q hs))) = rg_poisoned (hs_registry hs)"
  by (auto simp: ext_handle_call_def set_cell_def [of _ _ _ "hs_registry hs"] lookup_cell_Some
      intro!: registry_kept_set_cell [unfolded set_cell_def] dest: call_locked_poisoned
      split: result.splits option.splits prod.splits)

lemma others_step_kept:
  "others_step EM V s s' \<Longrightarrow> registry_kept (sv_registry (fst s)) (sv_registry (fst s'))
    \<and> rg_poisoned (sv_registry (fst s')) = rg_poisoned (sv_registry (fst s))"
proof (induction rule: others_step.induct)
  case (osquery_call sv w registry item q)
  then show ?case
    using ext_handle_call_registry [of "\<lparr>hs_registry = sv_registry sv, hs_channel = sv_channel sv\<rparr>" V registry item q]
    by (auto simp: on_handler_def split: prod.split)
next
  case (osquery_shutdown sv w)
  then show ?case
    by (simp add: on_handler_def ext_handle_shutdown_def split: prod.split)
qed (simp_all add: ping_round_registry send_signal_def)

text \<open>The listener of a run is the one it started, some steps on.\<close>

lemma ping_round_listener: "sv_listener (fst (ping_round EM sv)) = sv_listener sv"
  by (cases "sv_client sv"; cases "em_ping EM (the (sv_client sv))"; cases "fst (em_ping EM (the (sv_client sv)))")
    (auto simp: ping_round_def on_client_lock_def send_signal_def)

lemma others_step_listener:
  "others_step EM V s s' \<Longrightarrow> sv_listener (fst s) = Some l \<Longrightarrow>
    \<exists>l'. sv_listener (fst s') = Some l' \<and> (l' = l \<or> listen_step l l')"
  by (induction rule: others_step.induct)
    (simp_all add: on_handler_def send_signal_def ping_round_listener split: prod.split)

lemma others_listening:
  "others EM V s s' \<Longrightarrow> sv_listener (fst s) = Some l \<Longrightarrow> listening limit l \<Longrightarrow>
    \<exists>l'. sv_listener (fst s') = Some l' \<and> listening limit l'"
proof (induction rule: others.induct)
  case (trans s s' s'')
  then show ?case
    using others_step_listener [OF trans.hyps(2)] listening.step by metis
qed simp

lemma others_stopped:
  "others EM V s s' \<Longrightarrow> sv_listener (fst s) = Some l \<Longrightarrow> l_stop l \<Longrightarrow> \<exists>l'. sv_listener (fst s') = Some l' \<and> l_stop l'"
proof (induction rule: others.induct)
  case (trans s s' s'')
  then show ?case
    using others_step_listener [OF trans.hyps(2)] listen_step_stop by metis
qed simp

text \<open>The client of a run stays sane.\<close>

context answering_manager
begin

lemma ping_round_sane:
  assumes "\<And>k. sv_client sv = Some k \<Longrightarrow> sane k" and "sv_client (fst (ping_round EM sv)) = Some k"
  shows "sane k"
proof (cases "sv_client sv")
  case (Some k0)
  obtain r k' where m: "em_ping EM k0 = (r, k')"
    by (cases "em_ping EM k0")
  then have "sane k'"
    using ping_sane [OF assms(1) [OF Some]] by simp
  then show ?thesis
    using assms Some m by (cases r) (auto simp: ping_round_def on_client_lock_def send_signal_def split: if_splits)
qed (use assms(2) in \<open>simp add: ping_round_def send_signal_def split: if_splits\<close>)

lemma others_sane:
  "others EM V s s' \<Longrightarrow> (\<And>k. sv_client (fst s) = Some k \<Longrightarrow> sane k) \<Longrightarrow> sv_client (fst s') = Some k \<Longrightarrow> sane k"
proof (induction arbitrary: k rule: others.induct)
  case (trans s s' s'')
  from trans.hyps(2) show ?case
  proof (cases rule: others_step.cases)
    case (ping sv)
    then show ?thesis
      using ping_round_sane [of sv k] trans.IH trans.prems by simp
  qed (use trans.IH trans.prems in \<open>auto simp: on_handler_def send_signal_def split: prod.splits\<close>)
qed simp

end

end
