(* ===== verification/Teardown.thy ===== *)
theory Teardown
  imports Beside "HOL-Library.Sublist"
begin

text \<open>
  \<open>src/src/server/manager.rs\<close>: the shutdown of a server whose other threads are still there.
  Requests in flight are served until the process lets go of the listener's runtime, the
  ping watcher may be in a round, and signals still arrive: between any two statements of
  \<open>shutdown\<close>, and between the plugins it tells, others take steps. The function \<open>shutdown\<close> of
  the theory \<open>Shutdown\<close> is the run of these steps in which nobody else moves.
\<close>

section \<open>The steps of a shutdown\<close>

text \<open>Where a shutdown is. The plugins still to be told are those the registry's guard iterates over.\<close>

datatype teardown_point =
    Deregistering extension_uuid
  | StoppingListener
  | LockingRegistry
  | TellingPlugins "(registry_name \<times> string) list"
  | ClosingClient
  | TornDown "(unit, error) result"

fun teardown_step ::
  "'k ext_manager \<Rightarrow> 'p plugin \<Rightarrow> lock_env \<Rightarrow> lock_env \<Rightarrow> teardown_point \<Rightarrow> ('k, 'p) server
    \<Rightarrow> teardown_point \<times> ('k, 'p) server" where
  "teardown_step EM V env1 env2 (Deregistering uuid) sv =
     (case deregister_step EM env1 uuid sv of
        (Ok u, sv') \<Rightarrow> (StoppingListener, sv')
      | (r, sv') \<Rightarrow> (TornDown r, sv'))"
| "teardown_step EM V env1 env2 StoppingListener sv = (LockingRegistry, stop_listener_step sv)"
| "teardown_step EM V env1 env2 LockingRegistry sv =
     (if rg_poisoned (sv_registry sv) then ClosingClient else TellingPlugins (plugin_keys (sv_registry sv)), sv)"
| "teardown_step EM V env1 env2 (TellingPlugins []) sv = (ClosingClient, sv)"
| "teardown_step EM V env1 env2 (TellingPlugins (rn # rns)) sv =
     (case shutdown_plugin V rn sv of
        (Ok u, sv') \<Rightarrow> (TellingPlugins rns, sv')
      | (r, sv') \<Rightarrow> (TornDown r, leave_registry r sv'))"
| "teardown_step EM V env1 env2 ClosingClient sv =
     (case close_client_step EM env2 sv of (r, sv') \<Rightarrow> (TornDown r, sv'))"
| "teardown_step EM V env1 env2 (TornDown r) sv = (TornDown r, sv)"

text \<open>Own steps and those of the others, in any order.\<close>

inductive teardown ::
  "'k ext_manager \<Rightarrow> 'p plugin \<Rightarrow> lock_env \<Rightarrow> lock_env \<Rightarrow> ('k, 'p) server \<times> bool \<Rightarrow> teardown_point
    \<Rightarrow> ('k, 'p) server \<times> bool \<Rightarrow> teardown_point \<Rightarrow> bool" for EM V env1 env2 where
  here: "teardown EM V env1 env2 s pc s pc"
| own: "teardown EM V env1 env2 s pc (sv, w) pc1 \<Longrightarrow> teardown_step EM V env1 env2 pc1 sv = (pc2, sv') \<Longrightarrow>
    teardown EM V env1 env2 s pc (sv', w) pc2"
| beside: "teardown EM V env1 env2 s pc s1 pc1 \<Longrightarrow> others_step EM V s1 s2 \<Longrightarrow>
    teardown EM V env1 env2 s pc s2 pc1"

text \<open>\<open>shutdown\<close> beside the other threads: it may return \<open>r\<close> and leave the state \<open>s'\<close>.\<close>

inductive shutdown_beside ::
  "'k ext_manager \<Rightarrow> 'p plugin \<Rightarrow> lock_env \<Rightarrow> lock_env \<Rightarrow> ('k, 'p) server \<times> bool
    \<Rightarrow> (unit, error) result \<Rightarrow> ('k, 'p) server \<times> bool \<Rightarrow> bool" for EM V env1 env2 where
  unregistered: "sv_uuid sv = None \<Longrightarrow> shutdown_beside EM V env1 env2 (sv, w) (Ok ()) (sv, w)"
| registered: "sv_uuid sv = Some uuid \<Longrightarrow>
    teardown EM V env1 env2 (sv\<lparr>sv_uuid := None\<rparr>, w) (Deregistering uuid) s' (TornDown r) \<Longrightarrow>
    shutdown_beside EM V env1 env2 (sv, w) r s'"

inductive_cases shutdown_besideE: "shutdown_beside EM V env1 env2 (sv, w) r s'"

section \<open>The shutdown nobody interferes with\<close>

lemma teardown_trans:
  "teardown EM V env1 env2 s1 pc1 s2 pc2 \<Longrightarrow> teardown EM V env1 env2 s pc s1 pc1 \<Longrightarrow> teardown EM V env1 env2 s pc s2 pc2"
  by (induction rule: teardown.induct) (auto intro: teardown.own teardown.beside)

lemmas teardown_own = teardown.own [OF teardown.here]

lemma telling_all:
  "shutdown_each V rns sv = (r, sv') \<Longrightarrow>
    teardown EM V env1 env2 (sv, w) (TellingPlugins rns) (leave_registry r sv', w)
      (case r of Ok u \<Rightarrow> ClosingClient | _ \<Rightarrow> TornDown r)"
proof (induction rns arbitrary: sv)
  case Nil
  then show ?case
    by (auto simp: ret_def intro!: teardown_own)
next
  case (Cons rn rns)
  obtain r1 sv1 where m: "shutdown_plugin V rn sv = (r1, sv1)"
    by (cases "shutdown_plugin V rn sv")
  show ?case
  proof (cases r1)
    case (Ok u)
    then have "teardown EM V env1 env2 (sv, w) (TellingPlugins (rn # rns)) (sv1, w) (TellingPlugins rns)"
      by (intro teardown_own) (simp add: m)
    moreover have "shutdown_each V rns sv1 = (r, sv')"
      using Cons.prems m Ok by (simp add: seq_def bnd_def)
    ultimately show ?thesis
      using teardown_trans [OF Cons.IH] by blast
  qed (use Cons.prems m in \<open>auto simp: seq_def bnd_def intro!: teardown_own\<close>)
qed

lemma shutdown_is_teardown:
  assumes "shutdown EM V env1 env2 sv = (r, sv')"
  shows "shutdown_beside EM V env1 env2 (sv, w) r (sv', w)"
proof (cases "sv_uuid sv")
  case (Some uuid)
  let ?sv = "sv\<lparr>sv_uuid := None\<rparr>" and ?T = "teardown EM V env1 env2"
  obtain r1 sv1 where d: "deregister_step EM env1 uuid ?sv = (r1, sv1)"
    by (cases "deregister_step EM env1 uuid ?sv")
  obtain r2 sv2 where p: "shutdown_plugins_step V (stop_listener_step sv1) = (r2, sv2)"
    by (cases "shutdown_plugins_step V (stop_listener_step sv1)")
  have first: "?T (?sv, w) (Deregistering uuid) (sv1, w) (case r1 of Ok u \<Rightarrow> StoppingListener | _ \<Rightarrow> TornDown r1)"
    by (intro teardown_own) (cases r1, simp_all add: d)
  have second: "?T (sv1, w) StoppingListener (sv2, w) (case r2 of Ok u \<Rightarrow> ClosingClient | _ \<Rightarrow> TornDown r2)"
  proof (rule teardown_trans [OF _ teardown_own])
    let ?sv1 = "stop_listener_step sv1"
    have "?T (?sv1, w) LockingRegistry (?sv1, w)
        (if rg_poisoned (sv_registry ?sv1) then ClosingClient else TellingPlugins (plugin_keys (sv_registry ?sv1)))"
      by (intro teardown_own) simp
    then show "?T (?sv1, w) LockingRegistry (sv2, w) (case r2 of Ok u \<Rightarrow> ClosingClient | _ \<Rightarrow> TornDown r2)"
      using p teardown_trans [OF telling_all]
      by (auto simp: shutdown_plugins_step_def split: if_splits prod.splits)
  qed simp
  have third: "?T (sv2, w) ClosingClient (sv3, w) (TornDown r3)" if "close_client_step EM env2 sv2 = (r3, sv3)" for r3 sv3
    using that by (intro teardown_own) simp
  have "?T (?sv, w) (Deregistering uuid) (sv', w) (TornDown r)"
  proof (cases "is_ok r1")
    case True
    then have first: "?T (?sv, w) (Deregistering uuid) (sv1, w) StoppingListener"
      using first by (cases r1) simp_all
    show ?thesis
      using assms Some d p True second third teardown_trans [OF second first] teardown_trans [OF third]
      by (cases r1; cases r2) (auto simp: shutdown_def bnd_def seq_def)
  qed (use assms Some d first in \<open>cases r1; auto simp: shutdown_def bnd_def\<close>)
  with Some show ?thesis
    by (rule shutdown_beside.registered)
qed (use assms in \<open>auto simp: shutdown_def intro: shutdown_beside.unregistered\<close>)

section \<open>What holds at every point\<close>

abbreviation shutdown_effects :: "(registry_name \<times> string) list \<Rightarrow> effect list" where
  "shutdown_effects \<equiv> map (\<lambda>(r, n). PluginShutdown r n)"

text \<open>Of these plugins, each was told, unless a panic had poisoned its lock.\<close>

definition told :: "effect list \<Rightarrow> (registry_name \<times> string) list \<Rightarrow> 'p registry \<Rightarrow> bool" where
  "told p rns reg \<longleftrightarrow> (\<forall>(r, n) \<in> set rns. \<forall>c. lookup_cell reg r n = Some c \<longrightarrow>
     PluginShutdown r n \<in> set p \<or> ce_poisoned c)"

definition stop_effects :: "('k, 'p) server \<Rightarrow> effect list" where
  "stop_effects sv = (if sv_stop_handle sv then [ListenerStopped] else [])"

text \<open>
  From the server \<open>sv0\<close> on, a shutdown has had the effects \<open>d\<close>, \<open>l\<close>, \<open>p\<close> and \<open>c\<close>: of the
  deregistration, the listener, the plugins and the client.
\<close>

fun torn_point ::
  "('k, 'p) server \<Rightarrow> extension_uuid \<Rightarrow> 'p registry \<Rightarrow> effect list \<Rightarrow> effect list \<Rightarrow> effect list \<Rightarrow> effect list
    \<Rightarrow> teardown_point \<Rightarrow> bool" where
  "torn_point sv0 uuid reg d l p c (Deregistering uuid') = (uuid' = uuid \<and> d = [] \<and> l = [] \<and> p = [] \<and> c = [])"
| "torn_point sv0 uuid reg d l p c StoppingListener = (l = [] \<and> p = [] \<and> c = [])"
| "torn_point sv0 uuid reg d l p c LockingRegistry = (l = stop_effects sv0 \<and> p = [] \<and> c = [])"
| "torn_point sv0 uuid reg d l p c (TellingPlugins rns) = (l = stop_effects sv0 \<and> c = []
     \<and> (\<exists>done. plugin_keys (sv_registry sv0) = done @ rns \<and> subseq p (shutdown_effects done) \<and> told p done reg))"
| "torn_point sv0 uuid reg d l p c ClosingClient = (l = stop_effects sv0 \<and> c = []
     \<and> (rg_poisoned reg \<or> told p (plugin_keys (sv_registry sv0)) reg))"
| "torn_point sv0 uuid reg d l p c (TornDown r) = ((p @ c \<noteq> [] \<longrightarrow> l = stop_effects sv0)
     \<and> (is_ok r \<longrightarrow> l = stop_effects sv0 \<and> (rg_poisoned reg \<or> told p (plugin_keys (sv_registry sv0)) reg)))"

definition torn :: "('k, 'p) server \<Rightarrow> extension_uuid \<Rightarrow> ('k, 'p) server \<Rightarrow> teardown_point \<Rightarrow> bool" where
  "torn sv0 uuid sv pc \<longleftrightarrow> (\<exists>d l p c. sv_trace sv = sv_trace sv0 @ d @ l @ p @ c
     \<and> d \<in> {[], [Deregistered uuid]} \<and> l \<in> {[], [ListenerStopped]}
     \<and> subseq p (shutdown_effects (plugin_keys (sv_registry sv0)))
     \<and> c \<in> {[], [ClientClosed]} \<and> (sv_ownership sv0 = Borrowed \<longrightarrow> c = [])
     \<and> torn_point sv0 uuid (sv_registry sv) d l p c pc)"

text \<open>What the phases leave alone, and the stop handle before it is used.\<close>

definition torn_frame :: "('k, 'p) server \<Rightarrow> ('k, 'p) server \<Rightarrow> teardown_point \<Rightarrow> bool" where
  "torn_frame sv0 sv pc \<longleftrightarrow> sv_uuid sv = sv_uuid sv0 \<and> sv_rx sv = sv_rx sv0 \<and> sv_ownership sv = sv_ownership sv0
     \<and> plugin_keys (sv_registry sv) = plugin_keys (sv_registry sv0)
     \<and> ((\<exists>u. pc = Deregistering u) \<or> pc = StoppingListener \<longrightarrow> sv_stop_handle sv = sv_stop_handle sv0)"

lemma told_mono: "told p rns reg \<Longrightarrow> registry_kept reg reg' \<Longrightarrow> set p \<subseteq> set p' \<Longrightarrow> told p' rns reg'"
  unfolding told_def registry_kept_def by (fastforce split: prod.splits)

lemma torn_point_kept:
  "torn_point sv0 uuid reg d l p c pc \<Longrightarrow> registry_kept reg reg' \<Longrightarrow> rg_poisoned reg' = rg_poisoned reg \<Longrightarrow>
    torn_point sv0 uuid reg' d l p c pc"
  by (cases pc) (auto intro: told_mono)

lemma torn_beside:
  assumes "others_step EM V s s'" and "torn sv0 uuid (fst s) pc" and "torn_frame sv0 (fst s) pc"
  shows "torn sv0 uuid (fst s') pc \<and> torn_frame sv0 (fst s') pc"
proof -
  note f = others_step_frame [OF assms(1)] and k = others_step_kept [OF assms(1)]
  have "torn sv0 uuid (fst s') pc"
    using assms(2) torn_point_kept [OF _ k [THEN conjunct1] k [THEN conjunct2]] f
    unfolding torn_def same_frame_def by metis
  moreover have "torn_frame sv0 (fst s') pc"
    using assms(3) f k by (simp add: torn_frame_def same_frame_def registry_kept_def)
  ultimately show ?thesis ..
qed

text \<open>One plugin is told, or passed over because its lock is poisoned.\<close>

lemma shutdown_plugin_told:
  assumes "shutdown_plugin V (r, n) sv = (res, sv')"
  shows "registry_kept (sv_registry sv) (sv_registry sv')"
    and "rg_poisoned (sv_registry sv') = rg_poisoned (sv_registry sv)"
    and "\<exists>e. sv_trace sv' = sv_trace sv @ e \<and> e \<in> {[], [PluginShutdown r n]} \<and> told e [(r, n)] (sv_registry sv')"
proof -
  show "registry_kept (sv_registry sv) (sv_registry sv')"
    using assms by (auto simp: shutdown_plugin_def shutdown_cell_def intro!: registry_kept_set_cell
      split: option.splits prod.splits if_splits result.splits)
  show "rg_poisoned (sv_registry sv') = rg_poisoned (sv_registry sv)"
    using assms by (auto simp: shutdown_plugin_def set_cell_def split: option.splits prod.splits)
  show "\<exists>e. sv_trace sv' = sv_trace sv @ e \<and> e \<in> {[], [PluginShutdown r n]} \<and> told e [(r, n)] (sv_registry sv')"
  proof (cases "lookup_cell (sv_registry sv) r n")
    case (Some c)
    then show ?thesis
      using assms by (cases "ce_poisoned c")
        (auto simp: shutdown_plugin_def shutdown_cell_def told_def lookup_cell_set_cell split: prod.splits)
  qed (use assms in \<open>simp add: shutdown_plugin_def told_def\<close>)
qed

lemma torn_frame_identity:
  "torn_frame sv0 sv pc \<Longrightarrow> same_identity sv sv' \<Longrightarrow> plugin_keys (sv_registry sv') = plugin_keys (sv_registry sv) \<Longrightarrow>
    (pc' = StoppingListener \<Longrightarrow> (\<exists>u. pc = Deregistering u) \<and> sv_stop_handle sv' = sv_stop_handle sv) \<Longrightarrow>
    (\<And>u. pc' \<noteq> Deregistering u) \<Longrightarrow> torn_frame sv0 sv' pc'"
  by (auto simp: torn_frame_def same_identity_def)

lemma leave_registry_keys [simp]: "plugin_keys (sv_registry (leave_registry r sv)) = plugin_keys (sv_registry sv)"
  "sv_trace (leave_registry r sv) = sv_trace sv"
  by (cases r; simp add: plugin_keys_def)+

lemma torn_deregistering:
  assumes "torn sv0 uuid sv (Deregistering u)" and "torn_frame sv0 sv (Deregistering u)"
    and "teardown_step EM V env1 env2 (Deregistering u) sv = (pc', sv')"
  shows "torn sv0 uuid sv' pc' \<and> torn_frame sv0 sv' pc'"
proof -
  obtain r where d: "deregister_step EM env1 u sv = (r, sv')"
    and pc': "pc' = (case r of Ok x \<Rightarrow> StoppingListener | _ \<Rightarrow> TornDown r)"
    using assms(3) by (auto split: prod.splits result.splits)
  have u: "u = uuid" and t: "sv_trace sv = sv_trace sv0"
    using assms(1) by (auto simp: torn_def)
  obtain e where "e \<in> {[], [Deregistered uuid]}" "sv_trace sv' = sv_trace sv0 @ e"
    using deregister_step_effect [OF d] u t by auto
  then have "torn sv0 uuid sv' pc'"
    unfolding torn_def pc' by (intro exI [of _ e] exI [of _ "[]"]) (cases r, auto)
  moreover have "torn_frame sv0 sv' pc'"
    using deregister_step_keeps [OF d] by (intro torn_frame_identity [OF assms(2)]) (auto simp: pc' split: result.splits)
  ultimately show ?thesis ..
qed

lemma torn_telling:
  assumes "torn sv0 uuid sv (TellingPlugins (rn # rns))" and "torn_frame sv0 sv (TellingPlugins (rn # rns))"
    and "teardown_step EM V env1 env2 (TellingPlugins (rn # rns)) sv = (pc', sv')"
  shows "torn sv0 uuid sv' pc' \<and> torn_frame sv0 sv' pc'"
proof -
  obtain r n where rn: "rn = (r, n)" by (cases rn)
  obtain res sv1 where m: "shutdown_plugin V (r, n) sv = (res, sv1)"
    by (cases "shutdown_plugin V (r, n) sv")
  have pc': "pc' = (case res of Ok x \<Rightarrow> TellingPlugins rns | _ \<Rightarrow> TornDown res)" and sv': "sv' = leave_registry res sv1"
    using assms(3) m by (auto simp: rn split: result.splits)
  obtain d l p "done" where t: "sv_trace sv = sv_trace sv0 @ d @ l @ p" "l = stop_effects sv0"
    "d \<in> {[], [Deregistered uuid]}" "l \<in> {[], [ListenerStopped]}" and
    k: "plugin_keys (sv_registry sv0) = done @ (r, n) # rns" "subseq p (shutdown_effects done)" "told p done (sv_registry sv)"
    using assms(1) by (auto simp: torn_def rn)
  obtain e where e: "sv_trace sv1 = sv_trace sv @ e" "e \<in> {[], [PluginShutdown r n]}" "told e [(r, n)] (sv_registry sv1)"
    using shutdown_plugin_told(3) [OF m] by blast
  have p: "subseq (p @ e) (shutdown_effects (done @ [(r, n)]))"
    using k(2) e(2) by (auto intro: list_emb_append_mono subseq_rev_drop_many)
  have "subseq (p @ e) (shutdown_effects (plugin_keys (sv_registry sv0)))"
    by (rule subseq_order.trans [OF p prefix_imp_subseq]) (simp add: k(1) prefix_def)
  moreover have "torn_point sv0 uuid (sv_registry sv') d l (p @ e) [] pc'"
  proof (cases res)
    case (Ok x)
    have "told (p @ e) (done @ [(r, n)]) (sv_registry sv1)"
      using told_mono [OF k(3) shutdown_plugin_told(1) [OF m], of "p @ e"] e(3) by (auto simp: told_def)
    then show ?thesis
      using k(1) p t(2) by (auto simp: pc' sv' Ok intro!: exI [of _ "done @ [(r, n)]"])
  qed (simp_all add: pc' t(2))
  moreover have "sv_trace sv' = sv_trace sv0 @ d @ l @ (p @ e) @ []"
    using t(1) e(1) by (simp add: sv')
  ultimately have "torn sv0 uuid sv' pc'"
    using t(3,4) unfolding torn_def by blast
  moreover have "same_identity sv sv'"
    using only_plugins_keeps(7) [OF only_plugins_trans [OF shutdown_plugin_frame [of sv V "(r, n)"] leave_registry_frame [where r = res]]]
    by (simp add: m sv')
  then have "torn_frame sv0 sv' pc'"
    using shutdown_plugin_told(1) [OF m]
    by (intro torn_frame_identity [OF assms(2)]) (auto simp: pc' sv' registry_kept_def split: result.splits)
  ultimately show ?thesis ..
qed

lemma torn_closing:
  assumes "torn sv0 uuid sv ClosingClient" and "torn_frame sv0 sv ClosingClient"
    and "close_client_step EM env sv = (r, sv')"
  shows "torn sv0 uuid sv' (TornDown r) \<and> torn_frame sv0 sv' (TornDown r)"
proof -
  have o: "sv_ownership sv = sv_ownership sv0"
    using assms(2) by (simp add: torn_frame_def)
  have reg: "sv_registry sv' = sv_registry sv"
    using close_client_step_keeps [OF assms(3)] by simp
  obtain c where "sv_trace sv' = sv_trace sv @ c" "c \<in> {[], [ClientClosed]}" "sv_ownership sv0 = Borrowed \<longrightarrow> c = []"
    using assms(3) o by (auto simp: close_client_step_def split: if_splits lock_outcome.splits option.splits)
  moreover obtain d l p where "sv_trace sv = sv_trace sv0 @ d @ l @ p" "l = stop_effects sv0"
    "d \<in> {[], [Deregistered uuid]}" "l \<in> {[], [ListenerStopped]}"
    "subseq p (shutdown_effects (plugin_keys (sv_registry sv0)))"
    "rg_poisoned (sv_registry sv) \<or> told p (plugin_keys (sv_registry sv0)) (sv_registry sv)"
    using assms(1) by (auto simp: torn_def)
  ultimately have "torn sv0 uuid sv' (TornDown r)"
    unfolding torn_def reg by (intro exI [of _ d] exI [of _ l] exI [of _ p] exI [of _ c]) simp
  moreover have "torn_frame sv0 sv' (TornDown r)"
    using close_client_step_keeps [OF assms(3)] by (intro torn_frame_identity [OF assms(2)]) simp_all
  ultimately show ?thesis ..
qed

lemma torn_mono:
  assumes "torn sv0 uuid sv pc"
    and "\<And>d l p c. torn_point sv0 uuid (sv_registry sv) d l p c pc \<Longrightarrow> torn_point sv0 uuid (sv_registry sv) d l p c pc'"
  shows "torn sv0 uuid sv pc'"
proof -
  obtain d l p c where "sv_trace sv = sv_trace sv0 @ d @ l @ p @ c \<and> d \<in> {[], [Deregistered uuid]}
      \<and> l \<in> {[], [ListenerStopped]} \<and> subseq p (shutdown_effects (plugin_keys (sv_registry sv0)))
      \<and> c \<in> {[], [ClientClosed]} \<and> (sv_ownership sv0 = Borrowed \<longrightarrow> c = [])"
    and "torn_point sv0 uuid (sv_registry sv) d l p c pc"
    using assms(1) unfolding torn_def by blast
  with assms(2) show ?thesis
    unfolding torn_def by blast
qed

lemma torn_stopping:
  assumes "torn sv0 uuid sv StoppingListener" and "torn_frame sv0 sv StoppingListener"
  shows "torn sv0 uuid (stop_listener_step sv) LockingRegistry \<and> torn_frame sv0 (stop_listener_step sv) LockingRegistry"
proof -
  have h: "sv_stop_handle sv = sv_stop_handle sv0"
    using assms(2) by (simp add: torn_frame_def)
  obtain d where "sv_trace sv = sv_trace sv0 @ d" "d \<in> {[], [Deregistered uuid]}"
    using assms(1) by (auto simp: torn_def)
  then have "torn sv0 uuid (stop_listener_step sv) LockingRegistry"
    unfolding torn_def
    by (intro exI [of _ d] exI [of _ "stop_effects sv0"] exI [of _ "[]"]) (simp add: stop_effects_def stop_listener_step_def h)
  moreover have "torn_frame sv0 (stop_listener_step sv) LockingRegistry"
    by (rule torn_frame_identity [OF assms(2)]) simp_all
  ultimately show ?thesis ..
qed

lemma torn_own:
  assumes "torn sv0 uuid sv pc" and "torn_frame sv0 sv pc" and "teardown_step EM V env1 env2 pc sv = (pc', sv')"
  shows "torn sv0 uuid sv' pc' \<and> torn_frame sv0 sv' pc'"
proof (cases pc)
  case (Deregistering u)
  then show ?thesis
    using torn_deregistering assms by blast
next
  case StoppingListener
  then show ?thesis
    using assms torn_stopping by auto
next
  case LockingRegistry
  then have k: "plugin_keys (sv_registry sv) = plugin_keys (sv_registry sv0)"
    using assms(2) by (simp add: torn_frame_def)
  have "torn sv0 uuid sv pc'"
    using assms(3) k unfolding LockingRegistry
    by (intro torn_mono [OF assms(1)]) (auto simp: LockingRegistry told_def split: if_splits)
  then show ?thesis
    using assms(2,3) by (auto simp: torn_frame_def LockingRegistry split: if_splits)
next
  case (TellingPlugins rns)
  show ?thesis
  proof (cases rns)
    case Nil
    have "torn sv0 uuid sv ClosingClient"
      by (rule torn_mono [OF assms(1)]) (auto simp: TellingPlugins Nil)
    then show ?thesis
      using assms(2,3) by (auto simp: torn_frame_def TellingPlugins Nil)
  next
    case (Cons rn rns)
    then show ?thesis
      using TellingPlugins torn_telling assms by blast
  qed
next
  case ClosingClient
  then obtain r where "close_client_step EM env2 sv = (r, sv')" and "pc' = TornDown r"
    using assms(3) by (auto split: prod.splits)
  then show ?thesis
    using torn_closing assms(1,2) ClosingClient by blast
qed (use assms in auto)

lemma teardown_torn:
  assumes "teardown EM V env1 env2 s pc s' pc'" and "torn sv0 uuid (fst s) pc" and "torn_frame sv0 (fst s) pc"
  shows "torn sv0 uuid (fst s') pc' \<and> torn_frame sv0 (fst s') pc'"
  using assms
proof (induction rule: teardown.induct)
  case (own s pc sv w pc1 pc2 sv')
  from own.IH own.prems have "torn sv0 uuid sv pc1" "torn_frame sv0 sv pc1"
    by simp_all
  from torn_own [OF this own.hyps(2)] show ?case
    by simp
next
  case (beside s pc s1 pc1 s2)
  then show ?case
    using torn_beside by blast
qed simp

section \<open>The listener, the client and the signal meanwhile\<close>

text \<open>A listener that was told to stop stays stopped, whatever else it does.\<close>

fun listener_at :: "teardown_point \<Rightarrow> listener \<Rightarrow> bool \<Rightarrow> bool" where
  "listener_at (Deregistering u) l has_handle = has_handle"
| "listener_at StoppingListener l has_handle = has_handle"
| "listener_at (TornDown r) l has_handle = (is_ok r \<longrightarrow> l_stop l)"
| "listener_at _ l has_handle = l_stop l"

definition listener_torn :: "('k, 'p) server \<Rightarrow> teardown_point \<Rightarrow> bool" where
  "listener_torn sv pc \<longleftrightarrow> (\<exists>l. sv_listener sv = Some l \<and> listening MAX_CONCURRENT_CONNECTIONS l
     \<and> listener_at pc l (sv_stop_handle sv))"

lemma listener_at_mono: "listener_at pc l h \<Longrightarrow> (l_stop l \<Longrightarrow> l_stop l') \<Longrightarrow> listener_at pc l' h"
  by (cases pc) auto

lemma listener_torn_beside:
  assumes "others_step EM V s s'" and "listener_torn (fst s) pc"
  shows "listener_torn (fst s') pc"
proof -
  obtain l where l: "sv_listener (fst s) = Some l" "listening MAX_CONCURRENT_CONNECTIONS l"
    using assms(2) by (auto simp: listener_torn_def)
  obtain l' where l': "sv_listener (fst s') = Some l'" "l' = l \<or> listen_step l l'"
    using others_step_listener [OF assms(1) l(1)] by metis
  have "listening MAX_CONCURRENT_CONNECTIONS l'" "l_stop l \<Longrightarrow> l_stop l'"
    using l(2) l'(2) listening.step listen_step_stop by metis+
  then show ?thesis
    using assms(2) l(1) l'(1) others_step_frame [OF assms(1)] listener_at_mono [of pc l _ l']
    by (simp add: listener_torn_def same_frame_def)
qed

lemma listener_torn_same:
  "listener_torn sv pc \<Longrightarrow> sv_listener sv' = sv_listener sv \<Longrightarrow> sv_stop_handle sv' = sv_stop_handle sv \<Longrightarrow>
    (\<And>l. listener_at pc l (sv_stop_handle sv) \<Longrightarrow> listener_at pc' l (sv_stop_handle sv)) \<Longrightarrow> listener_torn sv' pc'"
  unfolding listener_torn_def by auto

lemma listener_torn_own:
  assumes "listener_torn sv pc" and "teardown_step EM V env1 env2 pc sv = (pc', sv')"
  shows "listener_torn sv' pc'"
proof (cases pc)
  case (Deregistering u)
  then obtain r where d: "deregister_step EM env1 u sv = (r, sv')"
    and pc': "pc' = (case r of Ok x \<Rightarrow> StoppingListener | _ \<Rightarrow> TornDown r)"
    using assms(2) by (auto split: prod.splits result.splits)
  show ?thesis
    using deregister_step_keeps [OF d] Deregistering
    by (intro listener_torn_same [OF assms(1)]) (auto simp: pc' split: result.splits)
next
  case StoppingListener
  then obtain l where "sv_listener sv = Some l" "listening MAX_CONCURRENT_CONNECTIONS l" "sv_stop_handle sv"
    using assms(1) by (auto simp: listener_torn_def)
  moreover from this have "listening MAX_CONCURRENT_CONNECTIONS (stop_handle_stop l)"
    using listening.step listen_step.stop by blast
  ultimately show ?thesis
    using assms(2) StoppingListener by (auto simp: listener_torn_def stop_listener_step_def stop_handle_stop_def)
next
  case LockingRegistry
  then show ?thesis
    using assms by (auto simp: listener_torn_def split: if_splits)
next
  case (TellingPlugins rns)
  show ?thesis
  proof (cases rns)
    case (Cons rn rns)
    obtain res sv1 where m: "shutdown_plugin V rn sv = (res, sv1)"
      by (cases "shutdown_plugin V rn sv")
    then have sv': "sv' = leave_registry res sv1" and pc': "pc' = (case res of Ok x \<Rightarrow> TellingPlugins rns | _ \<Rightarrow> TornDown res)"
      using assms(2) by (auto simp: TellingPlugins Cons split: result.splits)
    have "only_plugins sv sv'"
      using only_plugins_trans [OF shutdown_plugin_frame [of sv V rn] leave_registry_frame [where r = res]] by (simp add: m sv')
    from only_plugins_keeps [OF this] show ?thesis
      by (intro listener_torn_same [OF assms(1)]) (auto simp: pc' TellingPlugins Cons split: result.splits)
  qed (use assms in \<open>auto simp: listener_torn_def TellingPlugins\<close>)
next
  case ClosingClient
  then obtain r where c: "close_client_step EM env2 sv = (r, sv')" and pc': "pc' = TornDown r"
    using assms(2) by (auto split: prod.splits)
  show ?thesis
    using close_client_step_keeps [OF c] by (intro listener_torn_same [OF assms(1)]) (auto simp: pc' ClosingClient)
qed (use assms in auto)

lemma teardown_listener:
  assumes "teardown EM V env1 env2 s pc s' pc'" and "listener_torn (fst s) pc"
  shows "listener_torn (fst s') pc'"
  using assms
proof (induction rule: teardown.induct)
  case (own s pc sv w pc1 pc2 sv')
  from own.IH own.prems have "listener_torn sv pc1"
    by simp
  from listener_torn_own [OF this own.hyps(2)] show ?case
    by simp
next
  case (beside s pc s1 pc1 s2)
  then show ?case
    using listener_torn_beside by blast
qed simp

text \<open>With a client that answers and plugins whose shutdown returns, every interleaving ends well.\<close>

context answering_manager
begin

definition sure_point :: "('k, 'p) server \<Rightarrow> teardown_point \<Rightarrow> bool" where
  "sure_point sv pc \<longleftrightarrow> (\<forall>u. pc = Deregistering u \<longrightarrow> (\<forall>k. sv_client sv = Some k \<longrightarrow> sane k))
     \<and> (\<forall>r. pc = TornDown r \<longrightarrow> r = Ok ())"

lemma sure_point_own:
  assumes "ticks env1" and "ticks env2" and "returning_shutdown V"
    and "sure_point sv pc" and "teardown_step EM V env1 env2 pc sv = (pc', sv')"
  shows "sure_point sv' pc'"
proof (cases pc)
  case (Deregistering u)
  then obtain sv1 where "deregister_step EM env1 u sv = (Ok (), sv1)"
    using deregister_step_Ok [OF assms(1), of sv u] assms(4) by (auto simp: sure_point_def)
  then show ?thesis
    using assms(5) by (auto simp: Deregistering sure_point_def)
next
  case (TellingPlugins rns)
  show ?thesis
  proof (cases rns)
    case (Cons rn rns)
    obtain sv1 where "shutdown_plugin V rn sv = (Ok (), sv1)"
      using returning_shutdown.shutdown_plugin_returns [OF assms(3)] by blast
    then show ?thesis
      using assms(5) by (auto simp: TellingPlugins Cons sure_point_def)
  qed (use assms(5) in \<open>auto simp: TellingPlugins sure_point_def\<close>)
next
  case ClosingClient
  then show ?thesis
    using assms(5) close_client_step_Ok [OF assms(2), of EM sv] by (auto simp: sure_point_def)
qed (use assms(4,5) in \<open>auto simp: sure_point_def split: if_splits\<close>)

lemma teardown_sure:
  assumes "teardown EM V env1 env2 s pc s' pc'" and "ticks env1" and "ticks env2" and "returning_shutdown V"
    and "sure_point (fst s) pc"
  shows "sure_point (fst s') pc'"
  using assms
proof (induction rule: teardown.induct)
  case (own s pc sv w pc1 pc2 sv')
  then have "sure_point sv pc1"
    by simp
  from sure_point_own [OF own.prems(1-3) this own.hyps(2)] show ?case
    by simp
next
  case (beside s pc s1 pc1 s2)
  then have s1: "sure_point (fst s1) pc1"
    by simp
  have o: "others EM V s1 s2"
    by (rule others.trans [OF others.refl beside.hyps(2)])
  show ?case
    using s1 others_sane [OF o] by (auto simp: sure_point_def)
qed simp

lemma shutdown_beside_returns:
  assumes "shutdown_beside EM V env1 env2 (sv, w) r s'" and "ticks env1" and "ticks env2"
    and "returning_shutdown V" and "\<And>k. sv_client sv = Some k \<Longrightarrow> sane k"
  shows "r = Ok ()"
proof -
  have "r = Ok ()" if t: "teardown EM V env1 env2 (sv\<lparr>sv_uuid := None\<rparr>, w) (Deregistering uuid) s' (TornDown r)" for uuid
    using teardown_sure [OF t assms(2-4)] assms(5) by (simp add: sure_point_def)
  then show ?thesis
    using assms(1) by (auto elim: shutdown_besideE)
qed

end

text \<open>However it ended, the server is not registered any more.\<close>

lemma shutdown_beside_unregisters:
  assumes "shutdown_beside EM V env1 env2 (sv, w) r (sv', w')"
  shows "sv_uuid sv' = None"
  using assms
proof (cases rule: shutdown_beside.cases)
  case (registered uuid)
  let ?sv = "sv\<lparr>sv_uuid := None\<rparr>"
  have "torn ?sv uuid ?sv (Deregistering uuid)" "torn_frame ?sv ?sv (Deregistering uuid)"
    by (simp_all add: torn_def torn_frame_def)
  with teardown_torn [OF registered(2)] show ?thesis
    by (simp add: torn_frame_def)
qed simp

section \<open>Properties\<close>

text \<open>For the witness: a plugin that notes its shutdown and the calls after it.\<close>

definition noting_plugin :: "string plugin" where
  "noting_plugin = echo_plugin\<lparr>pl_call := \<lambda>req p. (Ok [req], p @ ''!''), pl_shutdown := \<lambda>p. (Ok (), ''down'')\<rparr>"

lemma call_after_shutdown:
  "\<exists>sv'. shutdown_beside mock_ext_manager noting_plugin free_lock free_lock (registered_server, True) (Ok ()) (sv', True)
    \<and> map_option ce_plugin (lookup_cell (sv_registry sv') RTable ''a'') = Some ''down!''"
proof -
  let ?T = "teardown mock_ext_manager noting_plugin free_lock free_lock"
  let ?sv = "registered_server\<lparr>sv_uuid := None\<rparr>"
  obtain sv1 where d: "deregister_step mock_ext_manager free_lock (I64 7) ?sv = (Ok (), sv1)"
    and reg: "sv_registry sv1 = echo_registry"
    by (simp add: deregister_step_def free_lock_locked registered_server_def on_client_lock_def mock_defs)
  let ?sv1 = "stop_listener_step sv1"
  have "?T (?sv, True) (Deregistering (I64 7)) (?sv1, True) LockingRegistry"
    by (rule teardown.own [OF teardown_own [where pc = "Deregistering (I64 7)"]]) (auto simp: d)
  then have 1: "?T (?sv, True) (Deregistering (I64 7)) (?sv1, True) (TellingPlugins [(RTable, ''a''), (RTable, ''b'')])"
    by (rule teardown.own) (simp add: reg echo_registry_eq plugin_keys_def)
  obtain sv2 where e: "shutdown_each noting_plugin [(RTable, ''a''), (RTable, ''b'')] ?sv1 = (Ok (), sv2)"
    and reg2: "sv_registry sv2 = \<lparr>rg_map = [(RTable, [(''a'', \<lparr>ce_plugin = ''down'', ce_poisoned = False\<rparr>),
     (''b'', \<lparr>ce_plugin = ''down'', ce_poisoned = False\<rparr>)])], rg_poisoned = False\<rparr>"
    by (simp add: seq_def bnd_def ret_def shutdown_plugin_def shutdown_cell_def reg echo_registry_eq lookup_cell_def
      plugins_of_def noting_plugin_def set_cell_def modify_entry_def)
  have 2: "?T (?sv, True) (Deregistering (I64 7)) (sv2, True) ClosingClient"
    using teardown_trans [OF telling_all [OF e] 1] by simp
  let ?sv3 = "on_handler (ext_handle_call noting_plugin ''table'' ''a'' []) sv2"
  have reg3: "map_option ce_plugin (lookup_cell (sv_registry ?sv3) RTable ''a'') = Some ''down!''"
    by (simp add: on_handler_def ext_handle_call_def registry_name_from_str_def reg2 call_locked_def noting_plugin_def
      set_cell_def modify_entry_def lookup_cell_def plugins_of_def)
  have 3: "?T (?sv, True) (Deregistering (I64 7)) (?sv3, True) ClosingClient"
    by (rule teardown.beside [OF 2 others_step.osquery_call])
  have "ticks free_lock"
    by (simp add: ticks_def free_lock_def)
  then obtain sv4 where c: "close_client_step mock_ext_manager free_lock ?sv3 = (Ok (), sv4)"
    using close_client_step_Ok by blast
  have "?T (?sv, True) (Deregistering (I64 7)) (sv4, True) (TornDown (Ok ()))"
    by (rule teardown.own [OF 3]) (simp add: c)
  then have "shutdown_beside mock_ext_manager noting_plugin free_lock free_lock (registered_server, True) (Ok ()) (sv4, True)"
    by (intro shutdown_beside.registered [where uuid = "I64 7"]) (simp_all add: registered_server_def)
  moreover have "sv_registry sv4 = sv_registry ?sv3"
    using close_client_step_keeps [OF c] by simp
  ultimately show ?thesis
    using reg3 by (intro exI [of _ sv4]) simp
qed



end
