(* ===== verification/ServerRun.thy ===== *)
theory ServerRun
  imports Teardown
begin

text \<open>
  \<open>src/src/server/manager.rs\<close>: running the server. \<open>run\<close> starts it, waits for the first
  signal while the other threads take steps, shuts it down beside them and returns what the
  signal says.
\<close>

section \<open>Running\<close>

fun signal_result :: "error option \<Rightarrow> (unit, error) result" where
  "signal_result (Some e) = Err e"
| "signal_result None = Ok ()"

text \<open>
  After the shutdown the ping watcher is collected or detached, and the receiver goes with
  the frame: \<open>r\<close> is how the shutdown ended.
\<close>

definition finish_run ::
  "(unit, error) result \<Rightarrow> error option \<Rightarrow> (('k, 'p) server, unit, error) act" where
  "finish_run r signal sv =
     (bind_result r (\<lambda>_. signal_result signal), sv\<lparr>sv_channel := (sv_channel sv)\<lparr>ch_open := False\<rparr>\<rparr>)"

definition receive_signal :: "('k, 'p) server \<Rightarrow> ('k, 'p) server" where
  "receive_signal sv = sv\<lparr>sv_channel := (sv_channel sv)\<lparr>ch_buffer := None\<rparr>\<rparr>"

definition begin_run ::
  "'k ext_manager \<Rightarrow> 'p plugin \<Rightarrow> (unit, io_error) result \<Rightarrow> (('k, 'p) server, unit, error) act" where
  "begin_run EM V rt sv =
     (if \<not> sv_rx sv then (Err (Other ''run() has already been called''), sv)
      else (case start EM V rt (sv\<lparr>sv_rx := False\<rparr>) of
          (Ok u, sv') \<Rightarrow> (Ok (), sv')
        | (r, sv') \<Rightarrow> (r, sv'\<lparr>sv_channel := (sv_channel sv')\<lparr>ch_open := False\<rparr>\<rparr>)))"

text \<open>
  \<open>runs EM V rt env1 env2 sv r sv'\<close>: a call of \<open>run\<close> on \<open>sv\<close> may return \<open>r\<close> and leave
  \<open>sv'\<close>. The other threads take steps until a signal is there, during the shutdown, and while
  \<open>run\<close> waits for the watcher afterwards.
\<close>

inductive runs ::
  "'k ext_manager \<Rightarrow> 'p plugin \<Rightarrow> (unit, io_error) result \<Rightarrow> lock_env \<Rightarrow> lock_env \<Rightarrow> ('k, 'p) server
    \<Rightarrow> (unit, error) result \<Rightarrow> ('k, 'p) server \<Rightarrow> bool" for EM V rt env1 env2 where
  not_begun: "begin_run EM V rt sv = (r, sv') \<Longrightarrow> \<not> is_ok r \<Longrightarrow> runs EM V rt env1 env2 sv r sv'"
| finished: "begin_run EM V rt sv = (Ok (), sv1) \<Longrightarrow> others EM V (sv1, True) (sv2, w) \<Longrightarrow>
    ch_buffer (sv_channel sv2) = Some signal \<Longrightarrow>
    shutdown_beside EM V env1 env2 (receive_signal sv2, w) ended (sv3, w3) \<Longrightarrow>
    others EM V (sv3, w3) (sv4, w4) \<Longrightarrow> finish_run ended signal sv4 = (r, sv') \<Longrightarrow>
    runs EM V rt env1 env2 sv r sv'"

inductive_cases runsE: "runs EM V rt env1 env2 sv r sv'"

text \<open>The signal thread's wait; \<open>select!\<close> takes whichever future completes.\<close>

datatype signal_event = CtrlC "(unit, io_error) result" | SigTerm

fun wait_for_shutdown_signal :: "(unit, io_error) result \<Rightarrow> signal_event \<Rightarrow> (unit, error) result" where
  "wait_for_shutdown_signal (Ok u) (CtrlC r) =
     map_err (\<lambda>e. error_context (error_from_io e) ''failed to wait for SIGINT'') r"
| "wait_for_shutdown_signal (Ok u) SigTerm = Ok ()"
| "wait_for_shutdown_signal r ev =
     map_err (\<lambda>e. error_context (error_from_io e) ''failed to register SIGTERM handler'') r"

text \<open>On Windows only Ctrl+C is waited for.\<close>

definition wait_for_ctrl_c :: "(unit, io_error) result \<Rightarrow> (unit, error) result" where
  "wait_for_ctrl_c r = map_err (\<lambda>e. error_context (error_from_io e) ''failed to wait for Ctrl+C'') r"

text \<open>
  What the thread of \<open>run_with_signal_handling\<close> does to the server that runs beside it:
  \<open>rt\<close> is the outcome of building its runtime, \<open>waited\<close> that of the platform's wait.
\<close>

fun signal_thread ::
  "(unit, io_error) result \<Rightarrow> (unit, error) result \<Rightarrow> ('k, 'p) server \<Rightarrow> ('k, 'p) server" where
  "signal_thread (Err e) waited sv = send_signal (Some (error_from_io e)) sv"
| "signal_thread (Ok u) (Ok v) sv = send_signal None sv"
| "signal_thread (Ok u) (Err e) sv = send_signal (Some e) sv"
| "signal_thread rt waited sv = sv"

text \<open>Whatever the outcomes are, that is a step beside the run, or none.\<close>

lemma signal_thread_steps: "others EM V (sv, w) (signal_thread rt waited sv, w)"
proof -
  have "others EM V (sv, w) (send_signal v sv, w)" for v
    by (cases v) (auto intro: others.trans [OF others.refl] others_step.signal_caught others_step.signal_failed)
  then show ?thesis
    by (cases "(rt, waited, sv)" rule: signal_thread.cases) (auto intro: others.refl)
qed

section \<open>Starting and ending\<close>

lemma begin_run_Ok:
  assumes "begin_run EM V rt sv = (Ok u, sv')"
  obtains uuid where "sv_rx sv" "\<not> sv_rx sv'" "sv_uuid sv' = Some uuid" "sv_stop_handle sv'"
    "sv_trace sv' = sv_trace sv" "sv_ownership sv' = sv_ownership sv" "sv_client sv' \<noteq> None"
    "sv_listen_path sv' = Some (sv_socket_path sv @ ''.'' @ show_i64 uuid)"
proof -
  have rx: "sv_rx sv" and st: "start EM V rt (sv\<lparr>sv_rx := False\<rparr>) = (Ok u, sv')"
    using assms by (auto simp: begin_run_def split: if_splits prod.splits result.splits)
  from st obtain uuid sv1 where r: "register_extension EM V (sv\<lparr>sv_rx := False\<rparr>) = (Ok uuid, sv1)"
    and sv': "sv' = sv1\<lparr>sv_stop_handle := True, sv_listener := Some new_extension_server\<rparr>"
    by (rule start_Ok)
  show thesis
    using rx register_extension_Ok [OF r] by (intro that [of uuid]) (simp_all add: sv')
qed

lemma begin_run_fails: "begin_run EM V rt sv = (r, sv') \<Longrightarrow> \<not> sv_rx sv \<Longrightarrow> r = Err (Other ''run() has already been called'') \<and> sv' = sv"
  by (simp add: begin_run_def)

lemma runs_begun:
  assumes "runs EM V rt env1 env2 sv r sv'" and "begin_run EM V rt sv = (Ok (), sv1)"
  obtains sv2 w signal ended sv3 w3 sv4 w4 where "others EM V (sv1, True) (sv2, w)"
    "ch_buffer (sv_channel sv2) = Some signal"
    "shutdown_beside EM V env1 env2 (receive_signal sv2, w) ended (sv3, w3)"
    "others EM V (sv3, w3) (sv4, w4)" "finish_run ended signal sv4 = (r, sv')"
  using assms by (auto elim!: runsE)

lemma begin_run_listener:
  "begin_run EM V rt sv = (Ok u, sv1) \<Longrightarrow> sv_listener sv1 = Some new_extension_server"
  by (auto simp: begin_run_def split: if_splits prod.splits result.splits elim!: start_Ok)

lemma begin_run_channel:
  "begin_run EM V rt sv = (Ok u, sv1) \<Longrightarrow> sv_channel sv1 = sv_channel sv"
  by (auto simp: begin_run_def split: if_splits prod.splits result.splits elim!: start_Ok dest: register_extension_Ok(5))

context answering_manager
begin

lemma begin_run_sane:
  assumes "begin_run EM V rt sv = (Ok u, sv1)" and "fit_client sane sendable V sv" and "sv_client sv1 = Some k"
  shows "sane k"
proof -
  have "start EM V rt (sv\<lparr>sv_rx := False\<rparr>) = (Ok u, sv1)"
    using assms(1) by (auto simp: begin_run_def split: if_splits prod.splits result.splits)
  then obtain uuid sv2 where r: "register_extension EM V (sv\<lparr>sv_rx := False\<rparr>) = (Ok uuid, sv2)"
    and "sv1 = sv2\<lparr>sv_stop_handle := True, sv_listener := Some new_extension_server\<rparr>"
    by (rule start_Ok)
  then have "sv_client sv2 = Some k"
    using assms(3) by simp
  from register_extension_sane [OF _ r this] assms(2) show ?thesis by (simp add: fit_client_def)
qed

text \<open>Every signal a run receives can be followed by a shutdown that returns.\<close>

lemma run_shutdown_Ok:
  assumes "begin_run EM V rt sv = (Ok u, sv1)" and "others EM V (sv1, True) (sv2, w)"
    and "ticks env1" and "ticks env2" and "fit_client sane sendable V sv" and "returning_shutdown V"
  shows "\<exists>sv3. shutdown EM V env1 env2 (receive_signal sv2) = (Ok (), sv3)"
  using others_sane [OF assms(2)] begin_run_sane [OF assms(1,5)]
  by (intro shutdown_Ok [OF assms(3,4) _ assms(6)]) (simp add: receive_signal_def)

end

lemma run_with_signal:
  assumes "begin_run EM V rt sv = (Ok (), sv1)" and "others EM V (sv1, True) (sv2, w)"
    and "ch_buffer (sv_channel sv2) = Some signal"
    and "answering_manager EM sane sendable" and "fit_client sane sendable V sv" and "ticks env1" and "ticks env2"
    and "returning_shutdown V"
  shows "\<exists>sv'. runs EM V rt env1 env2 sv (signal_result signal) sv'"
proof -
  obtain sv3 where d: "shutdown EM V env1 env2 (receive_signal sv2) = (Ok (), sv3)"
    using answering_manager.run_shutdown_Ok [OF assms(4,1,2,6,7,5,8)] by blast
  have f: "finish_run (Ok ()) signal sv3 = (signal_result signal, snd (finish_run (Ok ()) signal sv3))"
    by (simp add: finish_run_def)
  from runs.finished [OF assms(1,2,3) shutdown_is_teardown [OF d] others.refl f] show ?thesis by blast
qed

text \<open>A shutdown that returned leaves the server unregistered and its listener told to stop.\<close>

lemma shutdown_beside_Ok:
  assumes "shutdown_beside EM V env1 env2 (sv, w) (Ok u) (sv', w')" and "sv_uuid sv = Some uuid"
    and "sv_stop_handle sv" and "sv_listener sv = Some l" and "listening MAX_CONCURRENT_CONNECTIONS l"
  obtains l' where "sv_uuid sv' = None" "sv_rx sv' = sv_rx sv" "sv_listener sv' = Some l'" "l_stop l'"
    "listening MAX_CONCURRENT_CONNECTIONS l'"
proof -
  let ?sv = "sv\<lparr>sv_uuid := None\<rparr>"
  have t: "teardown EM V env1 env2 (?sv, w) (Deregistering uuid) (sv', w') (TornDown (Ok u))"
    using assms(1,2) by (auto elim: shutdown_besideE)
  have "listener_torn ?sv (Deregistering uuid)"
    using assms(3-5) by (simp add: listener_torn_def)
  then have "listener_torn sv' (TornDown (Ok u))"
    using teardown_listener [OF t] by simp
  moreover have "torn ?sv uuid ?sv (Deregistering uuid)" "torn_frame ?sv ?sv (Deregistering uuid)"
    by (simp_all add: torn_def torn_frame_def)
  then have "torn_frame ?sv sv' (TornDown (Ok u))"
    using teardown_torn [OF t] by simp
  ultimately show thesis
    using that by (auto simp: listener_torn_def torn_frame_def)
qed

section \<open>Properties\<close>

text \<open>
  C30: the first shutdown signal wins. Once a signal waits in the channel, nothing osquery,
  the ping watcher, the listener, a shutdown handle or the signal thread does replaces it,
  and none of them changes what a shutdown relies on: the uuid, the stop handle, the
  ownership and whether there is a client.
\<close>

theorem first_signal_wins:
  assumes "others EM V (sv, w) (sv', w')" and "ch_buffer (sv_channel sv) = Some signal"
  shows "ch_buffer (sv_channel sv') = Some signal \<and> sv_uuid sv' = sv_uuid sv
    \<and> sv_stop_handle sv' = sv_stop_handle sv \<and> sv_ownership sv' = sv_ownership sv
    \<and> (sv_client sv' = None \<longleftrightarrow> sv_client sv = None)"
  using others_signal [OF assms(1)] others_frame [OF assms(1)] assms(2) by (simp add: same_frame_def)

theorem first_signal_wins_witness:
  "ch_buffer (sv_channel (send_signal (Some (Other ''late'')) (send_signal None registered_server))) = Some None"
proof -
  have "others mock_ext_manager echo_plugin (send_signal None registered_server, True)
      (send_signal (Some (Other ''late'')) (send_signal None registered_server), True)"
    by (rule others.trans [OF others.refl others_step.signal_failed])
  from first_signal_wins [OF this, of None] show ?thesis
    by (simp add: send_signal_def channel_send_def registered_server_def new_channel_def)
qed



text \<open>
  A running extension can always be shut down. Whatever the other threads have done
  since the start, after one \<open>shutdown\<close> request of osquery a signal is in the channel, and
  the run can return with it: success, unless another signal was there before.
\<close>

lemma shutdown_request_ends_run:
  assumes "begin_run EM V rt sv = (Ok (), sv1)" and "others EM V (sv1, True) (sv2, w)"
    and "ch_open (sv_channel sv2)" and "ticks env1" and "ticks env2"
    and "answering_manager EM sane sendable" and "fit_client sane sendable V sv" and "returning_shutdown V"
  shows "\<exists>signal sv'. signal = (case ch_buffer (sv_channel sv2) of Some earlier \<Rightarrow> earlier | None \<Rightarrow> None)
    \<and> ch_buffer (sv_channel (on_handler ext_handle_shutdown sv2)) = Some signal
    \<and> runs EM V rt env1 env2 sv (signal_result signal) sv'"
proof -
  let ?sv3 = "on_handler ext_handle_shutdown sv2"
  let ?sig = "case ch_buffer (sv_channel sv2) of Some signal \<Rightarrow> signal | None \<Rightarrow> None"
  have o: "others EM V (sv1, True) (?sv3, w)"
    by (rule others.trans [OF assms(2) others_step.osquery_shutdown])
  have c: "ch_buffer (sv_channel ?sv3) = Some ?sig"
    using assms(3) by (auto simp: on_handler_def ext_handle_shutdown_def channel_send_def split: option.split prod.split)
  show ?thesis
    using c run_with_signal [OF assms(1) o c assms(6,7,4,5,8)] by blast
qed



text \<open>
  C19: a running extension never serves more connections than its limit. Whatever happens
  beside the run, the listener it started has at most \<open>MAX_CONCURRENT_CONNECTIONS\<close> tasks
  spawned or serving, and \<open>active_connections\<close> is at least the number served.
\<close>

theorem run_bounds_connections:
  assumes "begin_run EM V rt sv = (Ok (), sv1)" and "others EM V (sv1, True) (sv2, w)"
  shows "\<exists>l. sv_listener sv2 = Some l \<and> l_spawned l + l_serving l \<le> MAX_CONCURRENT_CONNECTIONS
    \<and> l_serving l \<le> l_active l"
  using others_listening [OF assms(2)] begin_run_listener [OF assms(1)] listening.start listening_bounded
  by (fastforce simp: new_extension_server_def)

theorem run_bounds_connections_witness:
  "\<exists>sv1 l. begin_run mock_ext_manager echo_plugin (Ok ()) registered_server = (Ok (), sv1)
    \<and> sv_listener sv1 = Some l \<and> l_spawned l + l_serving l \<le> 128"
proof -
  obtain sv1 where b: "begin_run mock_ext_manager echo_plugin (Ok ()) registered_server = (Ok (), sv1)"
    by (simp add: begin_run_def start_def bnd_def register_extension_def gen_registry_def echo_registry_eq
      echo_plugin_def registered_server_def on_client_lock_def mock_defs)
  from run_bounds_connections [OF b others.refl] b show ?thesis
    by (auto simp: MAX_CONCURRENT_CONNECTIONS_def)
qed

end
