(* ===== verification/WireStream.thy ===== *)
theory WireStream
  imports BinaryProtocol
begin

text \<open>
  The generated readers on a stream whose bytes arrive in pieces. A reader that runs out
  of bytes sets the end-of-file flag and fails; one that does not run out of bytes does
  the same on every longer input, and leaves the extra bytes alone. Both hold of every
  reader and of the whole processor when they hold of the primitives, which is the
  contract \<open>stream_protocol\<close>. With a primitive that consumes a byte per field, the field
  loops end within their fuel.
\<close>

section \<open>Readers and writers\<close>

definition reader :: "('b chan, 'a, 'e) act \<Rightarrow> bool" where
  "reader m = (\<forall>i out. \<exists>r i' e. m (i, out, False) = (r, (i', out, e)) \<and> (e \<longrightarrow> is_err r)
     \<and> (\<exists>c. i = c @ i') \<and> (\<not> e \<longrightarrow> (\<forall>x. m (i @ x, out, False) = (r, (i' @ x, out, False)))))"

definition writer :: "('b chan, 'a, 'e) act \<Rightarrow> bool" where
  "writer m = (\<exists>r w. (is_ok r \<or> is_err r) \<and> (\<forall>i out e. m (i, out, e) = (r, (i, out @ w, e))))"

text \<open>On inputs shorter than \<open>n\<close> the reader does not run out of fuel.\<close>

definition ends_within :: "nat \<Rightarrow> ('b chan, 'a, 'e) act \<Rightarrow> bool" where
  "ends_within n m = (\<forall>i out. length i < n \<longrightarrow> fst (m (i, out, False)) \<noteq> Diverge)"

text \<open>A reader that succeeds has consumed a byte.\<close>

definition advances :: "('b chan, 'a, 'e) act \<Rightarrow> bool" where
  "advances m = (\<forall>i out x i' out' e. m (i, out, False) = (Ok x, (i', out', e)) \<longrightarrow> length i' < length i)"

named_theorems stream_intros \<open>readers, writers and processors\<close>

lemma readerE:
  assumes "reader m"
  obtains r i' e c where "m (i, out, False) = (r, (i', out, e))" "e \<Longrightarrow> is_err r" "i = c @ i'"
    "\<And>x. \<not> e \<Longrightarrow> m (i @ x, out, False) = (r, (i' @ x, out, False))"
  using assms unfolding reader_def by metis

lemma reader_lift [stream_intros]: "reader (lift_result r)"
  by (auto simp: reader_def lift_result_def intro!: exI [of _ False])

lemma reader_ret [stream_intros]: "reader (ret x)"
  by (auto simp: reader_def ret_def intro!: exI [of _ False])

lemma reader_fail [stream_intros]: "reader (fail x)"
  by (auto simp: reader_def fail_def intro!: exI [of _ False])

lemma reader_panic [stream_intros]: "reader (panic x)"
  by (auto simp: reader_def panic_def intro!: exI [of _ False])

lemma reader_diverge [stream_intros]: "reader diverge"
  by (auto simp: reader_def diverge_def intro!: exI [of _ False])

lemma reader_bnd [stream_intros]:
  assumes "reader m" and "\<And>x. reader (f x)"
  shows "reader (bnd m f)"
  unfolding reader_def
proof (intro allI)
  fix i out
  obtain r i' e c where m: "m (i, out, False) = (r, (i', out, e))" "e \<Longrightarrow> is_err r" "i = c @ i'"
    "\<And>x. \<not> e \<Longrightarrow> m (i @ x, out, False) = (r, (i' @ x, out, False))"
    using assms(1) by (rule readerE) blast
  show "\<exists>r i' e. bnd m f (i, out, False) = (r, (i', out, e)) \<and> (e \<longrightarrow> is_err r)
     \<and> (\<exists>c. i = c @ i') \<and> (\<not> e \<longrightarrow> (\<forall>x. bnd m f (i @ x, out, False) = (r, (i' @ x, out, False))))"
  proof (cases r)
    case (Ok y)
    with m(2) have e: "\<not> e" by auto
    obtain r2 i2 e2 c2 where f: "f y (i', out, False) = (r2, (i2, out, e2))" "e2 \<Longrightarrow> is_err r2"
      "i' = c2 @ i2" "\<And>x. \<not> e2 \<Longrightarrow> f y (i' @ x, out, False) = (r2, (i2 @ x, out, False))"
      using assms(2) by (rule readerE) blast
    show ?thesis
      by (intro exI [of _ r2] exI [of _ i2] exI [of _ e2])
        (use m Ok e f in \<open>auto simp: bnd_def\<close>)
  qed (use m in \<open>auto simp: bnd_def\<close>)
qed

lemma reader_seq [stream_intros]: "reader m \<Longrightarrow> reader k \<Longrightarrow> reader (seq m k)"
  unfolding seq_def by (rule reader_bnd)

lemma reader_if [stream_intros]: "reader m \<Longrightarrow> reader k \<Longrightarrow> reader (if b then m else k)"
  by simp

lemma writer_ret [stream_intros]: "writer (ret x)"
  by (auto simp: writer_def ret_def)

lemma writer_fail [stream_intros]: "writer (fail x)"
  by (auto simp: writer_def fail_def)

lemma writer_bnd [stream_intros]:
  assumes "writer m" and "\<And>x. writer (f x)"
  shows "writer (bnd m f)"
proof -
  obtain r w where m: "is_ok r \<or> is_err r" "\<And>i out e. m (i, out, e) = (r, (i, out @ w, e))"
    using assms(1) unfolding writer_def by blast
  show ?thesis
  proof (cases r)
    case (Ok y)
    obtain r2 w2 where "is_ok r2 \<or> is_err r2" "\<And>i out e. f y (i, out, e) = (r2, (i, out @ w2, e))"
      using assms(2) [of y] unfolding writer_def by blast
    then show ?thesis
      unfolding writer_def by (intro exI [of _ r2] exI [of _ "w @ w2"]) (simp add: bnd_def m Ok)
  qed (use m in \<open>auto simp: writer_def bnd_def\<close>)
qed

lemma writer_seq [stream_intros]: "writer m \<Longrightarrow> writer k \<Longrightarrow> writer (seq m k)"
  unfolding seq_def by (rule writer_bnd)

lemma ends_withinD:
  "ends_within n m \<Longrightarrow> length i < n \<Longrightarrow> m (i, out, False) = (r, s) \<Longrightarrow> r \<noteq> Diverge"
  unfolding ends_within_def by (metis fst_conv)

lemma ends_within_bnd:
  assumes "reader m" and "ends_within n m" and "\<And>x. ends_within n (f x)"
  shows "ends_within n (bnd m f)"
  unfolding ends_within_def
proof (intro allI impI)
  fix i out :: "'a list"
  assume i: "length i < n"
  obtain r i' e c where m: "m (i, out, False) = (r, (i', out, e))" "e \<Longrightarrow> is_err r" "i = c @ i'"
    using assms(1) by (rule readerE) blast
  have "r \<noteq> Diverge"
    using assms(2) i m(1) by (rule ends_withinD)
  then show "fst (bnd m f (i, out, False)) \<noteq> Diverge"
    using m i assms(3) by (cases r; cases e) (auto simp: bnd_def ends_within_def)
qed

lemma ends_within_simple [simp]:
  "ends_within n (ret x)" "ends_within n (fail e)" "ends_within n (panic p)"
  "r \<noteq> Diverge \<Longrightarrow> ends_within n (lift_result r)"
  by (simp_all add: ends_within_def ret_def fail_def panic_def lift_result_def)

lemma ends_within_seq:
  "reader m \<Longrightarrow> ends_within n m \<Longrightarrow> ends_within n k \<Longrightarrow> ends_within n (seq m k)"
  unfolding seq_def by (rule ends_within_bnd)

text \<open>After a step that consumes a byte, a shorter bound is enough.\<close>

lemma ends_within_advance:
  assumes "reader m" "advances m" "ends_within (Suc n) m" and "\<And>x. ends_within n (f x)"
  shows "ends_within (Suc n) (bnd m f)"
  unfolding ends_within_def
proof (intro allI impI)
  fix i out :: "'a list"
  assume i: "length i < Suc n"
  obtain r i' e c where m: "m (i, out, False) = (r, (i', out, e))" "e \<Longrightarrow> is_err r"
    using assms(1) by (rule readerE) blast
  have "r \<noteq> Diverge"
    using assms(3) i m(1) by (rule ends_withinD)
  moreover have "length i' < n" if "r = Ok x" for x
    using assms(2) m(1) that i unfolding advances_def by fastforce
  ultimately show "fst (bnd m f (i, out, False)) \<noteq> Diverge"
    using m assms(4) by (cases r; cases e) (auto simp: bnd_def ends_within_def)
qed

lemma ends_within_mono: "ends_within n m \<Longrightarrow> k \<le> n \<Longrightarrow> ends_within k m"
  by (auto simp: ends_within_def)

section \<open>Processors\<close>

text \<open>
  \<open>transaction P\<close>: running out of bytes leaves the handler's state alone, and otherwise
  the outcome does not depend on the bytes that follow.
\<close>

definition transaction :: "('b chan \<times> 'h, 'a, 'e) act \<Rightarrow> bool" where
  "transaction P = (\<forall>i out h. \<exists>r i' w e h'. P ((i, out, False), h) = (r, ((i', out @ w, e), h'))
     \<and> (\<exists>c. i = c @ i') \<and> (e \<longrightarrow> h' = h \<and> (is_ok r \<or> is_err r))
     \<and> (\<not> e \<longrightarrow> (\<forall>x. P ((i @ x, out, False), h) = (r, ((i' @ x, out @ w, False), h')))))"

lemma transactionE:
  assumes "transaction P"
  obtains r i' w e h' c where "P ((i, out, False), h) = (r, ((i', out @ w, e), h'))" "i = c @ i'"
    "e \<Longrightarrow> h' = h \<and> (is_ok r \<or> is_err r)" "\<And>x. \<not> e \<Longrightarrow> P ((i @ x, out, False), h) = (r, ((i' @ x, out @ w, False), h'))"
  using assms unfolding transaction_def by metis

lemma transaction_fail: "transaction (fail e)"
  by (auto simp: transaction_def fail_def intro!: exI [of _ False])

lemma transaction_if: "transaction P \<Longrightarrow> transaction Q \<Longrightarrow> transaction (if b then P else Q)"
  by simp

section \<open>The contract of a protocol on a stream\<close>

locale stream_protocol =
  fixes T :: "'b chan thrift"
  assumes readers: "reader (rd_message_begin T)" "reader (rd_message_end T)"
      "reader (rd_struct_begin T)" "reader (rd_struct_end T)" "reader (rd_field_begin T)"
      "reader (rd_field_end T)" "reader (rd_list_begin T)" "reader (rd_list_end T)"
      "reader (rd_map_begin T)" "reader (rd_map_end T)" "reader (rd_i32 T)" "reader (rd_i64 T)"
      "reader (rd_string T)" "reader (rd_skip T ty)"
    and writers: "writer (wr_message_begin T mi)" "writer (wr_message_end T)"
      "writer (wr_struct_begin T nm)" "writer (wr_struct_end T)" "writer (wr_field_begin T nm ty fid)"
      "writer (wr_field_end T)" "writer (wr_field_stop T)" "writer (wr_list_begin T ty n)"
      "writer (wr_list_end T)" "writer (wr_map_begin T ty ty' n)" "writer (wr_map_end T)"
      "writer (wr_i32 T v)" "writer (wr_i64 T d)" "writer (wr_string T nm)"
      "writer (wr_app_error T ae)" "writer (wr_flush T)" "writer (t_process_result T mi (Ok ()))"
      "writer (t_process_result T mi (Err te))"
    and ends: "ends_within (t_fuel T) (rd_message_begin T)" "ends_within (t_fuel T) (rd_message_end T)"
      "ends_within (t_fuel T) (rd_struct_begin T)" "ends_within (t_fuel T) (rd_struct_end T)"
      "ends_within (t_fuel T) (rd_field_begin T)" "ends_within (t_fuel T) (rd_field_end T)"
      "ends_within (t_fuel T) (rd_list_begin T)" "ends_within (t_fuel T) (rd_list_end T)"
      "ends_within (t_fuel T) (rd_map_begin T)" "ends_within (t_fuel T) (rd_map_end T)"
      "ends_within (t_fuel T) (rd_i32 T)" "ends_within (t_fuel T) (rd_i64 T)"
      "ends_within (t_fuel T) (rd_string T)" "ends_within (t_fuel T) (rd_skip T ty)"
      "t_field_id T fi \<noteq> Diverge"
    and advance: "advances (rd_message_begin T)" "advances (rd_field_begin T)"
begin

lemma reader_fields:
  assumes "\<And>fid ty x. reader (arms fid ty x)"
  shows "reader (read_fields T n arms x)"
  by (induction n arbitrary: x) (auto intro!: stream_intros readers assms)

lemma reader_struct [stream_intros]:
  "(\<And>fid ty x. reader (arms fid ty x)) \<Longrightarrow> reader (read_struct T arms x)"
  unfolding read_struct_def by (intro stream_intros readers reader_fields) auto

lemma reader_skip_fields: "reader (skip_fields T n)"
  by (induction n) (auto intro!: stream_intros readers)

lemma reader_empty_struct [stream_intros]: "reader (read_empty_struct T)"
  unfolding read_empty_struct_def by (intro stream_intros readers reader_skip_fields)

lemma reader_skip_arm [stream_intros]: "reader (skip_arm T ty x)"
  unfolding skip_arm_def by (intro stream_intros readers)

lemma reader_entries: "reader rk \<Longrightarrow> reader rv \<Longrightarrow> reader (read_entries n rk rv m)"
  by (induction n arbitrary: m) (auto intro!: stream_intros)

lemma reader_btree [stream_intros]: "reader rk \<Longrightarrow> reader rv \<Longrightarrow> reader (read_btree T rk rv)"
  unfolding read_btree_def by (intro stream_intros readers reader_entries)

lemma reader_items: "reader re \<Longrightarrow> reader (read_items n re)"
  by (induction n) (auto intro!: stream_intros)

lemma reader_vec [stream_intros]: "reader re \<Longrightarrow> reader (read_vec T re)"
  unfolding read_vec_def by (intro stream_intros readers reader_items)

lemma reader_string_map [stream_intros]: "reader (read_string_map T)"
  unfolding read_string_map_def by (intro stream_intros readers)

lemma reader_require_field [stream_intros]: "reader (require_field T name v)"
  by (cases v) (auto simp: require_field_def intro!: stream_intros)

lemma reader_call_args [stream_intros]: "reader (read_call_args T)"
  unfolding read_call_args_def
  by (auto intro!: stream_intros readers split: prod.split)

lemma reader_extension_info [stream_intros]: "reader (read_extension_info T)"
  unfolding read_extension_info_def by (auto intro!: stream_intros readers)

lemma reader_plugin_response [stream_intros]: "reader (read_plugin_response T)"
  unfolding read_plugin_response_def by (intro stream_intros)

lemma reader_registry [stream_intros]: "reader (read_registry T)"
  unfolding read_registry_def read_route_table_def by (intro stream_intros readers)

lemma reader_register_args [stream_intros]: "reader (read_register_args T)"
  unfolding read_register_args_def
  by (auto intro!: stream_intros readers split: prod.split)

lemma reader_args [stream_intros]:
  "reader (read_ping_args T)" "reader (read_shutdown_args T)" "reader (read_extensions_args T)"
  "reader (read_options_args T)" "reader (read_deregister_args T)" "reader (read_query_args T)"
  "reader (read_get_query_columns_args T)"
  unfolding read_ping_args_def read_shutdown_args_def read_extensions_args_def read_options_args_def
    read_deregister_args_def read_query_args_def read_get_query_columns_args_def
  by (auto intro!: stream_intros readers)

section \<open>Writers of results\<close>

lemma writer_each: "(\<And>x. writer (w x)) \<Longrightarrow> writer (write_each w xs)"
  by (induction xs) (auto intro!: stream_intros)

lemma writer_fields [stream_intros]:
  "writer body \<Longrightarrow> writer (write_field T nm ty fid body)"
  "(\<And>x. writer (w x)) \<Longrightarrow> writer (write_opt_field T nm ty fid w v)"
  "writer body \<Longrightarrow> writer (write_struct T nm body)"
  unfolding write_field_def write_opt_field_def write_struct_def
  by (auto intro!: stream_intros writers split: option.split)

lemma writer_btree [stream_intros]:
  "(\<And>k. writer (wk k)) \<Longrightarrow> (\<And>v. writer (wv v)) \<Longrightarrow> writer (write_btree T kt vt wk wv m)"
  unfolding write_btree_def by (intro stream_intros writers writer_each) (auto intro!: stream_intros)

lemma writer_vec [stream_intros]: "(\<And>x. writer (w x)) \<Longrightarrow> writer (write_vec T ty w xs)"
  unfolding write_vec_def by (intro stream_intros writers writer_each)

lemma writer_values [stream_intros]:
  "writer (write_status T st)" "writer (write_response T rs)" "writer (write_extension_info T ei)"
  "writer (write_option_info T op)"
  unfolding write_status_def write_response_def write_plugin_response_def write_string_map_def
    write_extension_info_def write_option_info_def
  by (intro stream_intros writers)+

lemma writer_results [stream_intros]:
  "writer (write_ping_result T r1)" "writer (write_call_result T r2)" "writer (write_shutdown_result T r3)"
  "writer (write_extensions_result T r4)" "writer (write_options_result T r5)"
  "writer (write_register_result T r1)" "writer (write_deregister_result T r1)"
  "writer (write_query_result T r2)" "writer (write_get_query_columns_result T r2)"
  unfolding write_ping_result_def write_call_result_def write_shutdown_result_def
    write_extensions_result_def write_options_result_def write_register_result_def
    write_deregister_result_def write_query_result_def write_get_query_columns_result_def
    write_result_def
  by (intro stream_intros writers)+


section \<open>Processing a message\<close>

lemma transaction_method:
  assumes r: "reader rargs" and w: "\<And>v. writer (wres v)"
  shows "transaction (process_method T name sq rargs handle wres)"
  unfolding transaction_def
proof (intro allI)
  fix i out h
  obtain r i' e c where m: "rargs (i, out, False) = (r, (i', out, e))" "e \<Longrightarrow> is_err r" "i = c @ i'"
    "\<And>x. \<not> e \<Longrightarrow> rargs (i @ x, out, False) = (r, (i' @ x, out, False))"
    using r by (rule readerE) blast
  show "\<exists>r i' v e h'. process_method T name sq rargs handle wres ((i, out, False), h) = (r, ((i', out @ v, e), h'))
     \<and> (\<exists>c. i = c @ i') \<and> (e \<longrightarrow> h' = h \<and> (is_ok r \<or> is_err r))
     \<and> (\<not> e \<longrightarrow> (\<forall>x. process_method T name sq rargs handle wres ((i @ x, out, False), h)
          = (r, ((i' @ x, out @ v, False), h'))))"
  proof (cases r)
    case (Ok a)
    with m(2) have e: "\<not> e" by auto
    obtain rh h' where h: "handle a h = (rh, h')"
      by (cases "handle a h")
    have "writer (send_reply T name sq (wres v))" "writer (send_exception T name sq x)" for v x
      unfolding send_reply_def send_exception_def by (intro stream_intros writers w)+
    then have out: "\<exists>r w. \<forall>i out e. send_reply T name sq (wres v) (i, out, e) = (r, (i, out @ w, e))"
      "\<exists>r w. \<forall>i out e. send_exception T name sq x (i, out, e) = (r, (i, out @ w, e))" for v x
      unfolding writer_def by blast+
    show ?thesis
    proof (cases rh)
      case hOk: (Ok v)
      then show ?thesis
        using out(1) [of v] m e h Ok
        by (elim exE) (rule exI, rule exI, rule exI, rule exI [of _ False],
          auto simp: process_method_def bnd_def on_conn_def)
    next
      case hErr: (Err x)
      then show ?thesis
        using out(2) [of "to_app_error T x"] m e h Ok
        by (elim exE) (rule exI, rule exI, rule exI, rule exI [of _ False],
          auto simp: process_method_def bnd_def on_conn_def)
    qed (use m e h Ok in \<open>auto simp: process_method_def bnd_def on_conn_def intro!: exI [of _ False]\<close>)
  qed (use m in \<open>cases e; auto simp: process_method_def bnd_def on_conn_def\<close>)+
qed

lemma transaction_message:
  assumes "\<And>mi. transaction (dispatch mi)"
  shows "transaction (process_message T dispatch)"
  unfolding transaction_def
proof (intro allI)
  fix i out h
  obtain r i1 e c where m: "rd_message_begin T (i, out, False) = (r, (i1, out, e))" "e \<Longrightarrow> is_err r" "i = c @ i1"
    "\<And>x. \<not> e \<Longrightarrow> rd_message_begin T (i @ x, out, False) = (r, (i1 @ x, out, False))"
    using readers(1) by (rule readerE) blast
  show "\<exists>r i' v e h'. process_message T dispatch ((i, out, False), h) = (r, ((i', out @ v, e), h'))
     \<and> (\<exists>c. i = c @ i') \<and> (e \<longrightarrow> h' = h \<and> (is_ok r \<or> is_err r))
     \<and> (\<not> e \<longrightarrow> (\<forall>x. process_message T dispatch ((i @ x, out, False), h)
          = (r, ((i' @ x, out @ v, False), h'))))"
  proof (cases r)
    case (Ok mi)
    with m(2) have e: "\<not> e" by auto
    obtain rd i2 v e2 h' c2 where d: "dispatch mi ((i1, out, False), h) = (rd, ((i2, out @ v, e2), h'))"
      "i1 = c2 @ i2" "e2 \<Longrightarrow> h' = h \<and> (is_ok rd \<or> is_err rd)"
      "\<And>x. \<not> e2 \<Longrightarrow> dispatch mi ((i1 @ x, out, False), h) = (rd, ((i2 @ x, out @ v, False), h'))"
      using assms by (rule transactionE) blast
    have fin: "\<exists>r w. (is_ok r \<or> is_err r)
        \<and> (\<forall>i out e. t_process_result T mi (Ok ()) (i, out, e) = (r, (i, out @ w, e)))"
      "\<exists>r w. (is_ok r \<or> is_err r)
        \<and> (\<forall>i out e. t_process_result T mi (Err x) (i, out, e) = (r, (i, out @ w, e)))" for x
      using writers(17) [of mi] writers(18) [of mi x] unfolding writer_def by blast+
    show ?thesis
    proof (cases rd)
      case rOk: (Ok u)
      then show ?thesis
        using fin(1) m d e Ok
        by (elim exE) (rule exI, rule exI, rule exI, rule exI [of _ e2],
          cases e2; auto simp: process_message_def bnd_def on_conn_def)
    next
      case rErr: (Err x)
      then show ?thesis
        using fin(2) [of x] m d e Ok
        by (elim exE) (rule exI, rule exI, rule exI, rule exI [of _ e2],
          cases e2; auto simp: process_message_def bnd_def on_conn_def)
    qed (use m d e Ok in \<open>cases e2; auto simp: process_message_def bnd_def on_conn_def\<close>)+
  qed (use m in \<open>cases e; auto simp: process_message_def bnd_def on_conn_def\<close>)+
qed

lemma transaction_extension: "transaction (process T H)"
  unfolding process_def
  by (rule transaction_message)
    (auto simp: dispatch_extension_def process_ping_def process_call_def process_shutdown_def
      intro!: transaction_if transaction_fail transaction_method stream_intros)

lemma transaction_manager: "transaction (process_manager T H)"
  unfolding process_manager_def
  by (rule transaction_message)
    (auto simp: dispatch_manager_def process_ping_def process_call_def process_shutdown_def
      process_extensions_def process_options_def process_register_extension_def
      process_deregister_extension_def process_query_def process_get_query_columns_def
      intro!: transaction_if transaction_fail transaction_method stream_intros)

text \<open>A message that is processed has consumed a byte.\<close>

lemma process_message_consumes:
  assumes tr: "\<And>mi. transaction (dispatch mi)"
    and ok: "process_message T dispatch ((i, out, False), h) = (Ok u, ((i', out', e), h'))"
  shows "length i' < length i"
proof -
  obtain r i1 e1 c where m: "rd_message_begin T (i, out, False) = (r, (i1, out, e1))" "e1 \<Longrightarrow> is_err r"
    using readers(1) by (rule readerE) blast
  from ok m obtain mi where mi: "r = Ok mi"
    by (cases r) (auto simp: process_message_def bnd_def on_conn_def)
  then have e1: "\<not> e1" and "length i1 < length i"
    using m advance(1) unfolding advances_def by fastforce+
  obtain rd i2 v e2 h2 c2 where d: "dispatch mi ((i1, out, False), h) = (rd, ((i2, out @ v, e2), h2))"
    "i1 = c2 @ i2"
    using tr by (rule transactionE) blast
  have fin: "t_process_result T mi (Ok ()) (i2, out @ v, e2) = (r, c) \<Longrightarrow> fst c = i2"
    "t_process_result T mi (Err x) (i2, out @ v, e2) = (r, c) \<Longrightarrow> fst c = i2" for x r c
    using writers(17) [of mi] writers(18) [of mi x] by (auto simp: writer_def)
  have "i' = i2"
    using ok m mi e1 d fin
    by (cases rd) (auto simp: process_message_def bnd_def on_conn_def split: prod.splits dest!: fin)
  with d(2) \<open>length i1 < length i\<close> show ?thesis by simp
qed


section \<open>Decoding ends\<close>

lemma ends_fields:
  assumes r: "\<And>fid ty x. reader (arms fid ty x)" and e: "\<And>fid ty x. ends_within (t_fuel T) (arms fid ty x)"
  shows "n \<le> t_fuel T \<Longrightarrow> ends_within n (read_fields T n arms x)"
proof (induction n arbitrary: x)
  case 0
  then show ?case by (simp add: ends_within_def)
next
  case (Suc n)
  then have n: "n \<le> t_fuel T" by simp
  show ?case
    unfolding read_fields.simps
  proof (rule ends_within_advance [OF readers(5) advance(2) ends_within_mono [OF ends(5) Suc.prems]])
    fix fi
    have "ends_within n (bnd (lift_result (t_field_id T fi)) (\<lambda>fid. bnd (arms fid (fi_type fi) x)
        (\<lambda>x'. seq (rd_field_end T) (read_fields T n arms x'))))"
      using n by (intro ends_within_bnd ends_within_seq Suc.IH r readers reader_lift ends_within_simple(4)
        ends ends_within_mono [OF e n] ends_within_mono [OF ends(6) n])
    then show "ends_within n (if fi_type fi = TStop then ret x
      else bnd (lift_result (t_field_id T fi)) (\<lambda>fid. bnd (arms fid (fi_type fi) x)
        (\<lambda>x'. seq (rd_field_end T) (read_fields T n arms x'))))"
      by simp
  qed
qed

lemma ends_struct:
  "(\<And>fid ty x. reader (arms fid ty x)) \<Longrightarrow> (\<And>fid ty x. ends_within (t_fuel T) (arms fid ty x))
    \<Longrightarrow> ends_within (t_fuel T) (read_struct T arms x)"
  unfolding read_struct_def
  by (intro ends_within_seq ends_within_bnd readers ends ends_fields reader_fields) simp_all

lemma ends_skip_fields: "n \<le> t_fuel T \<Longrightarrow> ends_within n (skip_fields T n)"
proof (induction n)
  case 0
  then show ?case by (simp add: ends_within_def)
next
  case (Suc n)
  then have n: "n \<le> t_fuel T" by simp
  then have "ends_within n (seq (rd_skip T ty) (seq (rd_field_end T) (skip_fields T n)))" for ty
    by (intro ends_within_seq readers Suc.IH ends_within_mono [OF ends(14) n] ends_within_mono [OF ends(6) n])
  then show ?case
    unfolding skip_fields.simps
    by (intro ends_within_advance [OF readers(5) advance(2) ends_within_mono [OF ends(5) Suc.prems]]) simp
qed

lemma ends_empty_struct: "ends_within (t_fuel T) (read_empty_struct T)"
  unfolding read_empty_struct_def
  by (intro ends_within_seq readers ends ends_skip_fields reader_skip_fields) simp_all

lemma ends_skip_arm: "ends_within (t_fuel T) (skip_arm T ty x)"
  unfolding skip_arm_def by (intro ends_within_seq readers ends) simp

lemma ends_entries:
  "reader rk \<Longrightarrow> reader rv \<Longrightarrow> ends_within k rk \<Longrightarrow> ends_within k rv \<Longrightarrow> ends_within k (read_entries n rk rv m)"
  by (induction n arbitrary: m) (auto intro!: ends_within_bnd)

lemma ends_btree:
  "reader rk \<Longrightarrow> reader rv \<Longrightarrow> ends_within (t_fuel T) rk \<Longrightarrow> ends_within (t_fuel T) rv
    \<Longrightarrow> ends_within (t_fuel T) (read_btree T rk rv)"
  unfolding read_btree_def
  by (intro ends_within_bnd ends_within_seq readers ends ends_entries reader_entries) simp_all

lemma ends_items: "reader re \<Longrightarrow> ends_within k re \<Longrightarrow> ends_within k (read_items n re)"
  by (induction n) (auto intro!: ends_within_bnd reader_items)

lemma ends_vec: "reader re \<Longrightarrow> ends_within (t_fuel T) re \<Longrightarrow> ends_within (t_fuel T) (read_vec T re)"
  unfolding read_vec_def
  by (intro ends_within_bnd readers ends) (auto intro!: ends_within_bnd ends_within_seq ends_items reader_items readers ends)

lemma ends_require_field: "ends_within k (require_field T name v)"
  by (cases v) (simp_all add: require_field_def)

lemmas ends_intros = ends_within_bnd ends_within_seq ends_struct ends_empty_struct ends_skip_arm
  ends_btree ends_vec ends_require_field

lemma ends_string_map: "ends_within (t_fuel T) (read_string_map T)"
  unfolding read_string_map_def by (intro ends_intros readers ends)

lemma ends_call_args: "ends_within (t_fuel T) (read_call_args T)"
  unfolding read_call_args_def
  by (auto intro!: ends_intros ends_string_map ends stream_intros readers split: prod.split)

lemma ends_register_args: "ends_within (t_fuel T) (read_register_args T)"
  unfolding read_register_args_def read_registry_def read_route_table_def read_plugin_response_def
    read_extension_info_def
  by (auto intro!: ends_intros ends_string_map ends stream_intros readers split: prod.split)

lemma ends_args:
  "ends_within (t_fuel T) (read_ping_args T)" "ends_within (t_fuel T) (read_shutdown_args T)"
  "ends_within (t_fuel T) (read_extensions_args T)" "ends_within (t_fuel T) (read_options_args T)"
  "ends_within (t_fuel T) (read_deregister_args T)" "ends_within (t_fuel T) (read_query_args T)"
  "ends_within (t_fuel T) (read_get_query_columns_args T)"
  unfolding read_ping_args_def read_shutdown_args_def read_extensions_args_def read_options_args_def
    read_deregister_args_def read_query_args_def read_get_query_columns_args_def
  by (auto intro!: ends_intros ends stream_intros readers)


text \<open>
  Nor does processing a message, when the handler's methods return: the bytes of a request
  bound the rounds of every loop.
\<close>

lemma writer_ends: "writer m \<Longrightarrow> fst (m s) \<noteq> Diverge"
  by (cases s) (auto simp: writer_def)

lemma on_conn_fst: "fst (on_conn m (c, h)) = fst (m c)"
  by (simp add: on_conn_def split: prod.split)

lemma method_ends:
  assumes r: "reader rargs" "ends_within (t_fuel T) rargs" and w: "\<And>v. writer (wres v)"
    and h: "\<And>a h. fst (handle a h) \<noteq> Diverge" and i: "length i < t_fuel T"
  shows "fst (process_method T name sq rargs handle wres ((i, out, False), h)) \<noteq> Diverge"
proof -
  have "writer (send_reply T name sq (wres v))" "writer (send_exception T name sq x)" for v x
    unfolding send_reply_def send_exception_def by (intro stream_intros writers w)+
  note out = this [THEN writer_ends]
  obtain r' c where m: "rargs (i, out, False) = (r', c)"
    by (cases "rargs (i, out, False)")
  have mc: "on_conn rargs ((i, out, False), h) = (r', (c, h))"
    by (simp add: on_conn_def m)
  have d: "r' \<noteq> Diverge"
    using r(2) i m by (cases c) (auto dest: ends_withinD)
  show ?thesis
  proof (cases r')
    case (Ok a)
    obtain rh h' where rh: "handle a h = (rh, h')"
      by (cases "handle a h")
    moreover have "rh \<noteq> Diverge"
      using h [of a h] rh by simp
    ultimately show ?thesis
      using mc Ok out by (cases rh) (simp_all add: process_method_def bnd_def on_conn_fst)
  qed (use m d in \<open>auto simp: process_method_def bnd_def on_conn_def\<close>)
qed

lemma message_ends:
  assumes tr: "\<And>mi i h. length i < t_fuel T \<Longrightarrow> fst (dispatch mi ((i, out, False), h)) \<noteq> Diverge"
    and i: "length i < t_fuel T"
  shows "fst (process_message T dispatch ((i, out, False), h)) \<noteq> Diverge"
proof -
  obtain r i1 e1 c where m: "rd_message_begin T (i, out, False) = (r, (i1, out, e1))" "e1 \<Longrightarrow> is_err r"
    "i = c @ i1"
    using readers(1) by (rule readerE) blast
  have mc: "on_conn (rd_message_begin T) ((i, out, False), h) = (r, ((i1, out, e1), h))"
    by (simp add: on_conn_def m(1))
  have r: "r \<noteq> Diverge"
    using ends(1) i m(1) by (rule ends_withinD)
  have fin: "fst (t_process_result T mi (Ok ()) s) \<noteq> Diverge" "fst (t_process_result T mi (Err x) s) \<noteq> Diverge"
    for mi x s
    by (intro writer_ends writers)+
  show ?thesis
  proof (cases r)
    case (Ok mi)
    then have e1: "\<not> e1" using m(2) by auto
    obtain rd s' h' where d: "dispatch mi ((i1, out, False), h) = (rd, (s', h'))"
      by (cases "dispatch mi ((i1, out, False), h)") auto
    have "rd \<noteq> Diverge"
      using tr [of i1 mi h] i m(3) d by simp
    then show ?thesis
      using mc Ok e1 d fin by (cases rd) (simp_all add: process_message_def bnd_def on_conn_fst)
  qed (use m r in \<open>auto simp: process_message_def bnd_def on_conn_def\<close>)
qed

lemma ends_if: "fst (P s) \<noteq> Diverge \<Longrightarrow> fst (Q s) \<noteq> Diverge \<Longrightarrow> fst ((if b then P else Q) s) \<noteq> Diverge"
  by simp

lemma ends_fail: "fst (fail e s) \<noteq> Diverge"
  by (simp add: fail_def)

lemma process_ends:
  assumes "\<And>h. fst (handle_ping H h) \<noteq> Diverge" "\<And>r i q h. fst (handle_call H r i q h) \<noteq> Diverge"
    "\<And>h. fst (handle_shutdown H h) \<noteq> Diverge" and "length i < t_fuel T"
  shows "fst (process T H ((i, out, False), h)) \<noteq> Diverge"
  unfolding process_def
  unfolding dispatch_extension_def process_ping_def process_call_def process_shutdown_def
  by (rule message_ends [OF _ assms(4)])
    (intro ends_if ends_fail method_ends stream_intros ends_args ends_call_args assms(1-3), assumption)+

end

section \<open>The binary protocol on a stream\<close>

lemma reader_take [stream_intros]: "reader (take_bytes n)"
  unfolding reader_def
proof (intro allI)
  fix i :: "8 word list" and out
  show "\<exists>r i' e. take_bytes n (i, out, False) = (r, (i', out, e)) \<and> (e \<longrightarrow> is_err r)
     \<and> (\<exists>c. i = c @ i') \<and> (\<not> e \<longrightarrow> (\<forall>x. take_bytes n (i @ x, out, False) = (r, (i' @ x, out, False))))"
  proof (cases "length i < n")
    case False
    moreover have "\<exists>c. i = c @ drop n i"
      by (rule exI [of _ "take n i"]) simp
    ultimately show ?thesis
      by (auto simp: take_bytes_def intro!: exI [of _ False])
  qed (auto simp: take_bytes_def)
qed

lemma ends_take: "ends_within k (take_bytes n)"
  by (auto simp: ends_within_def take_bytes_def)

lemma advances_bnd: "advances m \<Longrightarrow> reader m \<Longrightarrow> (\<And>x. reader (f x)) \<Longrightarrow> advances (bnd m f)"
  unfolding advances_def
proof (intro allI impI)
  fix i out y i' out' e
  assume m: "\<forall>i out x i' out' e. m (i, out, False) = (Ok x, (i', out', e)) \<longrightarrow> length i' < length i"
    and rm: "reader m" and rf: "\<And>x. reader (f x)" and b: "bnd m f (i, out, False) = (Ok y, (i', out', e))"
  obtain r i1 e1 where 1: "m (i, out, False) = (r, (i1, out, e1))" "e1 \<Longrightarrow> is_err r"
    using rm by (rule readerE) blast
  with b obtain x where x: "r = Ok x" "\<not> e1"
    by (cases r) (auto simp: bnd_def)
  obtain r2 i2 e2 c where 2: "f x (i1, out, False) = (r2, (i2, out, e2))" "i1 = c @ i2"
    using rf by (rule readerE) blast
  have "length i1 < length i"
    using m 1 x by blast
  then show "length i' < length i"
    using b 1 2 x by (auto simp: bnd_def)
qed

lemma advances_take: "0 < n \<Longrightarrow> advances (take_bytes n)"
  by (auto simp: advances_def take_bytes_def split: if_splits)

lemma reader_primitives [stream_intros]:
  "reader get_i32" "reader get_i16" "reader get_i64" "reader get_byte" "reader (protocol_error k t)"
  "reader (get_string_of n)" "reader get_string" "reader get_type" "reader get_size" "reader get_list"
  "reader get_map" "reader (drop_bytes n)" "reader get_field" "reader (message_type_of b)" "reader get_message"
proof -
  show 1: "reader get_i32" "reader get_i16" "reader get_i64" "reader get_byte" "reader (drop_bytes n)" for n
    unfolding get_i32_def get_i16_def get_i64_def get_byte_def drop_bytes_def by (intro stream_intros)+
  show 2: "reader (protocol_error k t :: (8 word chan, 'a) tact)" for k t
    unfolding protocol_error_def by (intro stream_intros)
  show 3: "reader (get_string_of n)" for n
    unfolding get_string_of_def protocol_error_def by (intro stream_intros)
  show 4: "reader get_string"
    unfolding get_string_def protocol_error_def by (intro stream_intros 1 3)
  show 5: "reader get_type"
    unfolding get_type_def protocol_error_def by (auto intro!: stream_intros 1 split: option.split)
  show 6: "reader get_size"
    unfolding get_size_def protocol_error_def by (intro stream_intros 1)
  show "reader get_list" "reader get_map"
    unfolding get_list_def get_map_def by (intro stream_intros 5 6)+
  show "reader get_field"
    unfolding get_field_def by (intro stream_intros 1 5)
  show 7: "reader (message_type_of b)" for b
    unfolding message_type_of_def protocol_error_def by (auto intro!: stream_intros split: option.split)
  show "reader get_message"
    unfolding get_message_def protocol_error_def by (intro stream_intros 1 3 4 7)
qed

lemma ends_primitives:
  "ends_within k get_i32" "ends_within k get_i16" "ends_within k get_i64" "ends_within k get_byte"
  "ends_within k (protocol_error kd t)" "ends_within k (get_string_of n)" "ends_within k get_string"
  "ends_within k get_type" "ends_within k get_size" "ends_within k get_list" "ends_within k get_map"
  "ends_within k (drop_bytes n)" "ends_within k get_field" "ends_within k (message_type_of b)"
  "ends_within k get_message"
proof -
  show 1: "ends_within k get_i32" "ends_within k get_i16" "ends_within k get_i64" "ends_within k get_byte"
    "ends_within k (drop_bytes n)" for n
    unfolding get_i32_def get_i16_def get_i64_def get_byte_def drop_bytes_def
    by (auto intro!: ends_within_bnd stream_intros ends_take)
  show 2: "ends_within k (protocol_error kd t :: (8 word chan, 'a) tact)" for kd t
    by (simp add: protocol_error_def)
  show 3: "ends_within k (get_string_of n)" for n
    unfolding get_string_of_def
    by (auto simp: protocol_error_def intro!: ends_within_bnd stream_intros ends_take)
  show 4: "ends_within k get_string"
    unfolding get_string_def
    by (auto simp: protocol_error_def intro!: ends_within_bnd stream_intros 1 3)
  show 5: "ends_within k get_type"
    unfolding get_type_def
    by (auto simp: protocol_error_def intro!: ends_within_bnd stream_intros 1 split: option.split)
  show 6: "ends_within k get_size"
    unfolding get_size_def by (auto simp: protocol_error_def intro!: ends_within_bnd stream_intros 1)
  show "ends_within k get_list" "ends_within k get_map"
    unfolding get_list_def get_map_def by (auto intro!: ends_within_bnd stream_intros 5 6)
  show "ends_within k get_field"
    unfolding get_field_def by (auto intro!: ends_within_bnd stream_intros 1 5)
  show 7: "ends_within k (message_type_of b)" for b
    unfolding message_type_of_def by (auto simp: protocol_error_def split: option.split)
  show "ends_within k get_message"
    unfolding get_message_def
    by (auto simp: protocol_error_def intro!: ends_within_bnd stream_intros ends_take 1 3 4 7)
qed

lemma reader_skip_until: "(\<And>ty. reader (sk ty)) \<Longrightarrow> reader (skip_until_stop n sk)"
  by (induction n) (auto intro!: stream_intros)

lemma reader_repeat: "reader m \<Longrightarrow> reader (repeat_act n m)"
  by (induction n) (auto intro!: stream_intros)

lemma reader_skip_value [stream_intros]: "reader (skip_value n d ty)"
  by (induction d arbitrary: ty)
    (auto intro!: stream_intros reader_skip_until reader_repeat split: ttype.split)

lemma advances_field: "advances get_field"
  unfolding get_field_def get_type_def get_byte_def bnd_assoc
  by (intro advances_bnd advances_take stream_intros reader_bnd) (auto intro!: stream_intros split: option.split)

lemma advances_message: "advances get_message"
  unfolding get_message_def
  by (intro advances_bnd advances_take stream_intros reader_bnd) (auto intro!: stream_intros)

lemma ends_skip_until:
  assumes sk: "\<And>ty. reader (sk ty)" "\<And>ty. ends_within k (sk ty)"
  shows "n \<le> k \<Longrightarrow> ends_within n (skip_until_stop n sk)"
proof (induction n)
  case 0
  then show ?case by (simp add: ends_within_def)
next
  case (Suc n)
  then have "ends_within n (seq (sk ty) (skip_until_stop n sk))" for ty
    by (intro ends_within_seq sk ends_within_mono [OF sk(2)] Suc.IH) simp_all
  then show ?case
    unfolding skip_until_stop.simps
    by (intro ends_within_advance advances_field ends_primitives stream_intros) simp
qed

lemma ends_repeat: "reader m \<Longrightarrow> ends_within k m \<Longrightarrow> ends_within k (repeat_act n m)"
  by (induction n) (auto intro!: ends_within_seq)

lemma ends_skip_value: "ends_within n (skip_value n d ty)"
proof (induction d arbitrary: ty)
  case 0
  then show ?case by (simp add: ends_primitives)
next
  case (Suc d)
  note IH = Suc.IH
  show ?case
    by (auto intro!: ends_primitives ends_within_bnd ends_within_seq stream_intros reader_repeat
      ends_repeat ends_skip_until IH split: ttype.split)
qed

lemma reader_app_error [stream_intros]: "reader (get_app_error n k m)"
  by (induction n arbitrary: k m) (auto intro!: stream_intros)

lemma writer_put [stream_intros]: "writer (put_bytes w)"
  by (auto simp: writer_def put_bytes_def intro!: exI [of _ "Ok ()"])

lemma writer_finish: "writer (finish_result mi (Ok ()))" "writer (finish_result mi (Err e))"
  by (cases e rule: from_thrift.cases; auto simp: put_exception_def intro: stream_intros)+

lemma binary_stream_protocol: "stream_protocol (binary_thrift n)"
  by unfold_locales
    (auto simp: binary_thrift_def ends_primitives ends_skip_value advances_field advances_message
      writer_finish intro!: stream_intros elim: ok_or.elims, (case_tac "fi_id fi"; simp)?)

interpretation binary_stream: stream_protocol "binary_thrift binary_fuel"
  by (rule binary_stream_protocol)

end
