(* ===== verification/Connection.thy ===== *)
theory Connection
  imports WireStream
begin

text \<open>
  \<open>src/src/server/threaded.rs\<close>: serving one connection (buffering of partial requests,
  detection of an incomplete request, draining of processed bytes).
  The peer is the list of the results of \<open>reader.read\<close>, the
  response stream an action on a state of its own, and the processor any action on the
  request bytes. \<open>block_in_place\<close> moves the call to another thread and changes nothing
  else, so both branches of \<open>others_active\<close> are the same call here.
\<close>

section \<open>Serving one connection\<close>

definition MAX_REQUEST_BYTES :: nat where
  "MAX_REQUEST_BYTES = 32 * 1024 * 1024"

definition READ_CHUNK_BYTES :: nat where
  "READ_CHUNK_BYTES = 8 * 1024"

type_synonym ('b, 'w) response_stream = "'b list \<Rightarrow> ('w, unit, io_error) act"

text \<open>
  \<open>EofTrackingReader\<close> over the buffered bytes: a read that finds none sets \<open>hit_end\<close>. The
  protocol of the Thrift crate reads through \<open>Read::read_exact\<close> of the standard library,
  which reads until it has its bytes or a read gives none.
\<close>

definition eof_read :: "nat \<Rightarrow> ('b chan, 'b list, io_error) act" where
  "eof_read n = (\<lambda>(i, out, hit_end). (Ok (take n i), (drop n i, out, hit_end \<or> (take n i = [] \<and> 0 < n))))"

function read_exact :: "nat \<Rightarrow> ('b chan, 'b list, io_error) act" where
  "read_exact n s =
     (if n = 0 then (Ok [], s)
      else (case eof_read n s of
          (Ok [], s') \<Rightarrow> (Err (IoError ''UnexpectedEof'' ''failed to fill whole buffer''), s')
        | (Ok (b # bs), s') \<Rightarrow> (case read_exact (n - length (b # bs)) s' of
              (Ok bs', s'') \<Rightarrow> (Ok (b # bs @ bs'), s'')
            | (r, s'') \<Rightarrow> (r, s''))
        | (r, s') \<Rightarrow> (r, s')))"
  by pat_completeness auto
termination
  by (relation "measure fst") auto

declare read_exact.simps [simp del]

lemma read_exact_0 [simp]: "read_exact 0 s = (Ok [], s)"
  by (simp add: read_exact.simps)

lemma read_exact_end: "0 < n \<Longrightarrow>
  read_exact n ([], out, e) = (Err (IoError ''UnexpectedEof'' ''failed to fill whole buffer''), ([], out, True))"
  by (simp add: read_exact.simps eof_read_def)

text \<open>The flag is set when, and only when, the buffer is too short for what is asked.\<close>

lemma read_exact_eq:
  "read_exact n (i, out, e) =
     (if length i < n then (Err (IoError ''UnexpectedEof'' ''failed to fill whole buffer''), ([], out, True))
      else (Ok (take n i), (drop n i, out, e)))"
proof (cases "n = 0 \<or> i = []")
  case True
  then show ?thesis
    by (cases "n = 0") (auto simp: read_exact_end)
next
  case False
  then obtain m b i' where *: "n = Suc m" "i = b # i'"
    by (cases n; cases i) auto
  then have "read_exact n (i, out, e) = (case read_exact (m - length (take m i')) (drop m i', out, e) of
      (Ok bs', s'') \<Rightarrow> (Ok (b # take m i' @ bs'), s'') | (r, s'') \<Rightarrow> (r, s''))"
    by (subst read_exact.simps) (simp add: eof_read_def)
  then show ?thesis
    using * by (cases "length i' < m") (simp_all add: read_exact_end min_def)
qed

lemma take_bytes_reads_exactly:
  "take_bytes n s = (case read_exact n s of
     (r, s') \<Rightarrow> (map_err (\<lambda>_. TTransport ''EndOfFile'' ''unexpected end of input'') r, s'))"
  by (cases s) (simp add: take_bytes_def read_exact_eq)

text \<open>The buffered request bytes, the handler's state and the response stream.\<close>

type_synonym ('b, 'h, 'w) serving = "'b list \<times> 'h \<times> 'w"

text \<open>
  \<open>while !requests.is_empty()\<close>. The processor reads from the buffer; the flag of its
  channel is \<open>hit_end\<close>. When the function returns, the buffer is gone. Every round
  consumes a byte, so the length of the buffer bounds the rounds.
\<close>

primrec drain_requests ::
  "nat \<Rightarrow> (thrift_error \<Rightarrow> string) \<Rightarrow> ('b chan \<times> 'h, unit) tact \<Rightarrow> ('b, 'w) response_stream
    \<Rightarrow> ('b, 'h, 'w) serving \<Rightarrow> (unit, io_error) result \<times> ('b, 'h, 'w) serving" where
  "drain_requests 0 disp P wr s = (Diverge, s)"
| "drain_requests (Suc n) disp P wr s = (case s of (requests, h, w) \<Rightarrow>
     if requests = [] then (Ok (), s)
     else (case P ((requests, [], False), h) of (result, ((rest, response, hit_end), h')) \<Rightarrow>
       (case result of
          Panic p \<Rightarrow> (Panic p, ([], h', w))
        | Diverge \<Rightarrow> (Diverge, ([], h', w))
        | Ok u \<Rightarrow>
            if hit_end then (Ok (), (requests, h', w))
            else (case wr response w of
                (Ok u, w') \<Rightarrow> drain_requests n disp P wr (rest, h', w')
              | (r, w') \<Rightarrow> (r, ([], h', w')))
        | Err e \<Rightarrow>
            if hit_end then (Ok (), (requests, h', w))
            else (Err (IoError ''InvalidData'' (''processor error: '' @ disp e)), ([], h', w)))))"

definition drain_all ::
  "(thrift_error \<Rightarrow> string) \<Rightarrow> ('b chan \<times> 'h, unit) tact \<Rightarrow> ('b, 'w) response_stream
    \<Rightarrow> ('b, 'h, 'w) serving \<Rightarrow> (unit, io_error) result \<times> ('b, 'h, 'w) serving" where
  "drain_all disp P wr s = drain_requests (Suc (length (fst s))) disp P wr s"

datatype served = Waiting | Served "(unit, io_error) result"

text \<open>
  The outer loop, over what the peer sends: the bytes of each read (none at the end of the
  stream) or its failure. \<open>Waiting\<close> is a connection whose next read is pending.
\<close>

primrec serve_connection ::
  "(thrift_error \<Rightarrow> string) \<Rightarrow> ('b chan \<times> 'h, unit) tact \<Rightarrow> ('b, 'w) response_stream
    \<Rightarrow> ('b list, io_error) result list \<Rightarrow> ('b, 'h, 'w) serving \<Rightarrow> served \<times> ('b, 'h, 'w) serving" where
  "serve_connection disp P wr [] s = (Waiting, s)"
| "serve_connection disp P wr (read # reads) s = (case s of (requests, h, w) \<Rightarrow>
     (case read of
        Ok received \<Rightarrow>
          if received = [] then
            (Served (if requests = [] then Ok ()
               else Err (IoError ''UnexpectedEof'' ''peer disconnected mid-request'')), ([], h, w))
          else if READ_CHUNK_BYTES < length received then
            (Served (Err (IoError ''InvalidData'' ''reader returned more bytes than the buffer holds'')), ([], h, w))
          else if MAX_REQUEST_BYTES < length (requests @ received) then
            (Served (Err (IoError ''InvalidData''
               (''request exceeds '' @ show_nat MAX_REQUEST_BYTES @ '' bytes''))), ([], h, w))
          else (case drain_all disp P wr (requests @ received, h, w) of
              (Ok u, s') \<Rightarrow> serve_connection disp P wr reads s'
            | (r, s') \<Rightarrow> (Served r, s'))
      | Err e \<Rightarrow> (Served (Err e), ([], h, w))
      | Panic p \<Rightarrow> (Served (Panic p), ([], h, w))
      | Diverge \<Rightarrow> (Served Diverge, ([], h, w))))"

section \<open>The contract of a processor\<close>

text \<open>
  What serving needs of a processor: running out of bytes leaves the handler alone, the
  outcome does not depend on later bytes, and success consumes a byte.
\<close>

locale stream_processor =
  fixes P :: "('b chan \<times> 'h, unit) tact"
  assumes transaction: "transaction P"
    and consumes: "P ((i, [], False), h) = (Ok u, ((i', out', e), h')) \<Longrightarrow> length i' < length i"
begin

lemma step_cases:
  obtains (incomplete) r i' w where "P ((i, [], False), h) = (r, ((i', w, True), h))" "is_ok r \<or> is_err r"
  | (complete) r i' w h' where "P ((i, [], False), h) = (r, ((i', w, False), h'))"
      "\<And>x. P ((i @ x, [], False), h) = (r, ((i' @ x, w, False), h'))"
  using transaction
proof (rule transactionE [where i = i and out = "[]" and h = h])
  fix r i' w e h' c
  assume *: "P ((i, [], False), h) = (r, ((i', [] @ w, e), h'))" "e \<Longrightarrow> h' = h \<and> (is_ok r \<or> is_err r)"
    "\<And>x. \<not> e \<Longrightarrow> P ((i @ x, [], False), h) = (r, ((i' @ x, [] @ w, False), h'))"
  show thesis
    using * by (cases e) (auto intro: incomplete complete)
qed

text \<open>More fuel than the buffer has bytes changes nothing.\<close>

lemma drain_fuel:
  "length (fst s) < n \<Longrightarrow> length (fst s) < k \<Longrightarrow> drain_requests n disp P wr s = drain_requests k disp P wr s"
proof (induction n arbitrary: k s)
  case (Suc n)
  then obtain k' where k: "k = Suc k'"
    by (cases k) auto
  obtain q h w where s: "s = (q, h, w)"
    by (cases s)
  show ?case
  proof (cases "q = []")
    case False
    have IH: "drain_requests n disp P wr (i', h', w') = drain_requests k' disp P wr (i', h', w')"
      if "P ((q, [], False), h) = (Ok u, ((i', out, e), h'))" for u i' out e h' w'
      using consumes [OF that] Suc.prems s k by (intro Suc.IH) simp_all
    then show ?thesis
      unfolding k s by (auto split: prod.split result.split)
  qed (simp add: s k)
qed simp

lemma drain_all_Suc: "length (fst s) < n \<Longrightarrow> drain_requests n disp P wr s = drain_all disp P wr s"
  unfolding drain_all_def by (rule drain_fuel) simp_all

lemma drain_all_Nil [simp]: "drain_all disp P wr ([], h, w) = (Ok (), ([], h, w))"
  by (simp add: drain_all_def)

lemma drain_all_step:
  assumes "q \<noteq> []" and "P ((q, [], False), h) = (Ok u, ((rest, response, False), h'))"
  shows "drain_all disp P wr (q, h, w) = (case wr response w of
      (Ok u, w') \<Rightarrow> drain_all disp P wr (rest, h', w') | (r, w') \<Rightarrow> (r, ([], h', w')))"
proof -
  have "drain_requests (length q) disp P wr (rest, h', w') = drain_all disp P wr (rest, h', w')" for w'
    using consumes [OF assms(2)] by (intro drain_all_Suc) simp
  then show ?thesis
    using assms by (auto simp: drain_all_def split: prod.split result.split)
qed

text \<open>Bytes that arrive later may as well have been there from the start.\<close>

lemma drain_append:
  assumes "drain_all disp P wr (q, h, w) = (Ok u, (q', h', w'))"
  shows "drain_all disp P wr (q @ x, h, w) = drain_all disp P wr (q' @ x, h', w')"
  using assms
proof (induction "length q" arbitrary: q h w rule: less_induct)
  case less
  show ?case
  proof (cases "q = []")
    case False
    show ?thesis
    proof (rule step_cases [of q h])
      fix r i' v
      assume "P ((q, [], False), h) = (r, ((i', v, True), h))"
      then show ?thesis
        using less.prems False by (auto simp: drain_all_def split: result.splits)
    next
      fix r i' v h1
      assume P: "P ((q, [], False), h) = (r, ((i', v, False), h1))"
        "\<And>x. P ((q @ x, [], False), h) = (r, ((i' @ x, v, False), h1))"
      show ?thesis
      proof (cases r)
        case (Ok y)
        then obtain wu w1 where w: "wr v w = (Ok wu, w1)"
          and d: "drain_all disp P wr (i', h1, w1) = (Ok u, (q', h', w'))"
          using less.prems drain_all_step [OF False P(1) [unfolded Ok], of disp wr w]
          by (auto split: prod.splits result.splits)
        show ?thesis
          using less.hyps [OF consumes [OF P(1) [unfolded Ok]] d] w
            drain_all_step [OF _ P(2) [unfolded Ok], of x disp wr w] False
          by simp
      qed (use less.prems P False in \<open>auto simp: drain_all_def\<close>)
    qed
  qed (use less.prems in simp)
qed

lemma drain_append_stops:
  assumes "drain_all disp P wr (q, h, w) = (r, s)" and "\<not> is_ok r"
  shows "drain_all disp P wr (q @ x, h, w) = (r, s)"
  using assms(1)
proof (induction "length q" arbitrary: q h w rule: less_induct)
  case less
  show ?case
  proof (cases "q = []")
    case False
    show ?thesis
    proof (rule step_cases [of q h])
      fix r1 i' v
      assume "P ((q, [], False), h) = (r1, ((i', v, True), h))" "is_ok r1 \<or> is_err r1"
      then show ?thesis
        using less.prems assms(2) False
        by (auto simp: drain_all_def split: result.splits)
    next
      fix r1 i' v h1
      assume P: "P ((q, [], False), h) = (r1, ((i', v, False), h1))"
        "\<And>x. P ((q @ x, [], False), h) = (r1, ((i' @ x, v, False), h1))"
      show ?thesis
      proof (cases r1)
        case (Ok y)
        obtain wres w1 where w: "wr v w = (wres, w1)"
          by (cases "wr v w")
        show ?thesis
          using less.hyps [OF consumes [OF P(1) [unfolded Ok]], of h1 w1] less.prems w False
            drain_all_step [OF False P(1) [unfolded Ok], of disp wr w]
            drain_all_step [OF _ P(2) [unfolded Ok], of x disp wr w]
          by (cases wres) auto
      qed (use less.prems P False in \<open>auto simp: drain_all_def\<close>)
    qed
  qed (use less.prems assms(2) in auto)
qed

lemma drain_requests_shrinks:
  "length (fst (snd (drain_requests n disp P wr s))) \<le> length (fst s)"
proof (induction n arbitrary: s)
  case (Suc n)
  obtain q h w where s: "s = (q, h, w)"
    by (cases s)
  obtain r i' v e h1 where P: "P ((q, [], False), h) = (r, ((i', v, e), h1))"
    by (metis prod.exhaust)
  show ?case
  proof (cases r)
    case (Ok u)
    obtain wres w1 where w: "wr v w = (wres, w1)"
      by (cases "wr v w")
    have "length (fst (snd (drain_requests n disp P wr (i', h1, w1)))) \<le> length q"
      using Suc.IH [of "(i', h1, w1)"] consumes [OF P [unfolded Ok]] by simp
    then show ?thesis
      using P Ok w by (cases wres) (simp_all add: s)
  qed (use P in \<open>simp_all add: s\<close>)
qed simp

lemma drain_shrinks: "drain_all disp P wr s = (r, s') \<Longrightarrow> length (fst s') \<le> length (fst s)"
  unfolding drain_all_def by (metis drain_requests_shrinks snd_conv)

lemma drain_idem:
  "drain_all disp P wr (q, h, w) = (Ok u, s) \<Longrightarrow> drain_all disp P wr s = (Ok (), s)"
  using drain_append [of disp wr q h w u "fst s" "fst (snd s)" "snd (snd s)" "[]"] by simp

text \<open>An incomplete request: nothing is written and the handler has not run.\<close>

lemma drain_incomplete:
  "P ((q, [], False), h) = (r, ((i', v, True), h')) \<Longrightarrow> drain_all disp P wr (q, h, w) = (Ok (), (q, h, w))"
  by (rule step_cases [of q h]) (cases "q = []"; auto simp: drain_all_def split: result.splits)+

end

section \<open>The pieces a stream arrives in do not matter\<close>

text \<open>A response stream that keeps what is written.\<close>

definition collect_stream :: "('b, 'b list) response_stream" where
  "collect_stream v w = (Ok (), w @ v)"

definition fits :: "'a list list \<Rightarrow> bool" where
  "fits cs = (\<forall>c \<in> set cs. c \<noteq> [] \<and> length c \<le> READ_CHUNK_BYTES)"

fun served_whole ::
  "(unit, io_error) result \<times> ('b, 'h, 'w) serving \<Rightarrow> served \<times> ('b, 'h, 'w) serving" where
  "served_whole (Ok u, s) = (Waiting, s)"
| "served_whole (r, s) = (Served r, s)"

context stream_processor
begin

lemma serve_concat:
  assumes "fits cs" and "length q + length (concat cs) \<le> MAX_REQUEST_BYTES"
    and "drain_all disp P wr (q, h, w) = (Ok (), (q, h, w))"
  shows "serve_connection disp P wr (map Ok cs) (q, h, w) = served_whole (drain_all disp P wr (q @ concat cs, h, w))"
  using assms
proof (induction cs arbitrary: q h w)
  case (Cons c cs)
  obtain r q' h' w' where d: "drain_all disp P wr (q @ c, h, w) = (r, (q', h', w'))"
    by (cases "drain_all disp P wr (q @ c, h, w)") auto
  show ?case
  proof (cases r)
    case (Ok u)
    then have dd: "drain_all disp P wr (q @ c, h, w) = (Ok u, (q', h', w'))"
      using d by simp
    have "serve_connection disp P wr (map Ok cs) (q', h', w')
        = served_whole (drain_all disp P wr (q' @ concat cs, h', w'))"
      using Cons.prems drain_shrinks [OF d] drain_idem [OF dd] by (intro Cons.IH) (auto simp: fits_def)
    then show ?thesis
      using Cons.prems d Ok drain_append [OF dd, of "concat cs"] by (simp add: fits_def)
  next
    case (Err e)
    then show ?thesis
      using Cons.prems d drain_append_stops [OF d, of "concat cs"] by (simp add: fits_def)
  next
    case (Panic e)
    then show ?thesis
      using Cons.prems d drain_append_stops [OF d, of "concat cs"] by (simp add: fits_def)
  next
    case Diverge
    then show ?thesis
      using Cons.prems d drain_append_stops [OF d, of "concat cs"] by (simp add: fits_def)
  qed
qed simp

text \<open>One request, however it is cut, is answered once it is there.\<close>

lemma one_request_served:
  assumes "P ((request, [], False), h) = (Ok u, (([], reply, False), h'))"
    and "fits cs" and "concat cs = request" and "length request \<le> MAX_REQUEST_BYTES"
  shows "serve_connection disp P collect_stream (map Ok cs) ([], h, []) = (Waiting, ([], h', reply))"
proof -
  have "request \<noteq> []"
    using consumes [OF assms(1)] by auto
  then have "drain_all disp P collect_stream (request, h, []) = (Ok (), ([], h', reply))"
    by (simp add: drain_all_step [OF _ assms(1)] collect_stream_def)
  then show ?thesis
    using assms(3,4) by (simp add: serve_concat [OF assms(2)])
qed

text \<open>The buffer of a waiting connection never exceeds the limit.\<close>

lemma serve_bounded:
  assumes "length q \<le> MAX_REQUEST_BYTES" and "serve_connection disp P wr reads (q, h, w) = (out, (q', h', w'))"
  shows "length q' \<le> MAX_REQUEST_BYTES"
  using assms
proof (induction reads arbitrary: q h w)
  case (Cons rd reads)
  show ?case
  proof (cases rd)
    case (Ok c)
    show ?thesis
    proof (cases "c = [] \<or> READ_CHUNK_BYTES < length c \<or> MAX_REQUEST_BYTES < length (q @ c)")
      case True
      then show ?thesis using Cons.prems Ok by (auto split: if_splits)
    next
      case False
      obtain r q1 h1 w1 where d: "drain_all disp P wr (q @ c, h, w) = (r, (q1, h1, w1))"
        by (cases "drain_all disp P wr (q @ c, h, w)") auto
      have "length q1 \<le> MAX_REQUEST_BYTES"
        using drain_shrinks [OF d] False by simp
      then show ?thesis
        using Cons.IH Cons.prems(2) Ok d False by (cases r) simp_all
    qed
  qed (use Cons.prems in simp_all)
qed simp

text \<open>With a processor and a response stream that return, serving returns.\<close>

lemma drain_ends:
  assumes P: "\<And>i h. length i < b \<Longrightarrow> fst (P ((i, [], False), h)) \<noteq> Diverge"
    and wr: "\<And>v w. fst (wr v w) \<noteq> Diverge"
  shows "length (fst s) < n \<Longrightarrow> n \<le> b \<Longrightarrow> fst (drain_requests n disp P wr s) \<noteq> Diverge"
proof (induction n arbitrary: s)
  case (Suc n)
  obtain q h w where s: "s = (q, h, w)"
    by (cases s)
  obtain r i' v e h1 where p: "P ((q, [], False), h) = (r, ((i', v, e), h1))"
    by (metis prod.exhaust)
  have "r \<noteq> Diverge"
    using P [of q h] p Suc.prems s by simp
  moreover obtain wres w1 where w: "wr v w = (wres, w1)"
    by (cases "wr v w")
  moreover have "wres \<noteq> Diverge"
    using wr [of v w] w by simp
  moreover have "fst (drain_requests n disp P wr (i', h1, w1)) \<noteq> Diverge" if "r = Ok u" for u
    using consumes [OF p [unfolded that]] Suc.prems s by (intro Suc.IH) simp_all
  ultimately show ?case
    using p by (cases r; cases wres) (simp_all add: s)
qed simp

lemma serve_ends:
  assumes P: "\<And>i h. length i \<le> MAX_REQUEST_BYTES \<Longrightarrow> fst (P ((i, [], False), h)) \<noteq> Diverge"
    and wr: "\<And>v w. fst (wr v w) \<noteq> Diverge" and reads: "Diverge \<notin> set reads"
  shows "fst (serve_connection disp P wr reads s) \<noteq> Served Diverge"
  using reads
proof (induction reads arbitrary: s)
  case (Cons rd reads)
  obtain q h w where s: "s = (q, h, w)"
    by (cases s)
  have d: "fst (drain_all disp P wr (q @ c, h, w)) \<noteq> Diverge" if "length (q @ c) \<le> MAX_REQUEST_BYTES" for c
    unfolding drain_all_def
    by (rule drain_ends [where b = "Suc MAX_REQUEST_BYTES"]) (use that P wr in auto)
  show ?case
  proof (cases rd)
    case (Ok c)
    show ?thesis
    proof (cases "c = [] \<or> READ_CHUNK_BYTES < length c \<or> MAX_REQUEST_BYTES < length (q @ c)")
      case True
      then show ?thesis using Ok s by auto
    next
      case False
      then have "fst (drain_all disp P wr (q @ c, h, w)) \<noteq> Diverge"
        by (intro d) simp
      then show ?thesis
        using Cons False Ok s by (cases "drain_all disp P wr (q @ c, h, w)"; cases "fst (drain_all disp P wr (q @ c, h, w))") auto
    qed
  qed (use Cons.prems s in auto)
qed simp

end

section \<open>The processors of the services are stream processors\<close>

context stream_protocol
begin

lemma extension_processor: "stream_processor (process T H)"
proof
  show "transaction (process T H)"
    by (rule transaction_extension)
  show "length i' < length i" if "process T H ((i, [], False), h) = (Ok u, ((i', out', e), h'))" for i h u i' out' e h'
    using that unfolding process_def
    by (rule process_message_consumes [rotated])
      (auto simp: dispatch_extension_def process_ping_def process_call_def process_shutdown_def
        intro!: transaction_if transaction_fail transaction_method stream_intros)
qed

end

sublocale stream_protocol \<subseteq> extension: stream_processor "process T H" for H
  by (rule extension_processor)

interpretation binary_extension: stream_processor "process (binary_thrift binary_fuel) H" for H
  by (rule binary_stream.extension_processor)

section \<open>Properties\<close>

text \<open>
  For the witnesses: the text of an error, and the mock handler of
  \<open>src/src/server/mock/mod.rs\<close>, which echoes the request of a call.
\<close>

definition show_thrift :: "thrift_error \<Rightarrow> string" where
  "show_thrift e = show_error (from_thrift e)"

definition mock_server_handler :: "unit ext_handler" where
  "mock_server_handler =
     \<lparr>handle_ping = ret (mk_status 0 ''OK'' None),
      handle_call = \<lambda>_ _ request. ret (mk_response (mk_status 0 ''OK'' None) (Some [request])),
      handle_shutdown = ret ()\<rparr>"

text \<open>
  C4: serving a connection does not depend on how the peer's bytes are cut into reads. For
  any protocol whose reads behave on a stream, any handler and response stream, and any
  nonempty reads within the limits, the outcome, the handler's state and the responses are
  those of processing the whole stream at once.
\<close>

theorem serving_ignores_chunking:
  assumes "stream_protocol T" and "fits cs" and "length (concat cs) \<le> MAX_REQUEST_BYTES"
  shows "serve_connection disp (process T H) wr (map Ok cs) ([], h, w)
    = served_whole (drain_all disp (process T H) wr (concat cs, h, w))"
proof -
  note p = stream_protocol.extension_processor [OF assms(1), of H]
  show ?thesis
    using stream_processor.serve_concat [OF p assms(2), of "[]" disp wr h w] assms(3)
      stream_processor.drain_all_Nil [OF p, of disp wr h w] by simp
qed

theorem serving_ignores_chunking_witness:
  "serve_connection show_thrift (process (binary_thrift 8) mock_server_handler) collect_stream
      (map Ok [[128, 1, 0], [1, 0, 0, 0, 4, 112], [105, 110, 103, 0, 0, 0, 1, 0]]) ([], (), [])
    = served_whole (drain_all show_thrift (process (binary_thrift 8) mock_server_handler) collect_stream
      ([128, 1, 0, 1, 0, 0, 0, 4, 112, 105, 110, 103, 0, 0, 0, 1, 0], (), []))"
  using serving_ignores_chunking [OF binary_stream_protocol,
      of "[[128, 1, 0], [1, 0, 0, 0, 4, 112], [105, 110, 103, 0, 0, 0, 1, 0]]"]
  by (simp add: fits_def READ_CHUNK_BYTES_def MAX_REQUEST_BYTES_def)

text \<open>
  C13: a request whose bytes have not all arrived has no effect. When the processor runs
  past the end of the buffer, the handler's state is what it was, nothing has been written
  to the peer, and the buffer is kept for the bytes to come.
\<close>

theorem incomplete_request_waits:
  assumes "stream_protocol T"
    and "process T H ((requests, [], False), h) = (r, ((rest, response, True), h'))"
  shows "h' = h \<and> drain_all disp (process T H) wr (requests, h, w) = (Ok (), (requests, h, w))"
proof
  note p = stream_protocol.extension_processor [OF assms(1), of H]
  show "h' = h"
    by (rule stream_processor.step_cases [OF p, of requests h]) (use assms(2) in auto)
  show "drain_all disp (process T H) wr (requests, h, w) = (Ok (), (requests, h, w))"
    by (rule stream_processor.drain_incomplete [OF p assms(2)])
qed

theorem incomplete_request_waits_witness:
  "drain_all show_thrift (process (binary_thrift 8) mock_server_handler) collect_stream ([128, 1], (), [])
    = (Ok (), ([128, 1], (), []))"
proof -
  have "process (binary_thrift 8) mock_server_handler (([128, 1], [], False), ())
      = (Err (TTransport ''EndOfFile'' ''unexpected end of input''), (([], [], True), ()))"
    by (simp add: process_def process_message_def binary_thrift_def get_message_def take_bytes_def
      bnd_def on_conn_def)
  from incomplete_request_waits [OF binary_stream_protocol this] show ?thesis
    by simp
qed

text \<open>
  C20: the memory a connection holds for a request is bounded: whatever the peer sends,
  the buffer of a connection that is still served is within \<open>MAX_REQUEST_BYTES\<close>.
\<close>

theorem request_buffer_bounded:
  assumes "stream_protocol T"
    and "serve_connection disp (process T H) wr reads ([], h, w) = (out, (requests, h', w'))"
  shows "length requests \<le> MAX_REQUEST_BYTES"
  by (rule stream_processor.serve_bounded [OF stream_protocol.extension_processor [OF assms(1)] _ assms(2)]) simp

theorem request_buffer_bounded_witness:
  "length (fst (snd (serve_connection show_thrift (process (binary_thrift 8) mock_server_handler) collect_stream
      [Ok [128, 1], Ok [0, 1]] ([], (), [])))) \<le> MAX_REQUEST_BYTES"
  using request_buffer_bounded [OF binary_stream_protocol, of show_thrift 8 mock_server_handler collect_stream
      "[Ok [128, 1], Ok [0, 1]]" "()" "[]"]
  by (metis prod.collapse)

text \<open>
  C15: serving a connection always comes to a point: with a handler whose methods return
  and a response stream that returns, and with fuel for more fields than the largest
  request has bytes, neither the loops of the decoder nor the loop over the buffered
  requests runs forever.
\<close>

theorem serving_ends:
  assumes "stream_protocol T" and "MAX_REQUEST_BYTES < t_fuel T"
    and "\<And>h. fst (handle_ping H h) \<noteq> Diverge" and "\<And>r i q h. fst (handle_call H r i q h) \<noteq> Diverge"
    and "\<And>h. fst (handle_shutdown H h) \<noteq> Diverge" and "\<And>v w. fst (wr v w) \<noteq> Diverge"
    and "Diverge \<notin> set reads"
  shows "fst (serve_connection disp (process T H) wr reads s) \<noteq> Served Diverge"
  by (rule stream_processor.serve_ends [OF stream_protocol.extension_processor [OF assms(1)] _ assms(6,7)])
    (use assms(2) in \<open>auto intro!: stream_protocol.process_ends [OF assms(1,3,4,5)] dest: notE\<close>)

theorem serving_ends_witness:
  "fst (serve_connection show_thrift (process (binary_thrift binary_fuel) mock_server_handler) collect_stream
      [Ok [128, 1], Ok [], Err (IoError ''ConnectionReset'' ''reset'')] ([], (), [])) \<noteq> Served Diverge"
  by (rule serving_ends [OF binary_stream_protocol])
    (simp_all add: binary_thrift_def binary_fuel_def MAX_REQUEST_BYTES_def mock_server_handler_def ret_def collect_stream_def)

end
