(* ===== verification/WireWellformed.thy ===== *)
theory WireWellformed
  imports Rpc
begin

text \<open>
  What the readers of \<open>src/src/osquery.rs\<close> make of any bytes at all, for any protocol: a map
  they return has its keys in order and once each, in every request, response, registry and
  list. \<open>yields m Q\<close> says so of one reader: when it succeeds, its value satisfies \<open>Q\<close>.
\<close>

section \<open>What a reader yields\<close>

definition yields :: "('s, 'a, 'e) act \<Rightarrow> ('a \<Rightarrow> bool) \<Rightarrow> bool" where
  "yields m Q = (\<forall>s x s'. m s = (Ok x, s') \<longrightarrow> Q x)"

named_theorems yields_intros \<open>closure of the readers\<close>

lemma yieldsD: "yields m Q \<Longrightarrow> m s = (Ok x, s') \<Longrightarrow> Q x"
  by (auto simp: yields_def)

lemma yields_top [yields_intros]: "yields m (\<lambda>_. True)"
  by (simp add: yields_def)

lemma yields_ret [yields_intros]: "Q x \<Longrightarrow> yields (ret x) Q"
  by (simp add: yields_def ret_def)

lemma yields_fail [yields_intros]: "yields (fail e) Q"
  by (simp add: yields_def fail_def)

lemma yields_stuck [yields_intros]: "yields diverge Q" "yields (panic p) Q"
  by (simp_all add: yields_def diverge_def panic_def)

lemma yields_bnd: "yields m R \<Longrightarrow> (\<And>x. R x \<Longrightarrow> yields (f x) Q) \<Longrightarrow> yields (bnd m f) Q"
  by (fastforce simp: yields_def bnd_def split: prod.splits result.splits)

lemma yields_seq [yields_intros]: "yields k Q \<Longrightarrow> yields (seq m k) Q"
  unfolding seq_def by (rule yields_bnd [OF yields_top])

lemma yields_if [yields_intros]:
  "(b \<Longrightarrow> yields m Q) \<Longrightarrow> (\<not> b \<Longrightarrow> yields k Q) \<Longrightarrow> yields (if b then m else k) Q"
  by simp

lemma yields_fields:
  assumes "\<And>fid ty x. Q x \<Longrightarrow> yields (arms fid ty x) Q"
  shows "Q x \<Longrightarrow> yields (read_fields T n arms x) Q"
proof (induction n arbitrary: x)
  case (Suc n)
  show ?case
    unfolding read_fields.simps
    by (rule yields_bnd [OF yields_top], rule yields_if, rule yields_ret, rule Suc.prems, rule yields_bnd [OF yields_top],
      rule yields_bnd [OF assms [OF Suc.prems]], rule yields_seq, rule Suc.IH)
qed (simp add: yields_intros)

lemma yields_struct:
  "(\<And>fid ty x. Q x \<Longrightarrow> yields (arms fid ty x) Q) \<Longrightarrow> Q x \<Longrightarrow> yields (read_struct T arms x) Q"
  unfolding read_struct_def
  by (intro yields_seq yields_bnd [where R = Q] yields_fields yields_ret)

lemma yields_skip_arm [yields_intros]: "Q x \<Longrightarrow> yields (skip_arm T ty x) Q"
  unfolding skip_arm_def by (intro yields_intros)

lemma yields_result: "yields re Q \<Longrightarrow> yields (read_result T re) (\<lambda>r. case r of None \<Rightarrow> True | Some v \<Rightarrow> Q v)"
  unfolding read_result_def
  by (intro yields_struct yields_if yields_bnd [where R = Q] yields_ret yields_skip_arm) simp_all

lemma yields_require_field: "(case v of None \<Rightarrow> True | Some x \<Rightarrow> Q x) \<Longrightarrow> yields (require_field T name v) Q"
  by (cases v) (simp_all add: require_field_def yields_intros)

section \<open>Maps and lists\<close>

definition btree_of :: "('v \<Rightarrow> bool) \<Rightarrow> ('k::linorder, 'v) btree \<Rightarrow> bool" where
  "btree_of Q m = (bt_wf m \<and> (\<forall>(k, v) \<in> set m. Q v))"

lemma set_bt_insert: "set (bt_insert k v m) \<subseteq> insert (k, v) (set m)"
  by (induction k v m rule: bt_insert.induct) auto

lemma btree_of_insert: "btree_of Q m \<Longrightarrow> Q v \<Longrightarrow> btree_of Q (bt_insert k v m)"
  using set_bt_insert [of k v m] by (fastforce simp: btree_of_def)

lemma yields_entries:
  "yields rv Q \<Longrightarrow> btree_of Q m \<Longrightarrow> yields (read_entries n rk rv m) (btree_of Q)"
proof (induction n arbitrary: m)
  case (Suc n)
  show ?case
    unfolding read_entries.simps
    by (rule yields_bnd [OF yields_top], rule yields_bnd [OF Suc.prems(1)])
      (rule Suc.IH [OF Suc.prems(1) btree_of_insert [OF Suc.prems(2)]])
qed (simp add: yields_ret)

lemma yields_btree: "yields rv Q \<Longrightarrow> yields (read_btree T rk rv) (btree_of Q)"
  unfolding read_btree_def
  by (intro yields_bnd [OF yields_top] yields_bnd [where R = "btree_of Q"] yields_seq yields_ret yields_entries)
    (simp_all add: btree_of_def)

lemma yields_items: "yields re Q \<Longrightarrow> yields (read_items n re) (\<lambda>xs. \<forall>x \<in> set xs. Q x)"
  by (induction n) (auto intro!: yields_ret yields_bnd [where m = re and R = Q] yields_bnd [where R = "\<lambda>xs. \<forall>x \<in> set xs. Q x"])

lemma yields_vec: "yields re Q \<Longrightarrow> yields (read_vec T re) (\<lambda>xs. \<forall>x \<in> set xs. Q x)"
  unfolding read_vec_def
  by (intro yields_bnd [OF yields_top] yields_if yields_stuck
      yields_bnd [where R = "\<lambda>xs. \<forall>x \<in> set xs. Q x"] yields_seq yields_ret yields_items)

section \<open>The structs\<close>

definition wf_rows :: "plugin_response \<Rightarrow> bool" where
  "wf_rows rows = (\<forall>row \<in> set rows. bt_wf row)"

definition wf_registry :: "extension_registry \<Rightarrow> bool" where
  "wf_registry = btree_of (btree_of wf_rows)"

lemma yields_string_map: "yields (read_string_map T) bt_wf"
  using yields_btree [OF yields_top, of T "rd_string T" "rd_string T"]
  by (auto simp: read_string_map_def yields_def btree_of_def)

lemma yields_plugin_response: "yields (read_plugin_response T) wf_rows"
  unfolding read_plugin_response_def wf_rows_def by (rule yields_vec [OF yields_string_map])

lemma yields_registry: "yields (read_registry T) wf_registry"
  unfolding read_registry_def read_route_table_def wf_registry_def
  by (intro yields_btree yields_plugin_response)

lemma yields_response: "yields (read_response T) (\<lambda>r. case wp_response r of None \<Rightarrow> True | Some rows \<Rightarrow> wf_rows rows)"
  unfolding read_response_def
  by (intro yields_struct yields_if yields_bnd [OF yields_top] yields_bnd [OF yields_plugin_response]
      yields_ret yields_skip_arm) (simp_all add: wf_rows_def)

lemma yields_call_args: "yields (read_call_args T) (\<lambda>a. bt_wf (ca_request a))"
  unfolding read_call_args_def
proof (rule yields_bnd [where R = "\<lambda>(f1, f2, f3). case f3 of None \<Rightarrow> True | Some m \<Rightarrow> bt_wf m"])
  show "yields (read_struct T (\<lambda>fid ty (f1, f2, f3).
      if fid = 1 then bnd (rd_string T) (\<lambda>v. ret (Some v, f2, f3))
      else if fid = 2 then bnd (rd_string T) (\<lambda>v. ret (f1, Some v, f3))
      else if fid = 3 then bnd (read_string_map T) (\<lambda>v. ret (f1, f2, Some v))
      else skip_arm T ty (f1, f2, f3)) (None, None, None))
      (\<lambda>(f1, f2, f3). case f3 of None \<Rightarrow> True | Some m \<Rightarrow> bt_wf m)"
    by (rule yields_struct)
      (auto intro!: yields_if yields_bnd [OF yields_top] yields_bnd [OF yields_string_map] yields_ret yields_skip_arm)
next
  fix x :: "string option \<times> string option \<times> plugin_request option"
  obtain f1 f2 f3 where x: "x = (f1, f2, f3)"
    by (cases x)
  assume "case x of (f1, f2, f3) \<Rightarrow> case f3 of None \<Rightarrow> True | Some m \<Rightarrow> bt_wf m"
  then have f3: "case f3 of None \<Rightarrow> True | Some m \<Rightarrow> bt_wf m"
    by (simp add: x)
  show "yields (case x of (f1, f2, f3) \<Rightarrow> bnd (require_field T ''ExtensionCallArgs.registry'' f1) (\<lambda>registry.
       bnd (require_field T ''ExtensionCallArgs.item'' f2) (\<lambda>item.
       bnd (require_field T ''ExtensionCallArgs.request'' f3) (\<lambda>request.
         ret \<lparr>ca_registry = registry, ca_item = item, ca_request = request\<rparr>)))) (\<lambda>a. bt_wf (ca_request a))"
    unfolding x prod.case
    by (rule yields_bnd [OF yields_top], rule yields_bnd [OF yields_top], rule yields_bnd [OF yields_require_field [OF f3]])
      (simp add: yields_ret)
qed

lemma yields_register_args: "yields (read_register_args T) (\<lambda>a. wf_registry (ra_registry a))"
  unfolding read_register_args_def
proof (rule yields_bnd [where R = "\<lambda>(f1, f2). case f2 of None \<Rightarrow> True | Some m \<Rightarrow> wf_registry m"])
  show "yields (read_struct T (\<lambda>fid ty (f1, f2).
      if fid = 1 then bnd (read_extension_info T) (\<lambda>v. ret (Some v, f2))
      else if fid = 2 then bnd (read_registry T) (\<lambda>v. ret (f1, Some v))
      else skip_arm T ty (f1, f2)) (None, None))
      (\<lambda>(f1, f2). case f2 of None \<Rightarrow> True | Some m \<Rightarrow> wf_registry m)"
    by (rule yields_struct)
      (auto intro!: yields_if yields_bnd [OF yields_top] yields_bnd [OF yields_registry] yields_ret yields_skip_arm)
next
  fix x :: "w_extension_info option \<times> extension_registry option"
  obtain f1 f2 where x: "x = (f1, f2)"
    by (cases x)
  assume "case x of (f1, f2) \<Rightarrow> case f2 of None \<Rightarrow> True | Some m \<Rightarrow> wf_registry m"
  then have f2: "case f2 of None \<Rightarrow> True | Some m \<Rightarrow> wf_registry m"
    by (simp add: x)
  show "yields (case x of (f1, f2) \<Rightarrow> bnd (require_field T ''ExtensionManagerRegisterExtensionArgs.info'' f1) (\<lambda>info.
       bnd (require_field T ''ExtensionManagerRegisterExtensionArgs.registry'' f2) (\<lambda>registry.
         ret \<lparr>ra_info = info, ra_registry = registry\<rparr>))) (\<lambda>a. wf_registry (ra_registry a))"
    unfolding x prod.case
    by (rule yields_bnd [OF yields_top], rule yields_bnd [OF yields_require_field [OF f2]]) (simp add: yields_ret)
qed

section \<open>Handlers see decoded values only\<close>

lemma bnd_cong_yields: "yields m Q \<Longrightarrow> (\<And>x. Q x \<Longrightarrow> f x = g x) \<Longrightarrow> bnd m f = bnd m g"
  by (rule ext) (auto simp: bnd_def dest: yieldsD split: prod.split result.split)

lemma yields_on_conn: "yields m Q \<Longrightarrow> yields (on_conn m) Q"
  by (auto simp: yields_def on_conn_def split: prod.splits)

lemma process_method_cong:
  assumes "yields rargs Q" and "\<And>a h. Q a \<Longrightarrow> handle a h = handle' a h"
  shows "process_method T name sq rargs handle wres = process_method T name sq rargs handle' wres"
  unfolding process_method_def
  by (rule bnd_cong_yields [OF yields_on_conn [OF assms(1)]]) (simp add: assms(2))

lemma process_cong:
  assumes "\<And>registry item request h. bt_wf request \<Longrightarrow>
      handle_call H registry item request h = handle_call H' registry item request h"
    and "handle_ping H = handle_ping H'" and "handle_shutdown H = handle_shutdown H'"
  shows "process T H = process T H'"
proof -
  have "process_call T H sq = process_call T H' sq" for sq
    unfolding process_call_def by (rule process_method_cong [OF yields_call_args]) (rule assms(1))
  then have "dispatch_extension T H = dispatch_extension T H'"
    by (intro ext) (simp add: dispatch_extension_def process_ping_def process_shutdown_def assms(2,3))
  then show ?thesis
    by (simp add: process_def)
qed

end
