(* ===== verification/Serving.thy ===== *)
theory Serving
  imports ServerRun Connection WireWellformed
begin

text \<open>
  The two views of the server put together. \<open>src/src/server/threaded.rs\<close> serves the bytes
  of a connection with the processor of \<open>src/src/osquery.rs\<close> over the handler of
  \<open>src/src/server/manager.rs\<close>; the step relation of \<open>ServerRun\<close> has the calls of that
  handler as its steps. Serving a connection, whatever the peer sends and whatever the
  protocol makes of it, is a sequence of those steps.
\<close>

section \<open>What a processor does to its handler\<close>

inductive handler_runs :: "('h, 'm) ext_handler_scheme \<Rightarrow> 'h \<Rightarrow> 'h \<Rightarrow> bool" for H where
  none: "handler_runs H h h"
| ping: "handler_runs H h h' \<Longrightarrow> handler_runs H h (snd (handle_ping H h'))"
| call: "handler_runs H h h' \<Longrightarrow> handler_runs H h (snd (handle_call H registry item request h'))"
| shutdown: "handler_runs H h h' \<Longrightarrow> handler_runs H h (snd (handle_shutdown H h'))"

lemma handler_runs_trans: "handler_runs H h' h'' \<Longrightarrow> handler_runs H h h' \<Longrightarrow> handler_runs H h h''"
  by (induction rule: handler_runs.induct) (auto intro: handler_runs.intros)

lemma on_conn_handler [simp]: "snd (snd (on_conn m s)) = snd s"
  by (cases s) (simp add: on_conn_def split: prod.split)

lemma process_method_handler:
  "snd (snd (process_method T name sq rargs handle wres s)) = snd s
    \<or> (\<exists>a. snd (snd (process_method T name sq rargs handle wres s)) = snd (handle a (snd s)))"
proof (cases s)
  case (Pair c h)
  obtain r c' where m: "rargs c = (r, c')"
    by (cases "rargs c")
  show ?thesis
  proof (cases r)
    case (Ok a)
    obtain r1 h1 where hd: "handle a h = (r1, h1)"
      by (cases "handle a h")
    have "snd (snd (process_method T name sq rargs handle wres (c, h))) = h1"
      using m Ok hd by (cases r1) (simp_all add: process_method_def bnd_def on_conn_def split: prod.split)
    then show ?thesis
      using Pair hd by (metis snd_conv)
  qed (use m Pair in \<open>simp_all add: process_method_def bnd_def on_conn_def\<close>)
qed

lemma process_method_runs:
  "(\<And>a. handler_runs H (snd s) (snd (handle a (snd s)))) \<Longrightarrow>
    handler_runs H (snd s) (snd (snd (process_method T name sq rargs handle wres s)))"
  using process_method_handler [of T name sq rargs handle wres s] handler_runs.none [of H "snd s"] by auto

lemma dispatch_extension_handler: "handler_runs H (snd s) (snd (snd (dispatch_extension T H mi s)))"
  unfolding dispatch_extension_def process_ping_def process_call_def process_shutdown_def
  by (simp add: fail_def handler_runs.none)
    (intro conjI impI process_method_runs handler_runs.ping handler_runs.call handler_runs.shutdown handler_runs.none)

lemma process_handler: "handler_runs H (snd s) (snd (snd (process T H s)))"
proof -
  obtain r s1 where m: "on_conn (rd_message_begin T) s = (r, s1)"
    by (cases "on_conn (rd_message_begin T) s")
  then have s1: "snd s1 = snd s"
    using on_conn_handler [of "rd_message_begin T" s] by simp
  show ?thesis
  proof (cases r)
    case (Ok mi)
    obtain rd s2 where d: "dispatch_extension T H mi s1 = (rd, s2)"
      by (cases "dispatch_extension T H mi s1")
    then have "handler_runs H (snd s) (snd s2)"
      using dispatch_extension_handler [of H s1 T mi] s1 by simp
    moreover have "snd (snd (process T H s)) = snd s2"
      using m Ok d by (cases rd) (simp_all add: process_def process_message_def bnd_def)
    ultimately show ?thesis by simp
  qed (use m s1 in \<open>simp_all add: process_def process_message_def bnd_def handler_runs.none\<close>)
qed

section \<open>What a connection does to its handler\<close>

lemma drain_requests_handler:
  "handler_runs H (fst (snd s)) (fst (snd (snd (drain_requests n disp (process T H) wr s))))"
proof (induction n arbitrary: s)
  case (Suc n)
  obtain q h w where s: "s = (q, h, w)"
    by (cases s)
  obtain r i v e h1 where p: "process T H ((q, [], False), h) = (r, ((i, v, e), h1))"
    by (metis prod.exhaust)
  have h1: "handler_runs H h h1"
    using process_handler [of H "((q, [], False), h)" T] by (simp add: p)
  have rest: "handler_runs H h (fst (snd (snd (drain_requests n disp (process T H) wr (i, h1, w')))))" for w'
    using handler_runs_trans [OF Suc.IH [of "(i, h1, w')"]] h1 by simp
  show ?case
    using h1 rest handler_runs.none unfolding s
    by (auto simp: p split: prod.split result.split)
qed (simp add: handler_runs.none)

lemma serve_connection_handler:
  "handler_runs H (fst (snd s)) (fst (snd (snd (serve_connection disp (process T H) wr reads s))))"
proof (induction reads arbitrary: s)
  case (Cons rd reads)
  obtain q h w where s: "s = (q, h, w)"
    by (cases s)
  have drained: "handler_runs H h (fst (snd s'))"
    if "drain_all disp (process T H) wr (q @ received, h, w) = (r, s')" for received r s'
    using drain_requests_handler [of H "(q @ received, h, w)" _ disp T wr] that
    by (metis drain_all_def fst_conv snd_conv)
  then have served: "handler_runs H h (fst (snd (snd (serve_connection disp (process T H) wr reads s'))))"
    if "drain_all disp (process T H) wr (q @ received, h, w) = (r, s')" for received r s'
    using handler_runs_trans [OF Cons.IH] that by blast
  show ?case
    using handler_runs.none drained served unfolding s
    by (auto split: prod.split result.split)
qed (simp add: handler_runs.none)

section \<open>Connections and the steps of the server\<close>

definition server_handler :: "('k, 'p) server \<Rightarrow> 'p handler_state" where
  "server_handler sv = \<lparr>hs_registry = sv_registry sv, hs_channel = sv_channel sv\<rparr>"

definition with_handler :: "('k, 'p) server \<Rightarrow> 'p handler_state \<Rightarrow> ('k, 'p) server" where
  "with_handler sv hs = sv\<lparr>sv_registry := hs_registry hs, sv_channel := hs_channel hs\<rparr>"

lemma on_handler_eq: "on_handler m (with_handler sv hs) = with_handler sv (snd (m hs))"
  by (cases hs) (simp add: on_handler_def with_handler_def split: prod.split)

lemma with_server_handler [simp]: "with_handler sv (server_handler sv) = sv"
  by (simp add: with_handler_def server_handler_def)

lemma on_handler_server: "on_handler m sv = with_handler sv (snd (m (server_handler sv)))"
  using on_handler_eq [of m sv "server_handler sv"] by simp

lemma handler_runs_steps:
  "handler_runs (extension_handler V) hs hs' \<Longrightarrow> others EM V (with_handler sv hs, w) (with_handler sv hs', w)"
proof (induction rule: handler_runs.induct)
  case (ping hs hs')
  then show ?case
    by (simp add: extension_handler_def ext_handle_ping_def ret_def)
next
  case (call hs hs' registry item request)
  then show ?case
    using others.trans [OF call.IH others_step.osquery_call [of EM V _ w registry item request]]
    by (simp add: extension_handler_def on_handler_eq)
next
  case (shutdown hs hs')
  then show ?case
    using others.trans [OF shutdown.IH others_step.osquery_shutdown]
    by (simp add: extension_handler_def on_handler_eq)
qed (rule others.refl)

lemma serving_steps:
  assumes "serve_connection disp (process T (extension_handler V)) wr reads (q, server_handler sv, w)
    = (out, (q', hs', w'))"
  shows "others EM V (sv, b) (with_handler sv hs', b)"
proof -
  have "handler_runs (extension_handler V) (server_handler sv) hs'"
    using serve_connection_handler [of "extension_handler V" "(q, server_handler sv, w)" disp T wr reads] assms by simp
  from handler_runs_steps [OF this, of EM sv b] show ?thesis
    by simp
qed

lemma others_append: "others EM V s' s'' \<Longrightarrow> others EM V s s' \<Longrightarrow> others EM V s s''"
  by (induction rule: others.induct) (auto intro: others.trans)

section \<open>Properties\<close>







end
