(* ===== verification/Session.thy ===== *)
theory Session
  imports Peer Serving BinaryProtocol
begin

text \<open>
  An extension's whole session with osquery. The server of \<open>src/src/server/manager.rs\<close> runs on
  the real client of \<open>src/src/client/manager.rs\<close>, whose connection leads to osquery. What
  osquery is, its handler and its state, is a parameter; the locale \<open>osquery_peer\<close> says what
  the session needs of it, and makes the client an \<open>answering_manager\<close>.
\<close>

section \<open>An osquery that answers\<close>

definition sendable :: "'b wire_enc \<Rightarrow> string \<Rightarrow> string option \<Rightarrow> extension_registry \<Rightarrow> bool" where
  "sendable E name version registry =
     wire_register_args E \<lparr>ra_info = registration_info name version, ra_registry = registry\<rparr>"

definition resting :: "('b chan \<times> ('b list \<times> 'h), 's) mgr_client \<Rightarrow> bool" where
  "resting k \<longleftrightarrow> (\<exists>h sq stream. k = resting_client h sq stream)"

lemma resting_restingI [simp]: "resting (resting_client h sq stream)"
  by (auto simp: resting_def)

text \<open>
  The three calls a session makes are answered, with a status or an error that can be
  sent; \<open>hang_up\<close> is what shutting down the socket does to the connection.
\<close>

locale osquery_peer = wire_protocol T E for T :: "'b chan thrift" and E :: "'b wire_enc" +
  fixes H :: "'h mgr_handler"
    and hang_up :: "'s \<Rightarrow> 'b chan \<times> ('b list \<times> 'h) \<Rightarrow> 'b chan \<times> ('b list \<times> 'h)"
  assumes names: "ok_string E ''ping''" "ok_string E ''registerExtension''" "ok_string E ''deregisterExtension''"
    and ping_answered: "sendable_answer T E (wire_status E) (fst (handle_ping H h))"
    and register_answered: "sendable_answer T E (wire_status E) (fst (handle_register_extension H info registry h))"
    and deregister_answered: "sendable_answer T E (wire_status E) (fst (handle_deregister_extension H uuid h))"
begin

lemma pings: "client_mgr_ping (osquery T H) (resting_client h sq stream)
    = (replied ping_reply (seen T norm_status (fst (handle_ping H h))), resting_client (snd (handle_ping H h)) (sq + 1) stream)"
  by (rule ping_osquery [OF names(1) prod.collapse [symmetric] ping_answered])

lemma registers:
  assumes "sendable E name version registry"
  shows "client_mgr_register_extension (osquery T H) name version registry (resting_client h sq stream)
    = (replied register_reply (seen T norm_status
          (fst (handle_register_extension H (norm_extension_info (registration_info name version)) registry h))),
        resting_client (snd (handle_register_extension H (norm_extension_info (registration_info name version)) registry h))
          (sq + 1) stream)"
  by (rule register_osquery [OF names(2) assms [unfolded sendable_def] prod.collapse [symmetric] register_answered])

lemma deregisters: "client_mgr_deregister_extension (osquery T H) uuid (resting_client h sq stream)
    = (replied ping_reply (seen T norm_status (fst (handle_deregister_extension H uuid h))),
        resting_client (snd (handle_deregister_extension H uuid h)) (sq + 1) stream)"
  by (rule deregister_osquery [OF names(3) prod.collapse [symmetric] deregister_answered])

lemma replied_ping_answers:
  "sendable_answer T E ok r \<Longrightarrow> is_ok (replied ping_reply (seen T norm_status r)) \<or> is_err (replied ping_reply (seen T norm_status r))"
  by (cases r) (auto simp: replied_def ping_reply_def Let_def)

end

sublocale osquery_peer \<subseteq> client: answering_manager "client_manager (osquery T H) hang_up" resting "sendable E"
proof unfold_locales
  fix k :: "('b chan \<times> ('b list \<times> 'h), 's) mgr_client" and name version registry uuid
  assume "resting k"
  then obtain h sq stream where k: "k = resting_client h sq stream"
    by (auto simp: resting_def)
  show "resting (snd (em_ping (client_manager (osquery T H) hang_up) k))"
    by (simp add: client_manager_def k pings)
  show "is_ok (fst (em_deregister_extension (client_manager (osquery T H) hang_up) uuid k))
      \<or> is_err (fst (em_deregister_extension (client_manager (osquery T H) hang_up) uuid k))"
    using replied_ping_answers [OF deregister_answered] by (simp add: client_manager_def k deregisters)
  show "resting (snd (em_register_extension (client_manager (osquery T H) hang_up) name version registry k))"
    if "sendable E name version registry"
    by (simp add: client_manager_def k registers [OF that])
qed


section \<open>What osquery has seen\<close>

text \<open>osquery between two states with nothing but pings of this extension's watcher.\<close>

definition pinged :: "'h mgr_handler \<Rightarrow> 'h \<Rightarrow> 'h \<Rightarrow> bool" where
  "pinged H = (\<lambda>h h'. h' = snd (handle_ping H h))\<^sup>*\<^sup>*"

lemma pinged_refl [simp]: "pinged H h h"
  by (simp add: pinged_def)

lemma pinged_step: "pinged H h h' \<Longrightarrow> pinged H h (snd (handle_ping H h'))"
  unfolding pinged_def by (rule rtranclp.rtrancl_into_rtrancl) simp_all

lemma pinged_by: "pinged H h h' \<Longrightarrow> h'' \<in> {h', snd (handle_ping H h')} \<Longrightarrow> pinged H h h''"
  using pinged_step by auto

text \<open>
  osquery is in the state \<open>h\<close>: the server's client is at rest with it, or was when the
  server closed it.
\<close>

definition osquery_at ::
  "('s \<Rightarrow> 'b chan \<times> ('b list \<times> 'h) \<Rightarrow> 'b chan \<times> ('b list \<times> 'h))
    \<Rightarrow> (('b chan \<times> ('b list \<times> 'h), 's) mgr_client, 'p) server \<Rightarrow> 'h \<Rightarrow> bool" where
  "osquery_at hang_up sv h \<longleftrightarrow> \<not> sv_client_poisoned sv \<and> (\<exists>sq stream.
     sv_client sv = Some (resting_client h sq stream)
     \<or> sv_client sv = None \<and> sv_closed sv = Some (client_mgr_close hang_up (resting_client h sq stream)))"

lemma osquery_at_same:
  "osquery_at hang_up sv h \<Longrightarrow> sv_client sv' = sv_client sv \<Longrightarrow> sv_client_poisoned sv' = sv_client_poisoned sv \<Longrightarrow>
    sv_closed sv' = sv_closed sv \<Longrightarrow> osquery_at hang_up sv' h"
  by (simp add: osquery_at_def)

lemma osquery_at_closed:
  assumes "osquery_at hang_up sv h" and "sv_client sv = Some k"
  shows "osquery_at hang_up (sv\<lparr>sv_client := None, sv_closed := Some (client_mgr_close hang_up k), sv_trace := t\<rparr>) h"
proof -
  obtain sq stream where "k = resting_client h sq stream" "\<not> sv_client_poisoned sv"
    using assms by (auto simp: osquery_at_def)
  then show ?thesis
    unfolding osquery_at_def by (intro conjI exI [of _ sq] exI [of _ stream]) simp_all
qed

text \<open>
  From the state \<open>h1\<close> on, osquery has had pings, and, if the deregistration of \<open>uuid\<close> was
  sent, that and more pings.
\<close>

definition visited ::
  "'h mgr_handler \<Rightarrow> ('s \<Rightarrow> 'b chan \<times> ('b list \<times> 'h) \<Rightarrow> 'b chan \<times> ('b list \<times> 'h)) \<Rightarrow> extension_uuid \<Rightarrow> 'h
    \<Rightarrow> (('b chan \<times> ('b list \<times> 'h), 's) mgr_client, 'p) server \<Rightarrow> bool" where
  "visited H hang_up uuid h1 sv \<longleftrightarrow> (\<exists>h2 h3. pinged H h1 h2 \<and> osquery_at hang_up sv h3
     \<and> (if Deregistered uuid \<in> set (sv_trace sv) then pinged H (snd (handle_deregister_extension H uuid h2)) h3 else h3 = h2))"

lemma visited_same:
  assumes "visited H hang_up uuid h1 sv" and "\<And>h. osquery_at hang_up sv h \<Longrightarrow> osquery_at hang_up sv' h"
    and "Deregistered uuid \<in> set (sv_trace sv') \<longleftrightarrow> Deregistered uuid \<in> set (sv_trace sv)"
  shows "visited H hang_up uuid h1 sv'"
  using assms unfolding visited_def by metis

lemma visited_ping:
  assumes "visited H hang_up uuid h1 sv" and "sv_trace sv' = sv_trace sv"
    and "\<And>h. osquery_at hang_up sv h \<Longrightarrow> \<exists>h'. h' \<in> {h, snd (handle_ping H h)} \<and> osquery_at hang_up sv' h'"
  shows "visited H hang_up uuid h1 sv'"
proof -
  from assms(1) obtain h2 h3 where h: "pinged H h1 h2" "osquery_at hang_up sv h3"
    "if Deregistered uuid \<in> set (sv_trace sv) then pinged H (snd (handle_deregister_extension H uuid h2)) h3 else h3 = h2"
    unfolding visited_def by blast
  obtain h' where h': "h' \<in> {h3, snd (handle_ping H h3)}" "osquery_at hang_up sv' h'"
    using assms(3) [OF h(2)] by blast
  show ?thesis
  proof (cases "Deregistered uuid \<in> set (sv_trace sv)")
    case True
    then show ?thesis
      using h h' assms(2) pinged_by [OF _ h'(1)] unfolding visited_def by (intro exI [of _ h2] exI [of _ h']) simp
  next
    case False
    then show ?thesis
      using h h' assms(2) pinged_by [OF h(1)] unfolding visited_def by (intro exI [of _ h'] exI [of _ h']) simp
  qed
qed

definition session_point ::
  "'h mgr_handler \<Rightarrow> ('s \<Rightarrow> 'b chan \<times> ('b list \<times> 'h) \<Rightarrow> 'b chan \<times> ('b list \<times> 'h)) \<Rightarrow> lock_env \<Rightarrow> extension_uuid \<Rightarrow> 'h
    \<Rightarrow> (('b chan \<times> ('b list \<times> 'h), 's) mgr_client, 'p) server \<Rightarrow> teardown_point \<Rightarrow> bool" where
  "session_point H hang_up env uuid h1 sv pc \<longleftrightarrow> visited H hang_up uuid h1 sv
     \<and> (case pc of
         Deregistering u \<Rightarrow> u = uuid \<and> Deregistered uuid \<notin> set (sv_trace sv) \<and> sv_client sv \<noteq> None
       | _ \<Rightarrow> \<not> le_busy env 0 \<longrightarrow> Deregistered uuid \<in> set (sv_trace sv))"

lemma session_point_same:
  assumes "session_point H hang_up env uuid h1 sv pc" and "\<And>u. pc \<noteq> Deregistering u" and "\<And>u. pc' \<noteq> Deregistering u"
    and "\<And>h. osquery_at hang_up sv h \<Longrightarrow> osquery_at hang_up sv' h"
    and "Deregistered uuid \<in> set (sv_trace sv') \<longleftrightarrow> Deregistered uuid \<in> set (sv_trace sv)"
  shows "session_point H hang_up env uuid h1 sv' pc'"
  using assms(1-3,5) visited_same [OF _ assms(4,5)]
  by (auto simp: session_point_def split: teardown_point.splits)

context osquery_peer
begin

abbreviation real_client :: "('b chan \<times> ('b list \<times> 'h), 's) mgr_client ext_manager" where
  "real_client \<equiv> client_manager (osquery T H) hang_up"

lemma ping_round_at:
  assumes "osquery_at hang_up sv h"
  shows "\<exists>h'. h' \<in> {h, snd (handle_ping H h)} \<and> osquery_at hang_up (fst (ping_round real_client sv)) h'"
proof (cases "sv_client sv")
  case (Some k)
  then obtain sq stream where k: "k = resting_client h sq stream" and p: "\<not> sv_client_poisoned sv"
    using assms by (auto simp: osquery_at_def)
  let ?r = "replied ping_reply (seen T norm_status (fst (handle_ping H h)))"
  have "em_ping real_client k = (?r, resting_client (snd (handle_ping H h)) (sq + 1) stream)"
    by (simp add: client_manager_def k pings)
  moreover have "is_ok ?r \<or> is_err ?r"
    by (rule replied_ping_answers [OF ping_answered])
  ultimately have "osquery_at hang_up (fst (ping_round real_client sv)) (snd (handle_ping H h))"
    using Some p by (cases ?r) (auto simp: ping_round_def on_client_lock_def osquery_at_def send_signal_def)
  then show ?thesis by blast
next
  case None
  then show ?thesis
    using assms by (auto simp: ping_round_def osquery_at_def send_signal_def)
qed

lemma others_step_at:
  assumes "others_step real_client V s s'" and "osquery_at hang_up (fst s) h"
  shows "\<exists>h'. h' \<in> {h, snd (handle_ping H h)} \<and> osquery_at hang_up (fst s') h'"
  using assms(1)
proof (cases rule: others_step.cases)
  case (ping sv)
  then show ?thesis
    using ping_round_at [of sv h] assms(2) by simp
qed (use assms(2) in \<open>auto simp: on_handler_def send_signal_def osquery_at_def split: prod.splits\<close>)

lemma others_step_visited:
  assumes "others_step real_client V s s'" and "visited H hang_up uuid h1 (fst s)"
  shows "visited H hang_up uuid h1 (fst s')"
  using others_step_frame [OF assms(1)] others_step_at [OF assms(1)]
  by (intro visited_ping [OF assms(2)]) (auto simp: same_frame_def)

lemma others_visited:
  "others real_client V s s' \<Longrightarrow> visited H hang_up uuid h1 (fst s) \<Longrightarrow> visited H hang_up uuid h1 (fst s')"
  by (induction rule: others.induct) (auto dest: others_step_visited)

text \<open>A deregistration that gets the lock reaches osquery; without it nothing changes.\<close>

lemma deregister_at:
  assumes "deregister_step real_client env uuid sv = (r, sv')" and "visited H hang_up uuid h1 sv"
    and "Deregistered uuid \<notin> set (sv_trace sv)" and "sv_client sv \<noteq> None"
  shows "visited H hang_up uuid h1 sv' \<and> (\<not> le_busy env 0 \<longrightarrow> Deregistered uuid \<in> set (sv_trace sv'))"
proof -
  from assms(2,3) obtain h where h: "pinged H h1 h" "osquery_at hang_up sv h"
    unfolding visited_def by auto
  then obtain sq stream where k: "sv_client sv = Some (resting_client h sq stream)" and p: "\<not> sv_client_poisoned sv"
    using assms(4) by (auto simp: osquery_at_def)
  let ?r = "replied ping_reply (seen T norm_status (fst (handle_deregister_extension H uuid h)))"
  let ?k = "resting_client (snd (handle_deregister_extension H uuid h)) (sq + 1) stream"
  have m: "em_deregister_extension real_client uuid (resting_client h sq stream) = (?r, ?k)"
    by (simp add: client_manager_def deregisters)
  show ?thesis
  proof (cases "try_lock_client env CLIENT_LOCK_DEADLINE sv = Locked")
    case True
    have "is_ok ?r \<or> is_err ?r"
      by (rule replied_ping_answers [OF deregister_answered])
    then have sv': "sv' = sv\<lparr>sv_client := Some ?k, sv_client_poisoned := False, sv_trace := sv_trace sv @ [Deregistered uuid]\<rparr>"
      using assms(1) True k m p by (cases ?r) (auto simp: deregister_step_def on_client_lock_def)
    have "osquery_at hang_up sv' (snd (handle_deregister_extension H uuid h))"
      by (auto simp: osquery_at_def sv')
    then show ?thesis
      using h(1) unfolding visited_def
      by (intro conjI exI [of _ h] exI [of _ "snd (handle_deregister_extension H uuid h)"]) (simp_all add: sv')
  next
    case False
    then have "le_busy env 0"
      using p by (cases "le_busy env 0") (simp_all add: try_lock_client_def)
    moreover have "sv' = sv"
      using False assms(1) by (auto simp: deregister_step_def split: lock_outcome.splits)
    ultimately show ?thesis
      using assms(2) by simp
  qed
qed

lemma session_own:
  assumes "session_point H hang_up env1 uuid h1 sv pc" and "teardown_step real_client V env1 env2 pc sv = (pc', sv')"
  shows "session_point H hang_up env1 uuid h1 sv' pc'"
proof (cases pc)
  case (Deregistering u)
  then obtain r where d: "deregister_step real_client env1 uuid sv = (r, sv')"
    and pc': "pc' = (case r of Ok x \<Rightarrow> StoppingListener | _ \<Rightarrow> TornDown r)"
    using assms by (auto simp: session_point_def split: prod.splits result.splits)
  have "visited H hang_up uuid h1 sv' \<and> (\<not> le_busy env1 0 \<longrightarrow> Deregistered uuid \<in> set (sv_trace sv'))"
    using assms(1) by (intro deregister_at [OF d]) (simp_all add: session_point_def Deregistering)
  then show ?thesis
    by (auto simp: session_point_def pc' split: result.splits)
next
  case StoppingListener
  then have s: "sv' = stop_listener_step sv" "pc' = LockingRegistry"
    using assms(2) by simp_all
  show ?thesis
    by (rule session_point_same [OF assms(1)])
      (auto simp: StoppingListener s stop_listener_step_def intro: osquery_at_same)
next
  case LockingRegistry
  then show ?thesis
    using assms(2) by (intro session_point_same [OF assms(1)]) (auto split: if_splits)
next
  case (TellingPlugins rns)
  show ?thesis
  proof (cases rns)
    case (Cons rn rns)
    obtain rname n where rn: "rn = (rname, n)" by (cases rn)
    obtain res sv1 where m: "shutdown_plugin V (rname, n) sv = (res, sv1)"
      by (cases "shutdown_plugin V (rname, n) sv")
    then have sv': "sv' = leave_registry res sv1" and pc': "pc' = (case res of Ok x \<Rightarrow> TellingPlugins rns | _ \<Rightarrow> TornDown res)"
      using assms(2) by (auto simp: TellingPlugins Cons rn split: result.splits)
    have "only_plugins sv sv'"
      using only_plugins_trans [OF shutdown_plugin_frame [of sv V rn] leave_registry_frame [where r = res]] by (simp add: m rn sv')
    note keeps = only_plugins_keeps [OF this]
    obtain e where "sv_trace sv' = sv_trace sv @ e" "e \<in> {[], [PluginShutdown rname n]}"
      using shutdown_plugin_told(3) [OF m] by (auto simp: sv')
    then have "Deregistered uuid \<in> set (sv_trace sv') \<longleftrightarrow> Deregistered uuid \<in> set (sv_trace sv)"
      by auto
    then show ?thesis
      by (intro session_point_same [OF assms(1)])
        (auto simp: TellingPlugins pc' keeps intro: osquery_at_same [OF _ keeps(1,2,6)] split: result.splits)
  qed (use assms(2) in \<open>intro session_point_same [OF assms(1)]; auto simp: TellingPlugins\<close>)
next
  case ClosingClient
  then obtain r where c: "close_client_step real_client env2 sv = (r, sv')" and pc': "pc' = TornDown r"
    using assms(2) by (auto split: prod.splits)
  show ?thesis
    using c by (intro session_point_same [OF assms(1)])
      (auto simp: ClosingClient pc' close_client_step_def client_manager_def intro: osquery_at_closed
        split: if_splits lock_outcome.splits option.splits)
qed (use assms in auto)

lemma teardown_session:
  assumes "teardown real_client V env1 env2 s pc s' pc'" and "session_point H hang_up env1 uuid h1 (fst s) pc"
  shows "session_point H hang_up env1 uuid h1 (fst s') pc'"
  using assms
proof (induction rule: teardown.induct)
  case (own s pc sv w pc1 pc2 sv')
  from own.IH own.prems have "session_point H hang_up env1 uuid h1 sv pc1"
    by simp
  from session_own [OF this own.hyps(2)] show ?case
    by simp
next
  case (beside s pc s1 pc1 s2)
  then have s1: "session_point H hang_up env1 uuid h1 (fst s1) pc1"
    by simp
  show ?case
    using s1 others_step_visited [OF beside.hyps(2)] others_step_frame [OF beside.hyps(2)]
    by (auto simp: session_point_def same_frame_def split: teardown_point.splits)
qed simp

text \<open>The registration, as osquery had it.\<close>

lemma begin_run_registers:
  assumes "begin_run real_client V rt sv = (Ok u, sv1)" and "sv_client sv = Some (resting_client h sq stream)"
    and "gen_registry V (sv_registry sv) = Ok registry" and "sendable E (sv_name sv) (sv_version sv) registry"
    and "handle_register_extension H (norm_extension_info (registration_info (sv_name sv) (sv_version sv))) registry h
      = (answer, h1)"
  shows "\<exists>uuid. replied register_reply (seen T norm_status answer) = Ok uuid \<and> sv_uuid sv1 = Some uuid
    \<and> sv_trace sv1 = sv_trace sv \<and> osquery_at hang_up sv1 h1"
proof -
  let ?sv = "sv\<lparr>sv_rx := False\<rparr>"
  have "start real_client V rt ?sv = (Ok u, sv1)"
    using assms(1) by (auto simp: begin_run_def split: if_splits prod.splits result.splits)
  then obtain uuid sv2 where r: "register_extension real_client V ?sv = (Ok uuid, sv2)"
    and sv1: "sv1 = sv2\<lparr>sv_stop_handle := True, sv_listener := Some new_extension_server\<rparr>"
    by (rule start_Ok)
  have m: "em_register_extension real_client (sv_name sv) (sv_version sv) registry (resting_client h sq stream)
      = (replied register_reply (seen T norm_status answer), resting_client h1 (sq + 1) stream)"
    by (simp add: client_manager_def registers [OF assms(4)] assms(5))
  have p: "\<not> sv_client_poisoned sv"
    using r assms(3) by (auto simp: register_extension_def split: if_splits)
  show ?thesis
  proof (cases "replied register_reply (seen T norm_status answer)")
    case (Ok uuid')
    then have "uuid' = uuid \<and> sv2 = ?sv\<lparr>sv_client := Some (resting_client h1 (sq + 1) stream), sv_client_poisoned := False,
        sv_uuid := Some uuid, sv_listen_path := Some (sv_socket_path sv @ ''.'' @ show_i64 uuid)\<rparr>"
      using r m assms(2,3) p by (auto simp: register_extension_def on_client_lock_def)
    then show ?thesis
      using Ok by (auto simp: sv1 osquery_at_def)
  qed (use r m assms(2,3) p in \<open>simp_all add: register_extension_def on_client_lock_def\<close>)
qed

text \<open>A shutdown of a registered server, after which osquery has had its deregistration.\<close>

lemma shutdown_visits:
  assumes "shutdown_beside real_client V env1 env2 (sv, w) r (sv', w')" and "sv_uuid sv = Some uuid"
    and "visited H hang_up uuid h1 sv" and "Deregistered uuid \<notin> set (sv_trace sv)" and "sv_client sv \<noteq> None"
  shows "visited H hang_up uuid h1 sv' \<and> (\<not> le_busy env1 0 \<longrightarrow> Deregistered uuid \<in> set (sv_trace sv'))"
proof -
  let ?sv = "sv\<lparr>sv_uuid := None\<rparr>"
  have t: "teardown real_client V env1 env2 (?sv, w) (Deregistering uuid) (sv', w') (TornDown r)"
    using assms(1,2) by (auto elim!: shutdown_besideE)
  have "visited H hang_up uuid h1 ?sv"
    by (rule visited_same [OF assms(3)]) (auto intro: osquery_at_same)
  then have "session_point H hang_up env1 uuid h1 ?sv (Deregistering uuid)"
    using assms(4,5) by (simp add: session_point_def)
  then have "session_point H hang_up env1 uuid h1 sv' (TornDown r)"
    using teardown_session [OF t] by simp
  then show ?thesis
    by (simp add: session_point_def)
qed

lemma finished_run_visits:
  assumes "runs real_client V rt env1 env2 sv r sv'" and "begin_run real_client V rt sv = (Ok (), sv1)"
    and "sv_uuid sv1 = Some uuid" and "sv_trace sv1 = []" and "osquery_at hang_up sv1 h1"
  shows "visited H hang_up uuid h1 sv' \<and> (\<not> le_busy env1 0 \<longrightarrow> Deregistered uuid \<in> set (sv_trace sv'))
    \<and> sv_uuid sv' = None"
proof -
  obtain sv2 w signal ended sv3 w3 sv4 w4 where o: "others real_client V (sv1, True) (sv2, w)"
    and d: "shutdown_beside real_client V env1 env2 (receive_signal sv2, w) ended (sv3, w3)"
    and o4: "others real_client V (sv3, w3) (sv4, w4)" and f: "finish_run ended signal sv4 = (r, sv')"
    by (rule runs_begun [OF assms(1,2)])
  have "visited H hang_up uuid h1 sv1"
    using assms(4,5) unfolding visited_def by (intro exI [of _ h1]) simp
  then have "visited H hang_up uuid h1 sv2"
    using others_visited [OF o] by simp
  then have v2: "visited H hang_up uuid h1 (receive_signal sv2)"
    by (rule visited_same) (auto simp: receive_signal_def intro: osquery_at_same)
  have fr: "sv_uuid (receive_signal sv2) = Some uuid" "sv_trace (receive_signal sv2) = []" "sv_client (receive_signal sv2) \<noteq> None"
    using others_frame [OF o] assms(3,4) begin_run_Ok [OF assms(2)] by (auto simp: same_frame_def receive_signal_def)
  have p3: "visited H hang_up uuid h1 sv3 \<and> (\<not> le_busy env1 0 \<longrightarrow> Deregistered uuid \<in> set (sv_trace sv3))"
    by (rule shutdown_visits [OF d fr(1) v2]) (simp_all add: fr)
  then have "visited H hang_up uuid h1 sv4"
    using others_visited [OF o4] by simp
  moreover have sv': "sv' = sv4\<lparr>sv_channel := (sv_channel sv4)\<lparr>ch_open := False\<rparr>\<rparr>"
    using f by (simp add: finish_run_def)
  ultimately have "visited H hang_up uuid h1 sv'"
    by (rule_tac visited_same) (auto intro: osquery_at_same)
  moreover have "sv_trace sv' = sv_trace sv3" "sv_uuid sv' = None"
    using others_frame [OF o4] shutdown_beside_unregisters [OF d] by (simp_all add: sv' same_frame_def)
  ultimately show ?thesis
    using p3 by simp
qed

lemma session_seen:
  assumes "runs real_client V rt env1 env2 sv r sv'" and "begin_run real_client V rt sv = (Ok (), sv1)"
    and "sv_client sv = Some (resting_client h sq stream)" and "sv_trace sv = []"
    and "gen_registry V (sv_registry sv) = Ok registry" and "sendable E (sv_name sv) (sv_version sv) registry"
  shows "\<exists>answer h1 uuid h2 h3. handle_register_extension H
        (norm_extension_info (registration_info (sv_name sv) (sv_version sv))) registry h = (answer, h1)
    \<and> replied register_reply (seen T norm_status answer) = Ok uuid
    \<and> pinged H h1 h2
    \<and> (if Deregistered uuid \<in> set (sv_trace sv') then pinged H (snd (handle_deregister_extension H uuid h2)) h3
       else h3 = h2 \<and> le_busy env1 0)
    \<and> osquery_at hang_up sv' h3"
proof -
  obtain answer h1 where a: "handle_register_extension H
      (norm_extension_info (registration_info (sv_name sv) (sv_version sv))) registry h = (answer, h1)"
    by (cases "handle_register_extension H (norm_extension_info (registration_info (sv_name sv) (sv_version sv))) registry h")
  obtain uuid where u: "replied register_reply (seen T norm_status answer) = Ok uuid" "sv_uuid sv1 = Some uuid"
    and s1: "sv_trace sv1 = []" "osquery_at hang_up sv1 h1"
    using begin_run_registers [OF assms(2,3,5,6) a] assms(4) by auto
  have "visited H hang_up uuid h1 sv' \<and> (\<not> le_busy env1 0 \<longrightarrow> Deregistered uuid \<in> set (sv_trace sv'))"
    using finished_run_visits [OF assms(1,2) u(2) s1] by simp
  then show ?thesis
    using a u(1) unfolding visited_def by (metis (full_types))
qed

end

section \<open>An instance\<close>

text \<open>For the witnesses: an osquery that notes the calls it gets, over the binary protocol.\<close>

definition noting_osquery :: "string list mgr_handler" where
  "noting_osquery =
     \<lparr>handle_ping = \<lambda>s. (Ok (mk_status 0 ''OK'' None), s @ [''ping'']),
      handle_call = \<lambda>registry item request s. (Ok (mk_response (mk_status 1 ''no such plugin'' None) None), s @ [''call'']),
      handle_shutdown = \<lambda>s. (Ok (), s @ [''shutdown'']),
      handle_extensions = \<lambda>s. (Ok [], s @ [''extensions'']), handle_options = \<lambda>s. (Ok [], s @ [''options'']),
      handle_register_extension = \<lambda>info registry s. (Ok (mk_status 0 ''OK'' (Some (I64 7))), s @ [''registerExtension'']),
      handle_deregister_extension = \<lambda>uuid s. (Ok (mk_status 0 ''OK'' None), s @ [''deregisterExtension'']),
      handle_query = \<lambda>sql s. (Ok (mk_response (mk_status 0 ''OK'' None) (Some [[(''sql'', sql)]])), s @ [''query'']),
      handle_get_query_columns = \<lambda>sql s. (Ok (mk_response (mk_status 1 sql None) None), s @ [''getQueryColumns''])\<rparr>"

interpretation noting: osquery_peer "binary_thrift 8" binary_enc noting_osquery "\<lambda>_ c. c"
proof -
  have "wire_protocol (binary_thrift 8) binary_enc"
    by (rule binary_wire_protocol) simp
  then show "osquery_peer (binary_thrift 8) binary_enc noting_osquery"
    by (intro osquery_peer.intro osquery_peer_axioms.intro)
      (simp_all add: wire_evaluation noting_osquery_def mk_status_def)
qed

section \<open>Properties\<close>

text \<open>
  C32: a query comes back from osquery. A query of the client runs osquery's handler once,
  with the SQL text, and leaves the connection with nothing unread. It returns the rows when
  the handler's code is zero, no rows where there are none, and otherwise the code and the
  message; an error of the handler arrives as an application exception.
\<close>

theorem query_is_answered:
  assumes "wire_protocol T E" and "ok_string E ''query''" and "ok_string E sql"
    and "handle_query H sql h = (answer, h')" and "sendable_answer T E (wire_response E) answer"
  shows "\<exists>result. client_mgr_query (osquery T H) sql (resting_client h sq stream) = (result, resting_client h' (sq + 1) stream)
    \<and> (\<forall>code message rows. answer = Ok (mk_response (mk_status code message None) rows) \<longrightarrow>
        result = (if code = 0 then Ok (unwrap_or [] rows) else Err (Status code message)))
    \<and> (\<forall>e. answer = Err e \<longrightarrow> result = Err (from_thrift (TApplication (to_app_error T e))))"
proof -
  have "client_mgr_query (osquery T H) sql (resting_client h sq stream)
      = (replied response_rows (seen T norm_response answer), resting_client h' (sq + 1) stream)"
    by (rule wire_protocol.query_osquery [OF assms])
  moreover have "replied response_rows (seen T norm_response answer) = (if code = 0 then Ok (unwrap_or [] rows) else Err (Status code message))"
    if "answer = Ok (mk_response (mk_status code message None) rows)" for code message rows
    using that by (cases rows) (simp_all add: replied_def response_rows_def norm_response_def norm_status_def or_default_def
      mk_response_def mk_status_def)
  moreover have "replied response_rows (seen T norm_response answer) = Err (from_thrift (TApplication (to_app_error T e)))"
    if "answer = Err e" for e
    by (simp add: that replied_def)
  ultimately show ?thesis by blast
qed

theorem query_is_answered_witness:
  "client_mgr_query (osquery (binary_thrift 8) noting_osquery) ''select 1'' (resting_client [] 0 (None :: unit option))
    = (Ok [[(''sql'', ''select 1'')]], resting_client [''query''] 1 None)"
proof -
  have T: "wire_protocol (binary_thrift 8) binary_enc"
    by (rule binary_wire_protocol) simp
  show ?thesis
    using query_is_answered [OF T, of "''select 1''" noting_osquery "[]" "Ok (mk_response (mk_status 0 ''OK'' None) (Some [[(''sql'', ''select 1'')]]))"
      "[''query'']" 0 "None :: unit option"]
    by (auto simp: wire_evaluation noting_osquery_def mk_response_def mk_status_def)
qed

end
