(* ===== verification/Json.thy ===== *)
theory Json
  imports Errors
begin

text \<open>
  JSON values as \<open>serde_json::Value\<close> has them, and what the plugins use of that crate. The
  parser, the printer and the texts of its errors are third party and come in the record
  \<open>json_lib\<close>; picking values apart is the code's own work. A number that is not an
  integer carries its text.
\<close>

datatype json_number = JInt int | JFloat string

datatype json =
    JNull
  | JBool bool
  | JNumber json_number
  | JString string
  | JArray "json list"
  | JObject "(string \<times> json) list"

text \<open>
  \<open>jl_parse\<close> is \<open>from_str::<Value>\<close> with the text of its error, \<open>jl_show\<close> the compact
  text of a value, and \<open>jl_error t v\<close> the text of the error of the derived deserializer
  of the type named \<open>t\<close> on a value \<open>v\<close> it rejects.
\<close>

record json_lib =
  jl_parse :: "string \<Rightarrow> (json, string) result"
  jl_show :: "json \<Rightarrow> string"
  jl_error :: "string \<Rightarrow> json \<Rightarrow> string"

text \<open>A function that takes a value apart, with the text of its error.\<close>

type_synonym 'a decoder = "json \<Rightarrow> ('a, string) result"

text \<open>\<open>from_str\<close> of a type that is read through a value.\<close>

definition from_json_str :: "json_lib \<Rightarrow> 'a decoder \<Rightarrow> string \<Rightarrow> ('a, string) result" where
  "from_json_str L decode s = bind_result (jl_parse L s) decode"

definition json_get :: "string \<Rightarrow> json \<Rightarrow> json option" where
  "json_get key v = (case v of JObject fs \<Rightarrow> map_of fs key | _ \<Rightarrow> None)"

text \<open>\<open>value.get(key).unwrap_or(&Value::Null)\<close>\<close>

definition json_get_or_null :: "string \<Rightarrow> json \<Rightarrow> json" where
  "json_get_or_null key v = (case json_get key v of None \<Rightarrow> JNull | Some x \<Rightarrow> x)"

text \<open>An integer that fits: \<open>is_i64\<close> and \<open>as_i64\<close>.\<close>

fun json_i64 :: "json_number \<Rightarrow> i64 option" where
  "json_i64 (JInt i) = (if in_i64 i then Some (i64_of_int i) else None)"
| "json_i64 (JFloat s) = None"

fun decode_string :: "json_lib \<Rightarrow> string decoder" where
  "decode_string L (JString s) = Ok s"
| "decode_string L v = Err (jl_error L ''String'' v)"

primrec decode_list :: "'a decoder \<Rightarrow> json list \<Rightarrow> ('a list, string) result" where
  "decode_list d [] = Ok []"
| "decode_list d (v # vs) = bind_result (d v) (\<lambda>x. bind_result (decode_list d vs) (\<lambda>xs. Ok (x # xs)))"

fun decode_vec :: "json_lib \<Rightarrow> 'a decoder \<Rightarrow> 'a list decoder" where
  "decode_vec L d (JArray vs) = decode_list d vs"
| "decode_vec L d v = Err (jl_error L ''Vec'' v)"

primrec decode_fields :: "'a decoder \<Rightarrow> (string \<times> json) list \<Rightarrow> ((string \<times> 'a) list, string) result" where
  "decode_fields d [] = Ok []"
| "decode_fields d (kv # kvs) =
     bind_result (d (snd kv)) (\<lambda>x. bind_result (decode_fields d kvs) (\<lambda>xs. Ok ((fst kv, x) # xs)))"

fun decode_map :: "json_lib \<Rightarrow> 'a decoder \<Rightarrow> (string, 'a) btree decoder" where
  "decode_map L d (JObject fs) = map_ok bt_of (decode_fields d fs)"
| "decode_map L d v = Err (jl_error L ''BTreeMap'' v)"

text \<open>A required field, and a field with a default.\<close>

definition json_field :: "json_lib \<Rightarrow> string \<Rightarrow> 'a decoder \<Rightarrow> string \<Rightarrow> 'a decoder" where
  "json_field L ty d key v =
     (case json_get key v of None \<Rightarrow> Err (jl_error L ty v) | Some x \<Rightarrow> d x)"

definition json_field_default :: "'a \<Rightarrow> 'a decoder \<Rightarrow> string \<Rightarrow> 'a decoder" where
  "json_field_default dflt d key v =
     (case json_get key v of None \<Rightarrow> Ok dflt | Some x \<Rightarrow> d x)"

text \<open>
  The derived deserializer of a struct takes an object, or an array with the fields in
  order. (It refuses a document that repeats a key, which a \<open>Value\<close> cannot.)
\<close>

fun struct_fields :: "json_lib \<Rightarrow> string \<Rightarrow> string list \<Rightarrow> json decoder" where
  "struct_fields L ty names (JObject fs) = Ok (JObject fs)"
| "struct_fields L ty names (JArray vs) =
     (if length vs \<le> length names then Ok (JObject (zip names vs)) else Err (jl_error L ty (JArray vs)))"
| "struct_fields L ty names v = Err (jl_error L ty v)"

section \<open>Lemmas\<close>

lemma json_get_object [simp]: "json_get k (JObject fs) = map_of fs k"
  by (simp add: json_get_def)

lemma decode_list_Ok_iff: "decode_list d vs = Ok xs \<longleftrightarrow> list_all2 (\<lambda>v x. d v = Ok x) vs xs"
  by (induction vs arbitrary: xs) (auto simp: bind_result_Ok_iff list_all2_Cons1)

lemma decode_list_map: "(\<And>x. x \<in> set xs \<Longrightarrow> d (f x) = Ok (g x)) \<Longrightarrow> decode_list d (map f xs) = Ok (map g xs)"
  by (induction xs) simp_all

lemma decode_fields_map:
  "(\<And>k x. (k, x) \<in> set kvs \<Longrightarrow> d (f x) = Ok x) \<Longrightarrow> decode_fields d (map (\<lambda>(k, x). (k, f x)) kvs) = Ok kvs"
proof (induction kvs)
  case (Cons kv kvs)
  have "d (f (snd kv)) = Ok (snd kv)"
    by (rule Cons.prems [of "fst kv"]) simp
  moreover have "decode_fields d (map (\<lambda>(k, x). (k, f x)) kvs) = Ok kvs"
  proof (rule Cons.IH)
    show "d (f x) = Ok x" if "(k, x) \<in> set kvs" for k x
      using that by (intro Cons.prems [of k]) simp
  qed
  ultimately show ?case
    by (cases kv) simp
qed simp

lemma decode_string_map:
  "decode_fields (decode_string L) (map (\<lambda>(k, x). (k, JString x)) kvs) = Ok kvs"
  by (rule decode_fields_map) simp

text \<open>A library for the witnesses: it knows one document and one text.\<close>

definition one_document :: "json \<Rightarrow> json_lib" where
  "one_document v = \<lparr>jl_parse = \<lambda>s. if s = ''doc'' then Ok v else Err ''bad'', jl_show = \<lambda>_. ''doc'', jl_error = \<lambda>t _. t\<rparr>"

end
