(* ===== verification/Plugin.thy ===== *)
theory Plugin
  imports Registry Json
begin

text \<open>
  What the plugins of \<open>src/src/plugin\<close> share: a request is dispatched on its
  \<open>action\<close>, an action a plugin does not know is refused without running a callback, and a
  callback's \<open>Error::Status\<close> passes through unchanged. The locales state both contracts;
  each plugin's theory interprets them on its own \<open>call\<close>.
\<close>

definition request_action :: "plugin_request \<Rightarrow> string option" where
  "request_action req = bt_get req ''action''"

definition unknown_action :: "string \<Rightarrow> error" where
  "unknown_action action = Other (''unknown action: '' @ action)"

definition missing_action :: error where
  "missing_action = Other ''missing action''"

section \<open>Refusing what a plugin does not know\<close>

locale action_plugin =
  fixes call :: "plugin_request \<Rightarrow> ('p, plugin_response, error) act"
    and actions :: "string set"
  assumes missing: "request_action req = None \<Longrightarrow> call req p = (Err missing_action, p)"
    and unknown: "request_action req = Some a \<Longrightarrow> a \<notin> actions \<Longrightarrow> call req p = (Err (unknown_action a), p)"
begin

definition refusal :: "plugin_request \<Rightarrow> error" where
  "refusal req = (case request_action req of None \<Rightarrow> missing_action | Some a \<Rightarrow> unknown_action a)"

lemma refused:
  "(\<And>a. request_action req = Some a \<Longrightarrow> a \<notin> actions) \<Longrightarrow> call req p = (Err (refusal req), p)"
  by (cases "request_action req") (simp_all add: refusal_def missing unknown)

text \<open>Over the wire the refusal is status 1 with its text and no rows.\<close>

lemma refused_on_wire:
  assumes "pl_call V = call" and "\<not> ce_poisoned c" and "\<And>a. request_action req = Some a \<Longrightarrow> a \<notin> actions"
  shows "call_locked V req c = (Ok (failure_response (show_error (refusal req))), c)"
proof -
  have "call req (ce_plugin c) = (Err (refusal req), ce_plugin c)"
    using assms(3) by (rule refused)
  moreover have "\<exists>text. refusal req = Other text"
    by (auto simp: refusal_def missing_action_def unknown_action_def split: option.split)
  ultimately show ?thesis
    using assms(1,2) by (auto simp: call_locked_def failure_response_def)
qed

lemma refused_changes_nothing:
  assumes "pl_call V = call" and "\<And>a. request_action req = Some a \<Longrightarrow> a \<notin> actions"
    and "\<not> rg_poisoned (hs_registry hs)" and "registry_ok (hs_registry hs)"
    and "lookup_cell (hs_registry hs) r item = Some c" and "\<not> ce_poisoned c"
  shows "ext_handle_call V (registry_name_display r) item req hs
    = (Ok (failure_response (show_error (refusal req))), hs)"
proof -
  have "set_cell r item c (hs_registry hs) = hs_registry hs"
    using assms(4,5) by (rule set_cell_same)
  then show ?thesis
    using refused_on_wire [OF assms(1,6,2)] ext_handle_call_found [OF assms(3,5), of V req] by simp
qed

end

section \<open>Passing on a status\<close>

text \<open>
  \<open>callback r\<close> is the reply when the callback's result is \<open>r\<close>: a status stays what it
  is, any other error is wrapped and is not a status.
\<close>

locale status_passthrough =
  fixes reply :: "('a, error) result \<Rightarrow> (plugin_response, error) result"
  assumes status: "reply (Err (Status code message)) = Err (Status code message)"
    and other: "\<not> is_status e \<Longrightarrow> \<exists>e'. reply (Err e) = Err e' \<and> \<not> is_status e'"
begin

lemma status_iff: "reply (Err e) = Err (Status code message) \<longleftrightarrow> e = Status code message"
proof (cases "is_status e")
  case True
  then show ?thesis by (auto simp: is_status_iff status)
next
  case False
  with other obtain e' where "reply (Err e) = Err e'" "\<not> is_status e'"
    by blast
  with False show ?thesis
    by auto
qed

text \<open>The client of osquery sees the callback's status, and status 1 for any other error.\<close>

lemma reported_status:
  assumes "code \<noteq> 0"
  shows "reported (reply (Err (Status code message))) = Err (Status code message)"
  using assms by (simp add: status)

lemma reported_other:
  assumes "\<not> is_status e"
  shows "\<exists>text. reported (reply (Err e)) = Err (Status 1 text)"
proof -
  obtain e' where "reply (Err e) = Err e'" "\<not> is_status e'"
    using assms other by blast
  then show ?thesis
    by (cases e') auto
qed

end

end
