(* ===== verification/Table.thy ===== *)
theory Table
  imports Plugin
begin

text \<open>
  \<open>src/src/plugin/table.rs\<close>: columns and their options, the query context with its
  constraints and operators, read-only tables and writable ones with their mutations.
\<close>

section \<open>Column types and definitions\<close>

datatype column_type = CUnknown | CText | CInteger | CBigInt | CUnsignedBigInt | CDouble | CBlob

primrec column_type_display :: "column_type \<Rightarrow> string" where
  "column_type_display CUnknown = ''UNKNOWN''"
| "column_type_display CText = ''TEXT''"
| "column_type_display CInteger = ''INTEGER''"
| "column_type_display CBigInt = ''BIGINT''"
| "column_type_display CUnsignedBigInt = ''UNSIGNED BIGINT''"
| "column_type_display CDouble = ''DOUBLE''"
| "column_type_display CBlob = ''BLOB''"

primrec column_type_serialize :: "column_type \<Rightarrow> string" where
  "column_type_serialize CUnknown = ''unknown''"
| "column_type_serialize CText = ''text''"
| "column_type_serialize CInteger = ''integer''"
| "column_type_serialize CBigInt = ''bigint''"
| "column_type_serialize CUnsignedBigInt = ''unsigned_bigint''"
| "column_type_serialize CDouble = ''double''"
| "column_type_serialize CBlob = ''blob''"

text \<open>The derived \<open>Deserialize\<close>, on the names in upper case.\<close>

definition column_types :: "column_type list" where
  "column_types = [CUnknown, CText, CInteger, CBigInt, CUnsignedBigInt, CDouble, CBlob]"

fun decode_column_type :: "json_lib \<Rightarrow> column_type decoder" where
  "decode_column_type L (JString s) =
     ok_or (jl_error L ''ColumnType'' (JString s)) (map_of (map (\<lambda>t. (column_type_display t, t)) column_types) s)"
| "decode_column_type L v = Err (jl_error L ''ColumnType'' v)"

record column_definition =
  cd_name :: string
  cd_col_type :: column_type
  cd_description :: string
  cd_notes :: string
  cd_index :: bool
  cd_required :: bool
  cd_additional :: bool
  cd_optimized :: bool
  cd_hidden :: bool

definition column_new :: "string \<Rightarrow> column_type \<Rightarrow> column_definition" where
  "column_new name ty =
     \<lparr>cd_name = name, cd_col_type = ty, cd_description = [], cd_notes = [], cd_index = False,
      cd_required = False, cd_additional = False, cd_optimized = False, cd_hidden = False\<rparr>"

definition column_default :: column_definition where
  "column_default = column_new [] CText"

definition column_text :: "string \<Rightarrow> column_definition" where
  "column_text name = column_new name CText"

definition column_integer :: "string \<Rightarrow> column_definition" where
  "column_integer name = column_new name CInteger"

definition column_big_int :: "string \<Rightarrow> column_definition" where
  "column_big_int name = column_new name CBigInt"

definition column_unsigned_big_int :: "string \<Rightarrow> column_definition" where
  "column_unsigned_big_int name = column_new name CUnsignedBigInt"

definition column_double :: "string \<Rightarrow> column_definition" where
  "column_double name = column_new name CDouble"

definition column_blob :: "string \<Rightarrow> column_definition" where
  "column_blob name = column_new name CBlob"

definition column_index :: "column_definition \<Rightarrow> column_definition" where
  "column_index c = c\<lparr>cd_index := True\<rparr>"

definition column_required :: "column_definition \<Rightarrow> column_definition" where
  "column_required c = c\<lparr>cd_required := True\<rparr>"

definition column_additional :: "column_definition \<Rightarrow> column_definition" where
  "column_additional c = c\<lparr>cd_additional := True\<rparr>"

definition column_optimized :: "column_definition \<Rightarrow> column_definition" where
  "column_optimized c = c\<lparr>cd_optimized := True\<rparr>"

definition column_hidden :: "column_definition \<Rightarrow> column_definition" where
  "column_hidden c = c\<lparr>cd_hidden := True\<rparr>"

definition column_with_description :: "string \<Rightarrow> column_definition \<Rightarrow> column_definition" where
  "column_with_description d c = c\<lparr>cd_description := d\<rparr>"

definition column_with_notes :: "string \<Rightarrow> column_definition \<Rightarrow> column_definition" where
  "column_with_notes n c = c\<lparr>cd_notes := n\<rparr>"

definition set_if :: "bool \<Rightarrow> u8 \<Rightarrow> u8 \<Rightarrow> u8" where
  "set_if b bits m = (if b then or m bits else m)"

definition column_options :: "column_definition \<Rightarrow> u8" where
  "column_options c =
     set_if (cd_hidden c) 16 (set_if (cd_optimized c) 8 (set_if (cd_additional c) 4
       (set_if (cd_required c) 2 (set_if (cd_index c) 1 0))))"

definition show_u8 :: "u8 \<Rightarrow> string" where
  "show_u8 w = show_nat (unat w)"

definition column_route :: "column_definition \<Rightarrow> (string, string) btree" where
  "column_route c = bt_of
     [(''id'', ''column''), (''name'', cd_name c), (''type'', column_type_display (cd_col_type c)),
      (''op'', show_u8 (column_options c))]"

definition build_routes :: "column_definition list \<Rightarrow> plugin_response" where
  "build_routes columns = map column_route columns"

section \<open>Operators\<close>

datatype operator =
    OpEquals | OpGreaterThan | OpLessThanOrEquals | OpLessThan | OpGreaterThanOrEquals | OpMatch
  | OpLike | OpGlob | OpRegexp | OpUnique | OpIn | OpNotEquals | OpIsNot | OpIsNotNull | OpIsNull
  | OpIs | OpLimit | OpOffset

primrec operator_code :: "operator \<Rightarrow> int" where
  "operator_code OpEquals = 2"
| "operator_code OpGreaterThan = 4"
| "operator_code OpLessThanOrEquals = 8"
| "operator_code OpLessThan = 16"
| "operator_code OpGreaterThanOrEquals = 32"
| "operator_code OpMatch = 64"
| "operator_code OpLike = 65"
| "operator_code OpGlob = 66"
| "operator_code OpRegexp = 67"
| "operator_code OpUnique = 1"
| "operator_code OpIn = 3"
| "operator_code OpNotEquals = 68"
| "operator_code OpIsNot = 69"
| "operator_code OpIsNotNull = 70"
| "operator_code OpIsNull = 71"
| "operator_code OpIs = 72"
| "operator_code OpLimit = 73"
| "operator_code OpOffset = 74"

primrec operator_display :: "operator \<Rightarrow> string" where
  "operator_display OpEquals = ''=''"
| "operator_display OpGreaterThan = ''>''"
| "operator_display OpLessThanOrEquals = ''<=''"
| "operator_display OpLessThan = ''<''"
| "operator_display OpGreaterThanOrEquals = ''>=''"
| "operator_display OpMatch = ''MATCH''"
| "operator_display OpLike = ''LIKE''"
| "operator_display OpGlob = ''GLOB''"
| "operator_display OpRegexp = ''REGEXP''"
| "operator_display OpUnique = ''UNIQUE''"
| "operator_display OpIn = ''IN''"
| "operator_display OpNotEquals = ''!=''"
| "operator_display OpIsNot = ''IS NOT''"
| "operator_display OpIsNotNull = ''IS NOT NULL''"
| "operator_display OpIsNull = ''IS NULL''"
| "operator_display OpIs = ''IS''"
| "operator_display OpLimit = ''LIMIT''"
| "operator_display OpOffset = ''OFFSET''"

definition operator_table :: "(int \<times> operator) list" where
  "operator_table =
     [(2, OpEquals), (4, OpGreaterThan), (8, OpLessThanOrEquals), (16, OpLessThan),
      (32, OpGreaterThanOrEquals), (64, OpMatch), (65, OpLike), (66, OpGlob), (67, OpRegexp),
      (1, OpUnique), (3, OpIn), (68, OpNotEquals), (69, OpIsNot), (70, OpIsNotNull), (71, OpIsNull),
      (72, OpIs), (73, OpLimit), (74, OpOffset)]"

definition invalid_operator_text :: "i64 \<Rightarrow> string" where
  "invalid_operator_text v = ''invalid operator value: '' @ show_i64 v"

definition operator_try_from :: "i64 \<Rightarrow> (operator, string) result" where
  "operator_try_from v = ok_or (invalid_operator_text v) (map_of operator_table (i64_val v))"

fun decode_operator :: "json_lib \<Rightarrow> operator decoder" where
  "decode_operator L (JString s) =
     (if s \<noteq> [] then bind_result (map_err show_parse_int_error (parse_i64 s)) operator_try_from
      else Err (''invalid value '' @ jl_show L (JString s) @ '', expected int''))"
| "decode_operator L (JNumber n) =
     (case json_i64 n of
        Some i \<Rightarrow> operator_try_from i
      | None \<Rightarrow> Err (''invalid value '' @ jl_show L (JNumber n) @ '', expected int''))"
| "decode_operator L v = Err (''invalid value '' @ jl_show L v @ '', expected int'')"

section \<open>The query context\<close>

record constraint =
  cn_operator :: operator
  cn_expression :: string

record constraint_list =
  cl_affinity :: column_type
  cl_constraints :: "constraint list"

type_synonym query_context = "(string, constraint_list) btree"

definition decode_constraint :: "json_lib \<Rightarrow> constraint decoder" where
  "decode_constraint L json =
     bind_result (struct_fields L ''Constraint'' [''op'', ''expr''] json) (\<lambda>v.
     bind_result (json_field L ''Constraint'' (decode_operator L) ''op'' v) (\<lambda>op.
     bind_result (json_field L ''Constraint'' (decode_string L) ''expr'' v) (\<lambda>ex.
       Ok \<lparr>cn_operator = op, cn_expression = ex\<rparr>)))"

text \<open>Constraints that do not parse are skipped: the \<open>WHERE\<close> clause is applied again.\<close>

fun decode_constraints :: "json_lib \<Rightarrow> constraint list decoder" where
  "decode_constraints L (JArray items) =
     Ok (List.map_filter (\<lambda>item. result_ok (decode_constraint L item)) items)"
| "decode_constraints L (JString s) =
     (if s = [] then Ok []
      else Err (''unexpected context list: invalid value '' @ jl_show L (JString s) @ '', expected array''))"
| "decode_constraints L v =
     Err (''unexpected context list: invalid value '' @ jl_show L v @ '', expected array'')"

definition decode_constraint_list :: "json_lib \<Rightarrow> constraint_list decoder" where
  "decode_constraint_list L json =
     bind_result (struct_fields L ''ConstraintList'' [''affinity'', ''list''] json) (\<lambda>v.
     bind_result (json_field L ''ConstraintList'' (decode_column_type L) ''affinity'' v) (\<lambda>affinity.
     bind_result (json_field_default [] (decode_constraints L) ''list'' v) (\<lambda>cs.
       Ok \<lparr>cl_affinity = affinity, cl_constraints = cs\<rparr>)))"

primrec insert_constraints :: "json_lib \<Rightarrow> json list \<Rightarrow> query_context \<Rightarrow> (query_context, string) result" where
  "insert_constraints L [] ctx = Ok ctx"
| "insert_constraints L (c # cs) ctx =
     (case json_get_or_null ''name'' c of
        JString name \<Rightarrow> bind_result (decode_constraint_list L c) (\<lambda>cl.
          insert_constraints L cs (bt_insert name cl ctx))
      | other \<Rightarrow> Err (''name: invalid value '' @ jl_show L other @ '', expected string''))"

definition decode_query_context :: "json_lib \<Rightarrow> query_context decoder" where
  "decode_query_context L v =
     (case json_get_or_null ''constraints'' v of
        JArray raw \<Rightarrow> insert_constraints L raw []
      | JNull \<Rightarrow> Ok []
      | other \<Rightarrow> Err (''constraints: invalid value '' @ jl_show L other @ '', expected array''))"

definition query_context_get :: "query_context \<Rightarrow> string \<Rightarrow> constraint_list option" where
  "query_context_get ctx column = bt_get ctx column"

definition query_context_contains_key :: "query_context \<Rightarrow> string \<Rightarrow> bool" where
  "query_context_contains_key ctx column = bt_contains_key ctx column"

definition query_context_len :: "query_context \<Rightarrow> nat" where
  "query_context_len ctx = length ctx"

definition query_context_is_empty :: "query_context \<Rightarrow> bool" where
  "query_context_is_empty ctx = (ctx = [])"

definition query_context_insert ::
  "string \<Rightarrow> constraint_list \<Rightarrow> query_context \<Rightarrow> constraint_list option \<times> query_context" where
  "query_context_insert column cl ctx = (bt_get ctx column, bt_insert column cl ctx)"

section \<open>Table specifications\<close>

datatype platform = Darwin | Windows | Linux

primrec platform_serialize :: "platform \<Rightarrow> string" where
  "platform_serialize Darwin = ''darwin''"
| "platform_serialize Windows = ''windows''"
| "platform_serialize Linux = ''linux''"

text \<open>The operating system of the build is a parameter.\<close>

definition default_platform :: "platform option \<Rightarrow> platform list" where
  "default_platform target = (case target of None \<Rightarrow> [] | Some p \<Rightarrow> [p])"

record table_spec =
  ts_name :: string
  ts_description :: string
  ts_url :: string
  ts_platforms :: "platform list"
  ts_evented :: bool
  ts_cacheable :: bool
  ts_notes :: string
  ts_examples :: "string list"
  ts_columns :: "column_definition list"

definition optional_string :: "string \<Rightarrow> string \<Rightarrow> (string \<times> json) list" where
  "optional_string key s = (if s = [] then [] else [(key, JString s)])"

definition encode_column :: "column_definition \<Rightarrow> json" where
  "encode_column c = JObject
     ([(''name'', JString (cd_name c)), (''type'', JString (column_type_serialize (cd_col_type c)))]
      @ optional_string ''description'' (cd_description c) @ optional_string ''notes'' (cd_notes c)
      @ [(''index'', JBool (cd_index c)), (''required'', JBool (cd_required c)),
         (''additional'', JBool (cd_additional c)), (''optimized'', JBool (cd_optimized c)),
         (''hidden'', JBool (cd_hidden c))])"

definition encode_table_spec :: "table_spec \<Rightarrow> json" where
  "encode_table_spec t = JObject
     ([(''name'', JString (ts_name t)), (''description'', JString (ts_description t)),
       (''url'', JString (ts_url t)),
       (''platforms'', JArray (map (\<lambda>p. JString (platform_serialize p)) (ts_platforms t))),
       (''evented'', JBool (ts_evented t)), (''cacheable'', JBool (ts_cacheable t))]
      @ optional_string ''notes'' (ts_notes t)
      @ (if ts_examples t = [] then [] else [(''examples'', JArray (map JString (ts_examples t)))])
      @ [(''columns'', JArray (map encode_column (ts_columns t)))])"

section \<open>Read-only tables\<close>

type_synonym table_rows = "(string, string) btree list"

record 'g table_plugin =
  tp_name :: string
  tp_columns :: "column_definition list"
  tp_generate :: "query_context \<Rightarrow> ('g, table_rows, error) act"
  tp_description :: string
  tp_url :: string
  tp_notes :: string
  tp_examples :: "string list"
  tp_platforms :: "platform list"
  tp_state :: 'g

definition table_plugin_new ::
  "platform option \<Rightarrow> string \<Rightarrow> column_definition list \<Rightarrow> (query_context \<Rightarrow> ('g, table_rows, error) act) \<Rightarrow> 'g
    \<Rightarrow> 'g table_plugin" where
  "table_plugin_new target name columns generate g =
     \<lparr>tp_name = name, tp_columns = columns, tp_generate = generate, tp_description = [], tp_url = [],
      tp_notes = [], tp_examples = [], tp_platforms = default_platform target, tp_state = g\<rparr>"

definition table_description :: "string \<Rightarrow> 'g table_plugin \<Rightarrow> 'g table_plugin" where
  "table_description d p = p\<lparr>tp_description := d\<rparr>"

definition table_url :: "string \<Rightarrow> 'g table_plugin \<Rightarrow> 'g table_plugin" where
  "table_url u p = p\<lparr>tp_url := u\<rparr>"

definition table_notes :: "string \<Rightarrow> 'g table_plugin \<Rightarrow> 'g table_plugin" where
  "table_notes n p = p\<lparr>tp_notes := n\<rparr>"

definition table_example :: "string \<Rightarrow> 'g table_plugin \<Rightarrow> 'g table_plugin" where
  "table_example e p = p\<lparr>tp_examples := tp_examples p @ [e]\<rparr>"

definition table_platforms :: "platform list \<Rightarrow> 'g table_plugin \<Rightarrow> 'g table_plugin" where
  "table_platforms ps p = p\<lparr>tp_platforms := ps\<rparr>"

definition table_plugin_spec :: "'g table_plugin \<Rightarrow> table_spec" where
  "table_plugin_spec p =
     \<lparr>ts_name = tp_name p, ts_description = tp_description p, ts_url = tp_url p, ts_platforms = tp_platforms p,
      ts_evented = False, ts_cacheable = False, ts_notes = tp_notes p, ts_examples = tp_examples p,
      ts_columns = tp_columns p\<rparr>"

definition generate_reply :: "(table_rows, error) result \<Rightarrow> (plugin_response, error) result" where
  "generate_reply r = map_err (pass_status (\<lambda>e. Other (''error generating table: '' @ show_error e))) r"

definition table_handle_generate ::
  "json_lib \<Rightarrow> plugin_request \<Rightarrow> (query_context \<Rightarrow> ('p, table_rows, error) act) \<Rightarrow> ('p, plugin_response, error) act" where
  "table_handle_generate L req generate p =
     (case bt_get req ''context'' of
        None \<Rightarrow> (Err (Other ''missing query context''), p)
      | Some context \<Rightarrow> (case from_json_str L (decode_query_context L) context of
            Ok ctx \<Rightarrow> (case generate ctx p of (r, p') \<Rightarrow> (generate_reply r, p'))
          | Err err \<Rightarrow> (Err (Other (''error parsing context JSON: '' @ err)), p)
          | Panic t \<Rightarrow> (Panic t, p)
          | Diverge \<Rightarrow> (Diverge, p)))"

definition run_generate :: "query_context \<Rightarrow> ('g table_plugin, table_rows, error) act" where
  "run_generate ctx p = (case tp_generate p ctx (tp_state p) of (r, g) \<Rightarrow> (r, p\<lparr>tp_state := g\<rparr>))"

definition table_call :: "json_lib \<Rightarrow> plugin_request \<Rightarrow> ('g table_plugin, plugin_response, error) act" where
  "table_call L req p =
     (case request_action req of
        None \<Rightarrow> (Err missing_action, p)
      | Some action \<Rightarrow>
          if action = ''generate'' then table_handle_generate L req run_generate p
          else if action = ''columns'' then (Ok (build_routes (tp_columns p)), p)
          else (Err (unknown_action action), p))"

definition table_vtable :: "json_lib \<Rightarrow> 'g table_plugin plugin" where
  "table_vtable L =
     \<lparr>pl_name = tp_name, pl_registry_name = \<lambda>_. RTable, pl_routes = \<lambda>p. build_routes (tp_columns p),
      pl_ping = \<lambda>_. Ok (), pl_call = table_call L, pl_shutdown = ret ()\<rparr>"

interpretation read_only: returning_shutdown "table_vtable L" for L
  by unfold_locales (simp add: table_vtable_def ret_def)

section \<open>Writable tables\<close>

type_synonym column_values = "string option list"

record delete_request =
  dq_row_id :: i64
  dq_context :: query_context

record insert_request =
  iq_values :: column_values
  iq_auto_rowid :: bool
  iq_row_id :: "i64 option"
  iq_context :: query_context

record update_request =
  uq_row_id :: i64
  uq_new_row_id :: "i64 option"
  uq_values :: column_values
  uq_context :: query_context

datatype mutation_result = MSuccess "i64 option" | MReadOnly | MFailure string | MConstraint

text \<open>The trait \<open>WritableTable\<close> over a type \<open>'t\<close> of tables.\<close>

record 't writable_table =
  wt_name :: "'t \<Rightarrow> string"
  wt_columns :: "'t \<Rightarrow> column_definition list"
  wt_generate :: "query_context \<Rightarrow> ('t, table_rows, error) act"
  wt_insert :: "insert_request \<Rightarrow> ('t, mutation_result, error) act"
  wt_update :: "update_request \<Rightarrow> ('t, mutation_result, error) act"
  wt_delete :: "delete_request \<Rightarrow> ('t, mutation_result, error) act"

fun json_column_value :: "json_lib \<Rightarrow> json \<Rightarrow> string option" where
  "json_column_value L JNull = None"
| "json_column_value L (JString s) = Some s"
| "json_column_value L v = Some (jl_show L v)"

definition parse_json_value_array :: "json_lib \<Rightarrow> string \<Rightarrow> (column_values, error) result" where
  "parse_json_value_array L s =
     map_ok (map (json_column_value L))
       (map_err (\<lambda>e. Other (''invalid json_value_array: '' @ e)) (from_json_str L (decode_vec L Ok) s))"

fun mutation_rows :: "mutation_result \<Rightarrow> plugin_response" where
  "mutation_rows (MSuccess None) = [bt_of [(''status'', ''success'')]]"
| "mutation_rows (MSuccess (Some i)) = [bt_of [(''status'', ''success''), (''id'', show_i64 i)]]"
| "mutation_rows MReadOnly = [bt_of [(''status'', ''readonly'')]]"
| "mutation_rows (MFailure msg) =
     [bt_of ((''status'', ''failure'') # (if msg = [] then [] else [(''message'', msg)]))]"
| "mutation_rows MConstraint = [bt_of [(''status'', ''constraint'')]]"

definition parse_row_id :: "plugin_request \<Rightarrow> string \<Rightarrow> (i64, error) result" where
  "parse_row_id req key =
     bind_result (ok_or (Other (''missing '' @ key)) (bt_get req key)) (\<lambda>s.
       map_err (\<lambda>e. Other (''invalid '' @ key @ '': '' @ show_parse_int_error e)) (parse_i64 s))"

definition parse_mutation_context :: "json_lib \<Rightarrow> plugin_request \<Rightarrow> query_context" where
  "parse_mutation_context L req =
     (case bt_get req ''context'' of
        None \<Rightarrow> []
      | Some s \<Rightarrow> (case result_ok (from_json_str L (decode_query_context L) s) of
            None \<Rightarrow> []
          | Some ctx \<Rightarrow> ctx))"

definition extract_column_values ::
  "json_lib \<Rightarrow> plugin_request \<Rightarrow> string \<Rightarrow> (column_values, plugin_response) result" where
  "extract_column_values L req action =
     (case bt_get req ''json_value_array'' of
        None \<Rightarrow> Err (mutation_rows (MFailure ''missing json_value_array''))
      | Some s \<Rightarrow> map_err (\<lambda>e. mutation_rows (MFailure (action @ '': '' @ show_error e)))
          (parse_json_value_array L s))"

definition dispatch_mutation ::
  "string \<Rightarrow> (mutation_result, error) result \<Rightarrow> (plugin_response, error) result" where
  "dispatch_mutation action r = match_result r (\<lambda>m. Ok (mutation_rows m))
     (\<lambda>e. Ok (mutation_rows (MFailure (action @ '' failed: '' @ show_error e))))"

definition optional_row_id :: "plugin_request \<Rightarrow> string \<Rightarrow> i64 option" where
  "optional_row_id req key = (case bt_get req key of None \<Rightarrow> None | Some s \<Rightarrow> result_ok (parse_i64 s))"

definition run_mutation ::
  "string \<Rightarrow> ('t, mutation_result, error) act \<Rightarrow> ('t, plugin_response, error) act" where
  "run_mutation action m t = (case m t of (r, t') \<Rightarrow> (dispatch_mutation action r, t'))"

text \<open>A request that cannot be read is answered with failure rows and the table is not called.\<close>

definition table_handle_insert ::
  "json_lib \<Rightarrow> 't writable_table \<Rightarrow> plugin_request \<Rightarrow> ('t, plugin_response, error) act" where
  "table_handle_insert L W req t =
     (case extract_column_values L req ''insert'' of
        Err rows \<Rightarrow> (Ok rows, t)
      | Panic p \<Rightarrow> (Panic p, t)
      | Diverge \<Rightarrow> (Diverge, t)
      | Ok vs \<Rightarrow> run_mutation ''insert'' (wt_insert W
          \<lparr>iq_values = vs,
           iq_auto_rowid = (case bt_get req ''auto_rowid'' of
             None \<Rightarrow> False | Some v \<Rightarrow> eq_ignore_ascii_case v ''true''),
           iq_row_id = optional_row_id req ''id'', iq_context = parse_mutation_context L req\<rparr>) t)"

definition table_handle_update ::
  "json_lib \<Rightarrow> 't writable_table \<Rightarrow> plugin_request \<Rightarrow> ('t, plugin_response, error) act" where
  "table_handle_update L W req t =
     (case parse_row_id req ''id'' of
        Err e \<Rightarrow> (Ok (mutation_rows (MFailure (''update: '' @ show_error e))), t)
      | Panic p \<Rightarrow> (Panic p, t)
      | Diverge \<Rightarrow> (Diverge, t)
      | Ok row_id \<Rightarrow> (case extract_column_values L req ''update'' of
            Err rows \<Rightarrow> (Ok rows, t)
          | Panic p \<Rightarrow> (Panic p, t)
          | Diverge \<Rightarrow> (Diverge, t)
          | Ok vs \<Rightarrow> run_mutation ''update'' (wt_update W
              \<lparr>uq_row_id = row_id, uq_new_row_id = optional_row_id req ''new_id'', uq_values = vs,
               uq_context = parse_mutation_context L req\<rparr>) t))"

definition table_handle_delete ::
  "json_lib \<Rightarrow> 't writable_table \<Rightarrow> plugin_request \<Rightarrow> ('t, plugin_response, error) act" where
  "table_handle_delete L W req t =
     (case parse_row_id req ''id'' of
        Err e \<Rightarrow> (Ok (mutation_rows (MFailure (''delete: '' @ show_error e))), t)
      | Panic p \<Rightarrow> (Panic p, t)
      | Diverge \<Rightarrow> (Diverge, t)
      | Ok row_id \<Rightarrow> run_mutation ''delete'' (wt_delete W
          \<lparr>dq_row_id = row_id, dq_context = parse_mutation_context L req\<rparr>) t)"

definition writable_call ::
  "json_lib \<Rightarrow> 't writable_table \<Rightarrow> plugin_request \<Rightarrow> ('t, plugin_response, error) act" where
  "writable_call L W req t =
     (case request_action req of
        None \<Rightarrow> (Err missing_action, t)
      | Some action \<Rightarrow>
          if action = ''generate'' then table_handle_generate L req (wt_generate W) t
          else if action = ''columns'' then (Ok (build_routes (wt_columns W t)), t)
          else if action = ''insert'' then table_handle_insert L W req t
          else if action = ''update'' then table_handle_update L W req t
          else if action = ''delete'' then table_handle_delete L W req t
          else (Err (unknown_action action), t))"

definition writable_vtable :: "json_lib \<Rightarrow> 't writable_table \<Rightarrow> 't plugin" where
  "writable_vtable L W =
     \<lparr>pl_name = wt_name W, pl_registry_name = \<lambda>_. RTable, pl_routes = \<lambda>t. build_routes (wt_columns W t),
      pl_ping = \<lambda>_. Ok (), pl_call = writable_call L W, pl_shutdown = ret ()\<rparr>"

interpretation writable: returning_shutdown "writable_vtable L W" for L W
  by unfold_locales (simp add: writable_vtable_def ret_def)

section \<open>The contracts\<close>

interpretation table: action_plugin "table_call L" "{''generate'', ''columns''}" for L
  by unfold_locales (auto simp: table_call_def)

interpretation writable: action_plugin "writable_call L W"
  "{''generate'', ''columns'', ''insert'', ''update'', ''delete''}" for L W
  by unfold_locales (auto simp: writable_call_def)

interpretation table_generates: status_passthrough generate_reply
  by unfold_locales (auto simp: generate_reply_def pass_status_def)

section \<open>Lemmas\<close>

lemma column_type_round_trip: "decode_column_type L (JString (column_type_display t)) = Ok t"
  by (cases t) (simp_all add: column_types_def)

lemma operator_table_code: "map_of operator_table (operator_code p) = Some p"
  by (cases p) (simp_all add: operator_table_def)

lemma operator_table_inverse: "map_of operator_table v = Some p \<Longrightarrow> v = operator_code p"
  by (auto simp: operator_table_def split: if_splits)

lemma operator_try_from_iff: "operator_try_from v = Ok p \<longleftrightarrow> i64_val v = operator_code p"
proof -
  have "operator_try_from v = Ok p \<longleftrightarrow> map_of operator_table (i64_val v) = Some p"
    by (cases "map_of operator_table (i64_val v)") (simp_all add: operator_try_from_def)
  then show ?thesis
    using operator_table_code [of p] operator_table_inverse [of "i64_val v" p] by metis
qed

lemma operator_code_in_i64: "in_i64 (operator_code p)"
  by (cases p) (simp_all add: in_i64_def)

lemma decode_operator_forms:
  "decode_operator L (JNumber (JInt (operator_code p))) = Ok p"
  "decode_operator L (JString (show_int (operator_code p))) = Ok p"
proof -
  show "decode_operator L (JNumber (JInt (operator_code p))) = Ok p"
    by (simp add: operator_code_in_i64 operator_try_from_iff)
  have "show_int (operator_code p) \<noteq> []"
    by (simp add: show_int_def)
  moreover have "parse_i64 (show_int (operator_code p)) = Ok (i64_of_int (operator_code p))"
    using parse_i64_show_i64 [of "i64_of_int (operator_code p)"]
    by (simp add: show_i64_def operator_code_in_i64)
  ultimately show "decode_operator L (JString (show_int (operator_code p))) = Ok p"
    by (simp add: operator_code_in_i64 operator_try_from_iff)
qed

lemma column_options_bits:
  "bit (column_options c) 0 = cd_index c" "bit (column_options c) 1 = cd_required c"
  "bit (column_options c) 2 = cd_additional c" "bit (column_options c) 3 = cd_optimized c"
  "bit (column_options c) 4 = cd_hidden c" "unat (column_options c) < 32"
  by (cases "cd_index c"; cases "cd_required c"; cases "cd_additional c"; cases "cd_optimized c";
    cases "cd_hidden c"; simp add: column_options_def set_if_def)+

lemma column_route_get:
  "bt_get (column_route c) ''name'' = Some (cd_name c)"
  "bt_get (column_route c) ''type'' = Some (column_type_display (cd_col_type c))"
  "bt_get (column_route c) ''op'' = Some (show_nat (unat (column_options c)))"
  "bt_get (column_route c) ''id'' = Some ''column''"
  by (simp_all add: column_route_def bt_get_of show_u8_def)

subsection \<open>The query context\<close>

definition constraint_name :: "json \<Rightarrow> string option" where
  "constraint_name c = (case json_get_or_null ''name'' c of JString name \<Rightarrow> Some name | _ \<Rightarrow> None)"

lemma find_append: "List.find P (xs @ ys) = (case List.find P xs of None \<Rightarrow> List.find P ys | Some x \<Rightarrow> Some x)"
  by (induction xs) simp_all

text \<open>The last constraint list of a column is the one that counts.\<close>

lemma insert_constraints_get:
  "insert_constraints L cs ctx = Ok ctx' \<Longrightarrow>
   bt_get ctx' col = (case List.find (\<lambda>c. constraint_name c = Some col) (rev cs) of
       Some c \<Rightarrow> result_ok (decode_constraint_list L c)
     | None \<Rightarrow> bt_get ctx col)"
proof (induction cs arbitrary: ctx)
  case (Cons c cs)
  from Cons.prems obtain name where n: "json_get_or_null ''name'' c = JString name"
    by (cases "json_get_or_null ''name'' c") auto
  with Cons.prems obtain cl where cl: "decode_constraint_list L c = Ok cl"
    and r: "insert_constraints L cs (bt_insert name cl ctx) = Ok ctx'"
    by (auto simp: bind_result_Ok_iff)
  show ?case
    using Cons.IH [OF r] n cl
    by (auto simp: find_append constraint_name_def split: option.splits)
qed simp

lemma insert_constraints_wf: "insert_constraints L cs ctx = Ok ctx' \<Longrightarrow> bt_wf ctx \<Longrightarrow> bt_wf ctx'"
  by (induction cs arbitrary: ctx) (auto simp: bind_result_Ok_iff split: json.splits)

subsection \<open>Mutations\<close>

definition mutation_actions :: "string set" where
  "mutation_actions = {''insert'', ''update'', ''delete''}"

declare mutation_rows.simps [simp del]

lemma dispatch_mutation_rows:
  "case dispatch_mutation a r of Ok rows \<Rightarrow> \<exists>m. rows = mutation_rows m | Err e \<Rightarrow> False | _ \<Rightarrow> True"
  by (cases r) (auto simp: dispatch_mutation_def)

lemma run_mutation_rows:
  "run_mutation a m t = (r, t') \<Longrightarrow> case r of Ok rows \<Rightarrow> \<exists>m. rows = mutation_rows m | Err e \<Rightarrow> False | _ \<Rightarrow> True"
  using dispatch_mutation_rows [of a "fst (m t)"] by (auto simp: run_mutation_def split: prod.splits)

lemma extract_column_values_rows:
  "extract_column_values L req a = Err rows \<Longrightarrow> \<exists>m. rows = mutation_rows m"
  by (cases "bt_get req ''json_value_array''"; cases "parse_json_value_array L (the (bt_get req ''json_value_array''))")
    (auto simp: extract_column_values_def)

lemma mutation_handlers_rows:
  "table_handle_insert L W req t = (r, t') \<Longrightarrow> case r of Ok rows \<Rightarrow> \<exists>m. rows = mutation_rows m | Err e \<Rightarrow> False | _ \<Rightarrow> True"
  "table_handle_update L W req t = (r, t') \<Longrightarrow> case r of Ok rows \<Rightarrow> \<exists>m. rows = mutation_rows m | Err e \<Rightarrow> False | _ \<Rightarrow> True"
  "table_handle_delete L W req t = (r, t') \<Longrightarrow> case r of Ok rows \<Rightarrow> \<exists>m. rows = mutation_rows m | Err e \<Rightarrow> False | _ \<Rightarrow> True"
  by (auto simp: table_handle_insert_def table_handle_update_def table_handle_delete_def
    dest: run_mutation_rows extract_column_values_rows split: result.splits)

lemma parse_row_id_show: "bt_get req key = Some (show_i64 i) \<Longrightarrow> parse_row_id req key = Ok i"
  by (simp add: parse_row_id_def)

lemma optional_row_id_show: "bt_get req key = Some (show_i64 i) \<Longrightarrow> optional_row_id req key = Some i"
  by (simp add: optional_row_id_def)

lemma extract_column_values_array:
  "bt_get req ''json_value_array'' = Some s \<Longrightarrow> jl_parse L s = Ok (JArray vs) \<Longrightarrow>
   extract_column_values L req action = Ok (map (json_column_value L) vs)"
proof -
  have "decode_list Ok vs = Ok vs" for vs :: "json list"
    by (induction vs) simp_all
  then show "bt_get req ''json_value_array'' = Some s \<Longrightarrow> jl_parse L s = Ok (JArray vs) \<Longrightarrow> ?thesis"
    by (simp add: extract_column_values_def parse_json_value_array_def from_json_str_def)
qed

text \<open>A row status of an answer: what osquery reads first.\<close>

definition row_status :: "plugin_response \<Rightarrow> string option" where
  "row_status rows = (case rows of [row] \<Rightarrow> bt_get row ''status'' | _ \<Rightarrow> None)"

lemma row_status_mutation_rows:
  "row_status (mutation_rows m) = Some (case m of MSuccess _ \<Rightarrow> ''success'' | MReadOnly \<Rightarrow> ''readonly''
     | MFailure _ \<Rightarrow> ''failure'' | MConstraint \<Rightarrow> ''constraint'')"
  by (cases m rule: mutation_rows.cases) (simp_all add: mutation_rows.simps row_status_def bt_get_of)

lemma mutation_answer:
  assumes "request_action req = Some action" and "action \<in> mutation_actions"
    and "writable_call L W req t = (r, t')"
  shows "case r of
      Ok rows \<Rightarrow> row_status rows \<in> Some ` {''success'', ''readonly'', ''failure'', ''constraint''}
    | Err e \<Rightarrow> False
    | _ \<Rightarrow> True"
proof -
  have m: "case r of Ok rows \<Rightarrow> \<exists>m. rows = mutation_rows m | Err e \<Rightarrow> False | _ \<Rightarrow> True"
    using assms
    by (auto simp: mutation_actions_def writable_call_def dest: mutation_handlers_rows)
  have "row_status (mutation_rows m) \<in> Some ` {''success'', ''readonly'', ''failure'', ''constraint''}" for m
    by (cases m) (simp_all add: row_status_mutation_rows)
  with m show ?thesis
    by (cases r) auto
qed

text \<open>
  An unreadable change never reaches the table. When an update or delete has no
  readable row id, or an insert or update no readable array of values, the answer is a
  failure and the table is as it was.
\<close>

lemma unreadable_mutation:
  assumes "request_action req = Some action" and "action \<in> mutation_actions"
    and "action \<in> {''update'', ''delete''} \<and> is_err (parse_row_id req ''id'')
      \<or> action = ''insert'' \<and> is_err (extract_column_values L req action)
      \<or> action = ''update'' \<and> is_ok (parse_row_id req ''id'') \<and> is_err (extract_column_values L req action)"
  shows "\<exists>rows. writable_call L W req t = (Ok rows, t) \<and> row_status rows = Some ''failure''"
proof -
  have failure: "row_status (mutation_rows (MFailure msg)) = Some ''failure''" for msg
    by (simp add: row_status_mutation_rows)
  have vals: "\<exists>msg. rows = mutation_rows (MFailure msg)" if "extract_column_values L req a = Err rows" for a rows
    using that by (cases "bt_get req ''json_value_array''"; cases "parse_json_value_array L (the (bt_get req ''json_value_array''))")
      (auto simp: extract_column_values_def)
  from assms(3) consider
      (id) e where "action \<in> {''update'', ''delete''}" "parse_row_id req ''id'' = Err e"
    | (insert) rows where "action = ''insert''" "extract_column_values L req action = Err rows"
    | (update) i rows where "action = ''update''" "parse_row_id req ''id'' = Ok i" "extract_column_values L req action = Err rows"
    by (auto elim!: is_err.elims is_ok.elims)
  then show ?thesis
    by cases (use assms(1) vals failure in
      \<open>auto simp: writable_call_def table_handle_update_def table_handle_delete_def table_handle_insert_def\<close>)
qed

section \<open>Properties\<close>


text \<open>
  An operator is read exactly. Its code, as a number or as a quoted string, gives the
  operator back, and a number gives an operator only when it is that operator's code.
\<close>

lemma operator_codes_exact:
  "decode_operator L (JNumber (JInt (operator_code p))) = Ok p
    \<and> decode_operator L (JString (show_int (operator_code p))) = Ok p
    \<and> (operator_try_from v = Ok q \<longleftrightarrow> i64_val v = operator_code q)"
  using decode_operator_forms operator_try_from_iff by blast

text \<open>
  C22: the query context holds what osquery sent. For every column it has the constraint
  list of the last entry under that name, decoded, and nothing for a column without one;
  its keys are in order.
\<close>

theorem context_holds_constraints:
  assumes "json_get_or_null ''constraints'' v = JArray raw" and "decode_query_context L v = Ok ctx"
  shows "query_context_get ctx column = (case List.find (\<lambda>c. constraint_name c = Some column) (rev raw) of
      Some c \<Rightarrow> result_ok (decode_constraint_list L c)
    | None \<Rightarrow> None) \<and> bt_wf ctx"
proof -
  have "insert_constraints L raw [] = Ok ctx"
    using assms by (simp add: decode_query_context_def)
  from insert_constraints_get [OF this, of column] insert_constraints_wf [OF this] show ?thesis
    by (simp add: query_context_get_def split: option.split)
qed

definition pid_constraint :: json where
  "pid_constraint = JObject [(''name'', JString ''pid''), (''affinity'', JString ''TEXT''),
     (''list'', JArray [JObject [(''op'', JNumber (JInt 2)), (''expr'', JString ''7'')], JNull])]"

theorem context_holds_constraints_witness:
  "\<exists>ctx. decode_query_context (one_document JNull) (JObject [(''constraints'', JArray [pid_constraint])]) = Ok ctx
    \<and> query_context_get ctx ''pid'' = Some \<lparr>cl_affinity = CText, cl_constraints = [\<lparr>cn_operator = OpEquals, cn_expression = ''7''\<rparr>]\<rparr>"
proof -
  let ?L = "one_document JNull" and ?v = "JObject [(''constraints'', JArray [pid_constraint])]"
  let ?cl = "\<lparr>cl_affinity = CText, cl_constraints = [\<lparr>cn_operator = OpEquals, cn_expression = ''7''\<rparr>]\<rparr>"
  have d: "decode_constraint_list ?L pid_constraint = Ok ?cl"
    by (simp add: decode_constraint_list_def pid_constraint_def json_field_def json_field_default_def
      column_types_def List.map_filter_def decode_constraint_def operator_try_from_def operator_table_def in_i64_def)
  have n: "constraint_name pid_constraint = Some ''pid''" "json_get_or_null ''name'' pid_constraint = JString ''pid''"
    by (simp_all add: constraint_name_def json_get_or_null_def pid_constraint_def)
  have c: "json_get_or_null ''constraints'' ?v = JArray [pid_constraint]"
    by (simp add: json_get_or_null_def)
  have "decode_query_context ?L ?v = Ok [(''pid'', ?cl)]"
    by (simp add: decode_query_context_def c n d)
  from context_holds_constraints [OF c this, of "''pid''"] this show ?thesis
    by (simp add: n d)
qed

text \<open>
  C23: a change is always answered in rows. Asked to insert, update or delete, a writable
  table that returns gives one row whose status is success, readonly, failure or
  constraint, never an error, whatever the request holds.
\<close>

theorem mutations_answer_rows:
  assumes "request_action req = Some action" and "action \<in> mutation_actions"
    and "writable_call L W req t = (r, t')"
  shows "case r of
      Ok rows \<Rightarrow> row_status rows \<in> Some ` {''success'', ''readonly'', ''failure'', ''constraint''}
    | Err e \<Rightarrow> False
    | _ \<Rightarrow> True"
  by (rule mutation_answer [OF assms])

definition read_only_table :: "unit writable_table" where
  "read_only_table = \<lparr>wt_name = \<lambda>_. ''t'', wt_columns = \<lambda>_. [], wt_generate = \<lambda>_. ret [],
     wt_insert = \<lambda>_. ret MReadOnly, wt_update = \<lambda>_. ret MReadOnly, wt_delete = \<lambda>_. ret MReadOnly\<rparr>"

theorem mutations_answer_rows_witness:
  "case fst (writable_call (one_document JNull) read_only_table [(''action'', ''delete''), (''id'', ''x'')] ()) of
      Ok rows \<Rightarrow> row_status rows \<in> Some ` {''success'', ''readonly'', ''failure'', ''constraint''}
    | Err e \<Rightarrow> False
    | _ \<Rightarrow> True"
  by (rule mutations_answer_rows [where action = "''delete''" and t' = "()"])
    (simp_all add: request_action_def bt_get_Cons mutation_actions_def prod_eq_iff)

text \<open>
  C24: an update reaches the table as it was sent. With the row id in decimal and a
  readable array of values, the table's own update is called once with that id, those
  values, the new id if it is readable and the context, and its result is the answer.
\<close>

theorem update_is_delivered:
  assumes "request_action req = Some ''update''" and "bt_get req ''id'' = Some (show_i64 row_id)"
    and "bt_get req ''json_value_array'' = Some s" and "jl_parse L s = Ok (JArray vs)"
    and "wt_update W \<lparr>uq_row_id = row_id, uq_new_row_id = optional_row_id req ''new_id'',
        uq_values = map (json_column_value L) vs, uq_context = parse_mutation_context L req\<rparr> t = (Ok m, t')"
  shows "writable_call L W req t = (Ok (mutation_rows m), t')
    \<and> row_status (mutation_rows m) = Some (case m of MSuccess _ \<Rightarrow> ''success'' | MReadOnly \<Rightarrow> ''readonly''
        | MFailure _ \<Rightarrow> ''failure'' | MConstraint \<Rightarrow> ''constraint'')"
  using assms parse_row_id_show [OF assms(2)] extract_column_values_array [OF assms(3,4), of "''update''"]
  by (simp add: writable_call_def table_handle_update_def run_mutation_def dispatch_mutation_def row_status_mutation_rows)

text \<open>A table of one row, for the witness: its state is the row.\<close>

definition one_row_table :: "column_values writable_table" where
  "one_row_table = \<lparr>wt_name = \<lambda>_. ''t'', wt_columns = \<lambda>_. [], wt_generate = \<lambda>_. ret [],
     wt_insert = \<lambda>_. ret MReadOnly, wt_update = \<lambda>q _. (Ok (MSuccess (Some (uq_row_id q))), uq_values q),
     wt_delete = \<lambda>_. ret MReadOnly\<rparr>"

theorem update_is_delivered_witness:
  "snd (writable_call (one_document (JArray [JString ''a'', JNull])) one_row_table
      [(''action'', ''update''), (''id'', show_i64 (I64 7)), (''json_value_array'', ''doc'')] [None]) = [Some ''a'', None]"
proof -
  let ?L = "one_document (JArray [JString ''a'', JNull])"
    and ?req = "[(''action'', ''update''), (''id'', show_i64 (I64 7)), (''json_value_array'', ''doc'')]"
  have "writable_call ?L one_row_table ?req [None] = (Ok (mutation_rows (MSuccess (Some (I64 7)))), [Some ''a'', None])"
    by (rule update_is_delivered [where s = "''doc''" and row_id = "I64 7" and vs = "[JString ''a'', JNull]", THEN conjunct1])
      (simp_all add: request_action_def bt_get_Cons one_document_def one_row_table_def)
  then show ?thesis by simp
qed

end
