(* ===== verification/KvStore.thy ===== *)
theory KvStore
  imports Table
begin

text \<open>
  \<open>src/examples/writable_table.rs\<close>: the repository's key-value store, a writable table that
  keeps its rows by id. What a table of this kind promises is the locale \<open>row_table\<close>: its
  operations are those of a map from row ids to rows. Inside it, requests as osquery sends
  them through the plugin of \<open>src/src/plugin/table.rs\<close> are shown to act on that map.
\<close>

section \<open>The store\<close>

type_synonym kv_store = "(i64, string \<times> string) btree"

definition kv_new :: kv_store where
  "kv_new = []"

definition kv_columns :: "column_definition list" where
  "kv_columns = [column_index (column_text ''key''), column_text ''value'']"

definition kv_show_row :: "string \<times> string \<Rightarrow> (string, string) btree" where
  "kv_show_row = (\<lambda>(k, v). bt_of [(''key'', k), (''value'', v)])"

definition kv_generate :: "query_context \<Rightarrow> (kv_store, table_rows, error) act" where
  "kv_generate ctx data = (Ok (map kv_show_row (bt_values data)), data)"

text \<open>\<open>values.first()\<close> and \<open>values.get(1)\<close>, with the empty string for a missing value or \<open>NULL\<close>.\<close>

definition kv_row :: "column_values \<Rightarrow> string \<times> string" where
  "kv_row vs = (let get = (\<lambda>i. unwrap_or [] (if i < length vs then vs ! i else None)) in (get 0, get 1))"

definition kv_insert :: "insert_request \<Rightarrow> (kv_store, mutation_result, error) act" where
  "kv_insert req data =
     (let row_id = unwrap_or (i64_of_int 0) (iq_row_id req) in
       (Ok (MSuccess (Some row_id)), bt_insert row_id (kv_row (iq_values req)) data))"

definition kv_update :: "update_request \<Rightarrow> (kv_store, mutation_result, error) act" where
  "kv_update req data =
     (let row_id = unwrap_or (uq_row_id req) (uq_new_row_id req) in
       (Ok (MSuccess None), bt_insert row_id (kv_row (uq_values req)) (bt_remove (uq_row_id req) data)))"

definition kv_delete :: "delete_request \<Rightarrow> (kv_store, mutation_result, error) act" where
  "kv_delete req data = (Ok (MSuccess None), bt_remove (dq_row_id req) data)"

definition kv_table :: "kv_store writable_table" where
  "kv_table = \<lparr>wt_name = \<lambda>_. ''kv_store'', wt_columns = \<lambda>_. kv_columns, wt_generate = kv_generate,
     wt_insert = kv_insert, wt_update = kv_update, wt_delete = kv_delete\<rparr>"

section \<open>Tables of rows by id\<close>

text \<open>
  A change of a table as SQL has it. \<open>fresh\<close> is the id of a row that is inserted without one.
\<close>

datatype change =
    Insert "i64 option" column_values
  | Update i64 "i64 option" column_values
  | Delete i64

fun apply_change :: "i64 \<Rightarrow> (column_values \<Rightarrow> 'r) \<Rightarrow> change \<Rightarrow> (i64 \<rightharpoonup> 'r) \<Rightarrow> (i64 \<rightharpoonup> 'r)" where
  "apply_change fresh row (Insert i vs) m = m(unwrap_or fresh i \<mapsto> row vs)"
| "apply_change fresh row (Update i new vs) m = (m(i := None))(unwrap_or i new \<mapsto> row vs)"
| "apply_change fresh row (Delete i) m = m(i := None)"

fun change_answer :: "i64 \<Rightarrow> change \<Rightarrow> mutation_result" where
  "change_answer fresh (Insert i vs) = MSuccess (Some (unwrap_or fresh i))"
| "change_answer fresh c = MSuccess None"

text \<open>The request osquery sends: \<open>enc\<close> writes the array of values as JSON.\<close>

definition row_id_entry :: "string \<Rightarrow> i64 option \<Rightarrow> (string \<times> string) list" where
  "row_id_entry key i = (case i of None \<Rightarrow> [] | Some i \<Rightarrow> [(key, show_i64 i)])"

fun change_request :: "(column_values \<Rightarrow> string) \<Rightarrow> change \<Rightarrow> plugin_request" where
  "change_request enc (Insert i vs) =
     bt_of ([(''action'', ''insert''), (''json_value_array'', enc vs)] @ row_id_entry ''id'' i)"
| "change_request enc (Update i new vs) =
     bt_of ([(''action'', ''update''), (''id'', show_i64 i), (''json_value_array'', enc vs)] @ row_id_entry ''new_id'' new)"
| "change_request enc (Delete i) = bt_of [(''action'', ''delete''), (''id'', show_i64 i)]"

definition cell :: "string option \<Rightarrow> json" where
  "cell v = (case v of None \<Rightarrow> JNull | Some s \<Rightarrow> JString s)"

fun readable :: "json_lib \<Rightarrow> (column_values \<Rightarrow> string) \<Rightarrow> change \<Rightarrow> bool" where
  "readable L enc (Insert i vs) = (jl_parse L (enc vs) = Ok (JArray (map cell vs)))"
| "readable L enc (Update i new vs) = (jl_parse L (enc vs) = Ok (JArray (map cell vs)))"
| "readable L enc (Delete i) = True"

text \<open>Requests one after the other, with their answers.\<close>

primrec call_all :: "('q \<Rightarrow> ('t, 'a, error) act) \<Rightarrow> 'q list \<Rightarrow> 't \<Rightarrow> ('a, error) result list \<times> 't" where
  "call_all call [] t = ([], t)"
| "call_all call (q # qs) t = (case call q t of (r, t') \<Rightarrow> (case call_all call qs t' of (rs, t'') \<Rightarrow> (r # rs, t'')))"

lemma cells_read [simp]: "json_column_value L \<circ> cell = (\<lambda>v. v)"
proof
  fix v show "(json_column_value L \<circ> cell) v = v"
    by (cases v) (simp_all add: cell_def)
qed

locale row_table =
  fixes W :: "'t writable_table" and rows :: "'t \<Rightarrow> (i64 \<rightharpoonup> 'r)" and row :: "column_values \<Rightarrow> 'r"
    and fresh :: i64 and intact :: "'t \<Rightarrow> bool"
  assumes inserts: "intact t \<Longrightarrow> wt_insert W q t = (r, t') \<Longrightarrow> r = Ok (MSuccess (Some (unwrap_or fresh (iq_row_id q))))
      \<and> intact t' \<and> rows t' = (rows t)(unwrap_or fresh (iq_row_id q) \<mapsto> row (iq_values q))"
    and updates: "intact t \<Longrightarrow> wt_update W u t = (r, t') \<Longrightarrow> r = Ok (MSuccess None)
      \<and> intact t' \<and> rows t' = ((rows t)(uq_row_id u := None))(unwrap_or (uq_row_id u) (uq_new_row_id u) \<mapsto> row (uq_values u))"
    and deletes: "intact t \<Longrightarrow> wt_delete W d t = (r, t') \<Longrightarrow> r = Ok (MSuccess None)
      \<and> intact t' \<and> rows t' = (rows t)(dq_row_id d := None)"
begin

lemma change_reaches_table:
  assumes "intact t" and "readable L enc c" and "writable_call L W (change_request enc c) t = (r, t')"
  shows "r = Ok (mutation_rows (change_answer fresh c)) \<and> intact t' \<and> rows t' = apply_change fresh row c (rows t)"
proof (cases c)
  case (Insert i vs)
  let ?q = "change_request enc c"
  have g: "request_action ?q = Some ''insert''" "bt_get ?q ''json_value_array'' = Some (enc vs)"
    "optional_row_id ?q ''id'' = i"
    by (auto simp: Insert request_action_def optional_row_id_def bt_get_of row_id_entry_def split: option.split)
  have "extract_column_values L ?q ''insert'' = Ok vs"
    using extract_column_values_array [OF g(2), of L "map cell vs" "''insert''"] assms(2) by (simp add: Insert)
  then obtain req r1 where w: "wt_insert W req t = (r1, t')" "iq_row_id req = i" "iq_values req = vs"
    "r = dispatch_mutation ''insert'' r1"
    using assms(3) g by (auto simp: writable_call_def table_handle_insert_def run_mutation_def split: prod.splits)
  then show ?thesis
    using inserts [OF assms(1) w(1)] by (simp add: Insert dispatch_mutation_def)
next
  case (Update i new vs)
  let ?q = "change_request enc c"
  have g: "request_action ?q = Some ''update''" "bt_get ?q ''json_value_array'' = Some (enc vs)"
    "bt_get ?q ''id'' = Some (show_i64 i)" "optional_row_id ?q ''new_id'' = new"
    by (auto simp: Update request_action_def optional_row_id_def bt_get_of row_id_entry_def split: option.split)
  have "extract_column_values L ?q ''update'' = Ok vs"
    using extract_column_values_array [OF g(2), of L "map cell vs" "''update''"] assms(2) by (simp add: Update)
  then obtain req r1 where w: "wt_update W req t = (r1, t')" "uq_row_id req = i" "uq_new_row_id req = new" "uq_values req = vs"
    "r = dispatch_mutation ''update'' r1"
    using assms(3) g parse_row_id_show [OF g(3)]
    by (auto simp: writable_call_def table_handle_update_def run_mutation_def split: prod.splits)
  then show ?thesis
    using updates [OF assms(1) w(1)] by (simp add: Update dispatch_mutation_def)
next
  case (Delete i)
  let ?q = "change_request enc c"
  have g: "request_action ?q = Some ''delete''" "bt_get ?q ''id'' = Some (show_i64 i)"
    by (auto simp: Delete request_action_def bt_get_of)
  obtain req r1 where w: "wt_delete W req t = (r1, t')" "dq_row_id req = i" "r = dispatch_mutation ''delete'' r1"
    using assms(3) g parse_row_id_show [OF g(2)]
    by (auto simp: writable_call_def table_handle_delete_def run_mutation_def split: prod.splits)
  then show ?thesis
    using deletes [OF assms(1) w(1)] by (simp add: Delete dispatch_mutation_def)
qed

lemma changes_reach_table:
  "intact t \<Longrightarrow> \<forall>c \<in> set cs. readable L enc c \<Longrightarrow>
    \<exists>t'. call_all (writable_call L W) (map (change_request enc) cs) t
        = (map (\<lambda>c. Ok (mutation_rows (change_answer fresh c))) cs, t')
      \<and> intact t' \<and> rows t' = fold (apply_change fresh row) cs (rows t)"
proof (induction cs arbitrary: t)
  case (Cons c cs)
  obtain r t1 where m: "writable_call L W (change_request enc c) t = (r, t1)"
    by (cases "writable_call L W (change_request enc c) t")
  note c = change_reaches_table [OF Cons.prems(1) _ m]
  with Cons.prems have "intact t1" "\<forall>c \<in> set cs. readable L enc c"
    by simp_all
  from Cons.IH [OF this] show ?case
    using c Cons.prems m by auto
qed simp

end

interpretation kv: row_table kv_table bt_get kv_row "i64_of_int 0" bt_wf
  by unfold_locales
    (auto simp: kv_table_def kv_insert_def kv_update_def kv_delete_def Let_def fun_eq_iff)

section \<open>Properties\<close>


text \<open>A JSON library for the witnesses: it reads two rows of values and one context.\<close>

definition row_json :: json_lib where
  "row_json = \<lparr>jl_parse = \<lambda>s. if s = ''row'' then Ok (JArray [JString ''k'', JNull])
       else if s = ''other'' then Ok (JArray [JString ''l'', JNull])
       else if s = ''context'' then Ok (JObject []) else Err ''bad'',
     jl_show = \<lambda>_. ''json'', jl_error = \<lambda>t _. t\<rparr>"

definition row_text :: "column_values \<Rightarrow> string" where
  "row_text vs = (if vs = [Some ''k'', None] then ''row'' else ''other'')"




end
