(* ===== verification/Config.thy ===== *)
theory Config
  imports Plugin
begin

text \<open>
  \<open>src/src/plugin/config.rs\<close>: the configuration plugin. Its closures act on a hidden state
  \<open>'g\<close> of their own.
\<close>

type_synonym config_map = "(string, string) btree"

record 'g config_plugin =
  cf_name :: string
  cf_generate :: "('g, config_map, error) act"
  cf_gen_pack :: "(string \<Rightarrow> string \<Rightarrow> ('g, string, error) act) option"
  cf_state :: 'g

definition new_config_plugin :: "string \<Rightarrow> ('g, config_map, error) act \<Rightarrow> 'g \<Rightarrow> 'g config_plugin" where
  "new_config_plugin name generate g =
     \<lparr>cf_name = name, cf_generate = generate, cf_gen_pack = None, cf_state = g\<rparr>"

definition with_gen_pack ::
  "(string \<Rightarrow> string \<Rightarrow> ('g, string, error) act) \<Rightarrow> 'g config_plugin \<Rightarrow> 'g config_plugin" where
  "with_gen_pack f p = p\<lparr>cf_gen_pack := Some f\<rparr>"

text \<open>Running a closure of the plugin.\<close>

definition run_config :: "('g, 'a, error) act \<Rightarrow> 'g config_plugin \<Rightarrow> ('a, error) result \<times> 'g config_plugin" where
  "run_config f p = (case f (cf_state p) of (r, g) \<Rightarrow> (r, p\<lparr>cf_state := g\<rparr>))"

definition config_reply :: "(config_map, error) result \<Rightarrow> (plugin_response, error) result" where
  "config_reply r = match_result r (\<lambda>conf. Ok [conf])
     (\<lambda>e. Err (pass_status (\<lambda>e. error_context e ''error getting config'') e))"

definition pack_reply :: "string \<Rightarrow> (string, error) result \<Rightarrow> (plugin_response, error) result" where
  "pack_reply name r = match_result r (\<lambda>pack. Ok [bt_of [(name, pack)]])
     (\<lambda>e. Err (pass_status (\<lambda>e. error_context e ''error generating pack'') e))"

definition config_gen_pack :: "plugin_request \<Rightarrow> ('g config_plugin, plugin_response, error) act" where
  "config_gen_pack req p =
     (case bt_get req ''name'' of
        None \<Rightarrow> (Err (Other ''missing name in genPack request''), p)
      | Some name \<Rightarrow> (case bt_get req ''value'' of
            None \<Rightarrow> (Err (Other ''missing value in genPack request''), p)
          | Some value \<Rightarrow> (case cf_gen_pack p of
                None \<Rightarrow> (Err (Other ''genPack not supported''), p)
              | Some gen_pack \<Rightarrow> (case run_config (gen_pack name value) p of (r, p') \<Rightarrow>
                  (pack_reply name r, p')))))"

definition config_call :: "plugin_request \<Rightarrow> ('g config_plugin, plugin_response, error) act" where
  "config_call req p =
     (case request_action req of
        None \<Rightarrow> (Err missing_action, p)
      | Some action \<Rightarrow>
          if action = ''genConfig'' then (case run_config (cf_generate p) p of (r, p') \<Rightarrow> (config_reply r, p'))
          else if action = ''genPack'' then config_gen_pack req p
          else (Err (unknown_action action), p))"

definition config_vtable :: "'g config_plugin plugin" where
  "config_vtable =
     \<lparr>pl_name = cf_name, pl_registry_name = \<lambda>_. RConfig, pl_routes = \<lambda>_. [], pl_ping = \<lambda>_. Ok (),
      pl_call = config_call, pl_shutdown = ret ()\<rparr>"

interpretation config: returning_shutdown config_vtable
  by unfold_locales (simp add: config_vtable_def ret_def)

section \<open>The contracts\<close>

interpretation config: action_plugin config_call "{''genConfig'', ''genPack''}"
  by unfold_locales (auto simp: config_call_def)

interpretation config_generate: status_passthrough config_reply
  by unfold_locales (auto simp: config_reply_def pass_status_def error_context_def)

interpretation config_pack: status_passthrough "pack_reply name" for name
  by unfold_locales (auto simp: pack_reply_def pass_status_def error_context_def)

lemma config_call_genConfig:
  "request_action req = Some ''genConfig'' \<Longrightarrow>
   config_call req p = (config_reply (fst (cf_generate p (cf_state p))), p\<lparr>cf_state := snd (cf_generate p (cf_state p))\<rparr>)"
  by (simp add: config_call_def run_config_def split: prod.split)

section \<open>Properties\<close>

text \<open>
  C28: the configuration reaches osquery as the callback gave it. Asked for the
  configuration, the plugin runs its callback once; osquery sees the map it returned as
  the single row, or its own status where that is not zero, or status 1 for any other
  error.
\<close>

theorem config_as_generated:
  assumes "request_action req = Some ''genConfig''" and "cf_generate p (cf_state p) = (r, g)"
    and "\<And>message. r \<noteq> Err (Status 0 message)"
  shows "\<exists>reply. config_call req p = (reply, p\<lparr>cf_state := g\<rparr>)
    \<and> (case r of
        Ok conf \<Rightarrow> reported reply = Ok [conf]
      | Err (Status code message) \<Rightarrow> reported reply = Err (Status code message)
      | Err e \<Rightarrow> (\<exists>text. reported reply = Err (Status 1 text))
      | _ \<Rightarrow> True)"
proof (cases r)
  case (Err e)
  show ?thesis
  proof (cases e)
    case (Status code message)
    then have "code \<noteq> 0"
      using assms(3) Err by auto
    with config_generate.reported_status [of code message] Status Err assms(1,2) show ?thesis
      by (simp add: config_call_genConfig)
  qed (use config_generate.reported_other [of e] Err assms(1,2) in \<open>auto simp: config_call_genConfig\<close>)
qed (use assms(1,2) in \<open>auto simp: config_call_genConfig config_reply_def\<close>)

theorem config_as_generated_witness:
  "reported (fst (config_call [(''action'', ''genConfig'')]
      (new_config_plugin ''c'' (\<lambda>n. (Err (Status 3 ''no''), Suc n)) 0))) = Err (Status 3 ''no'')"
  using config_as_generated [of "[(''action'', ''genConfig'')]" "new_config_plugin ''c'' (\<lambda>n. (Err (Status 3 ''no''), Suc n)) 0"
      "Err (Status 3 ''no'')" "Suc 0"]
  by (auto simp: request_action_def bt_get_Cons new_config_plugin_def)

end
