(* ===== verification/Logger.thy ===== *)
theory Logger
  imports Plugin
begin

text \<open>
  \<open>src/src/plugin/logger.rs\<close>: the logger plugin. Status logs arrive as almost JSON; the
  code turns the outer object into an array of its values, cutting the empty keys away,
  before it parses them.
\<close>

datatype log_type = LHealth | LInit | LSnapshot | LStatus | LString | LLog

primrec log_type_display :: "log_type \<Rightarrow> string" where
  "log_type_display LHealth = ''health''"
| "log_type_display LInit = ''init''"
| "log_type_display LSnapshot = ''snapshot''"
| "log_type_display LStatus = ''status''"
| "log_type_display LString = ''string''"
| "log_type_display LLog = ''log''"

definition log_type_from_str :: "string \<Rightarrow> (log_type, string) result" where
  "log_type_from_str s =
     (if s = ''health'' then Ok LHealth
      else if s = ''init'' then Ok LInit
      else if s = ''snapshot'' then Ok LSnapshot
      else if s = ''status'' then Ok LStatus
      else if s = ''log'' then Ok LLog
      else if s = ''string'' then Ok LString
      else Err (''unknown log type: '' @ s))"

text \<open>\<open>log_fn\<close> acts on the hidden state \<open>'g\<close>, and so does the shutdown hook, which runs
  once. A hook that panics poisons its lock but is gone by then, so a later shutdown finds
  nothing to run either way.\<close>

record 'g logger_plugin =
  lg_name :: string
  lg_log_fn :: "log_type \<Rightarrow> string \<Rightarrow> ('g, unit, error) act"
  lg_on_shutdown :: "('g, unit, error) act option"
  lg_state :: 'g

definition new_logger_plugin ::
  "string \<Rightarrow> (log_type \<Rightarrow> string \<Rightarrow> ('g, unit, error) act) \<Rightarrow> 'g \<Rightarrow> 'g logger_plugin" where
  "new_logger_plugin name log_fn g =
     \<lparr>lg_name = name, lg_log_fn = log_fn, lg_on_shutdown = None, lg_state = g\<rparr>"

definition with_shutdown :: "('g, unit, error) act \<Rightarrow> 'g logger_plugin \<Rightarrow> 'g logger_plugin" where
  "with_shutdown f p = p\<lparr>lg_on_shutdown := Some f\<rparr>"

definition logger_shutdown :: "('g logger_plugin, unit, error) act" where
  "logger_shutdown p = (case lg_on_shutdown p of
     None \<Rightarrow> (Ok (), p)
   | Some f \<Rightarrow> (case f (lg_state p) of (r, g) \<Rightarrow> (r, p\<lparr>lg_on_shutdown := None, lg_state := g\<rparr>)))"

text \<open>The repair of osquery's status logs.\<close>

definition repair_status :: "string \<Rightarrow> string" where
  "repair_status data =
     (let s = replace_first (CHR 0x7B) ''['' (replace_all [CHR 0x22, CHR 0x22, CHR 0x3A] [] data) in
      case rfind (CHR 0x7D) s of None \<Rightarrow> s | Some i \<Rightarrow> replace_from i '']'' s)"

text \<open>Errors accumulate, the closure runs on; a panic of the closure ends the call.\<close>

type_synonym 'g logging = "string list \<times> 'g"

definition log_one ::
  "(log_type \<Rightarrow> string \<Rightarrow> ('g, unit, error) act) \<Rightarrow> log_type \<Rightarrow> string \<Rightarrow> (error \<Rightarrow> string)
    \<Rightarrow> ('g logging, unit, error) act" where
  "log_one log_fn ty text describe = (\<lambda>(errors, g).
     case log_fn ty text g of
       (Ok u, g') \<Rightarrow> (Ok (), (errors, g'))
     | (Err e, g') \<Rightarrow> (Ok (), (errors @ [describe e], g'))
     | (Panic p, g') \<Rightarrow> (Panic p, (errors, g'))
     | (Diverge, g') \<Rightarrow> (Diverge, (errors, g')))"

definition add_error :: "string \<Rightarrow> ('g logging, unit, error) act" where
  "add_error text = (\<lambda>(errors, g). (Ok (), (errors @ [text], g)))"

primrec log_statuses ::
  "json_lib \<Rightarrow> (log_type \<Rightarrow> string \<Rightarrow> ('g, unit, error) act) \<Rightarrow> json list \<Rightarrow> ('g logging, unit, error) act" where
  "log_statuses L log_fn [] = ret ()"
| "log_statuses L log_fn (s # ss) =
     seq (log_one log_fn LStatus (jl_show L s) (\<lambda>e. ''error logging status: '' @ show_error e))
       (log_statuses L log_fn ss)"

definition log_status_data ::
  "json_lib \<Rightarrow> (log_type \<Rightarrow> string \<Rightarrow> ('g, unit, error) act) \<Rightarrow> string \<Rightarrow> ('g logging, unit, error) act" where
  "log_status_data L log_fn data =
     (if data = [] then add_error ''got empty status''
      else (case jl_parse L (repair_status data) of
          Ok (JArray arr) \<Rightarrow> log_statuses L log_fn arr
        | Ok _ \<Rightarrow> add_error ''error parsing status logs''
        | Err err \<Rightarrow> add_error (''error parsing status logs: '' @ err)
        | Panic p \<Rightarrow> panic p
        | Diverge \<Rightarrow> diverge))"

definition log_entry ::
  "json_lib \<Rightarrow> (log_type \<Rightarrow> string \<Rightarrow> ('g, unit, error) act) \<Rightarrow> plugin_request \<Rightarrow> string \<Rightarrow> string
    \<Rightarrow> ('g logging, unit, error) act" where
  "log_entry L log_fn req typ log =
     (case log_type_from_str typ of
        Ok LStatus \<Rightarrow> (case bt_get req ''log'' of
            None \<Rightarrow> add_error ''got empty status''
          | Some data \<Rightarrow> log_status_data L log_fn data)
      | Ok LLog \<Rightarrow> ret ()
      | Ok ltype \<Rightarrow> log_one log_fn ltype log (\<lambda>e. show_error e @ '' for type: '' @ typ)
      | Err _ \<Rightarrow> add_error (''cannot log request type: '' @ typ)
      | Panic p \<Rightarrow> panic p
      | Diverge \<Rightarrow> diverge)"

primrec log_entries ::
  "json_lib \<Rightarrow> (log_type \<Rightarrow> string \<Rightarrow> ('g, unit, error) act) \<Rightarrow> plugin_request \<Rightarrow> (string \<times> string) list
    \<Rightarrow> ('g logging, unit, error) act" where
  "log_entries L log_fn req [] = ret ()"
| "log_entries L log_fn req (e # es) = seq (log_entry L log_fn req (fst e) (snd e)) (log_entries L log_fn req es)"

definition logger_call :: "json_lib \<Rightarrow> plugin_request \<Rightarrow> ('g logger_plugin, plugin_response, error) act" where
  "logger_call L req p =
     (case log_entries L (lg_log_fn p) req req ([], lg_state p) of
        (Ok u, (errors, g)) \<Rightarrow>
          (if errors \<noteq> [] then Err (Other (''error '' @ join '', '' errors)) else Ok [], p\<lparr>lg_state := g\<rparr>)
      | (Err e, (errors, g)) \<Rightarrow> (Err e, p\<lparr>lg_state := g\<rparr>)
      | (Panic t, (errors, g)) \<Rightarrow> (Panic t, p\<lparr>lg_state := g\<rparr>)
      | (Diverge, (errors, g)) \<Rightarrow> (Diverge, p\<lparr>lg_state := g\<rparr>))"

definition logger_vtable :: "json_lib \<Rightarrow> 'g logger_plugin plugin" where
  "logger_vtable L =
     \<lparr>pl_name = lg_name, pl_registry_name = \<lambda>_. RLogger, pl_routes = \<lambda>_. [], pl_ping = \<lambda>_. Ok (),
      pl_call = logger_call L, pl_shutdown = logger_shutdown\<rparr>"

section \<open>Lemmas\<close>

lemma log_type_round_trip: "log_type_from_str (log_type_display t) = Ok t"
  by (cases t) (simp_all add: log_type_from_str_def)

lemma log_type_from_str_iff: "log_type_from_str s = Ok t \<longleftrightarrow> s = log_type_display t"
  by (cases t) (auto simp: log_type_from_str_def)

text \<open>The hook runs once, also when it panics.\<close>

lemma logger_shutdown_once: "logger_shutdown p = (r, p') \<Longrightarrow> logger_shutdown p' = (Ok (), p')"
  by (auto simp: logger_shutdown_def split: option.splits prod.splits)

text \<open>A closure that returns: it neither panics nor loops.\<close>

definition returns :: "(log_type \<Rightarrow> string \<Rightarrow> ('g, unit, error) act) \<Rightarrow> bool" where
  "returns log_fn = (\<forall>ty text g. is_ok (fst (log_fn ty text g)) \<or> is_err (fst (log_fn ty text g)))"

lemma log_one_returns:
  assumes "returns log_fn"
  shows "\<exists>es. log_one log_fn ty text d (errors, g) = (Ok (), (errors @ es, snd (log_fn ty text g)))
    \<and> (es = [] \<longleftrightarrow> is_ok (fst (log_fn ty text g)))"
proof -
  obtain r g' where "log_fn ty text g = (r, g')"
    by (cases "log_fn ty text g")
  moreover have "is_ok r \<or> is_err r"
    using assms calculation unfolding returns_def by (metis fst_conv)
  ultimately show ?thesis
    by (cases r) (auto simp: log_one_def)
qed

text \<open>Every status object reaches the closure, in order, whatever happens to the others.\<close>

lemma log_statuses_all:
  assumes "returns log_fn"
  shows "\<exists>es. log_statuses L log_fn ss (errors, g)
    = (Ok (), (errors @ es, fold (\<lambda>s g. snd (log_fn LStatus (jl_show L s) g)) ss g))
    \<and> ((\<forall>ty text g. is_ok (fst (log_fn ty text g))) \<longrightarrow> es = [])"
proof (induction ss arbitrary: errors g)
  case (Cons s ss)
  obtain es where "log_one log_fn LStatus (jl_show L s) (\<lambda>e. ''error logging status: '' @ show_error e) (errors, g)
      = (Ok (), (errors @ es, snd (log_fn LStatus (jl_show L s) g)))"
    and es: "es = [] \<longleftrightarrow> is_ok (fst (log_fn LStatus (jl_show L s) g))"
    using log_one_returns [OF assms] by blast
  moreover obtain es' where "log_statuses L log_fn ss (errors @ es, snd (log_fn LStatus (jl_show L s) g))
      = (Ok (), ((errors @ es) @ es', fold (\<lambda>s g. snd (log_fn LStatus (jl_show L s) g)) ss (snd (log_fn LStatus (jl_show L s) g))))"
    and es': "(\<forall>ty text g. is_ok (fst (log_fn ty text g))) \<longrightarrow> es' = []"
    using Cons.IH [of "errors @ es" "snd (log_fn LStatus (jl_show L s) g)"] by blast
  ultimately show ?case
    using es by (intro exI [of _ "es @ es'"]) (simp add: seq_def bnd_def)
qed (simp add: ret_def)

section \<open>The repair of status logs\<close>

text \<open>The two quotes and the colon of an empty key.\<close>

definition empty_key :: string where
  "empty_key = [CHR 0x22, CHR 0x22, CHR 0x3A]"

fun contains :: "string \<Rightarrow> string \<Rightarrow> bool" where
  "contains pat [] = (pat = [])"
| "contains pat (c # cs) = (take (length pat) (c # cs) = pat \<or> contains pat cs)"

lemma replace_empty_key_append:
  "\<not> contains empty_key x \<Longrightarrow> (x \<noteq> [] \<longrightarrow> last x \<noteq> CHR 0x22) \<Longrightarrow>
   replace_all empty_key [] (x @ y) = x @ replace_all empty_key [] y"
proof (induction x)
  case (Cons c cs)
  have IH: "replace_all empty_key [] (cs @ y) = cs @ replace_all empty_key [] y"
    using Cons by (auto split: if_splits)
  have len: "length empty_key = 3"
    by (simp add: empty_key_def)
  have "take 3 (c # cs @ y) \<noteq> empty_key"
  proof (cases "cs = [] \<or> tl cs = []")
    case True
    then show ?thesis
      using Cons.prems(2) by (cases cs) (auto simp: empty_key_def)
  next
    case False
    then show ?thesis
      using Cons.prems(1) by (cases cs; cases "tl cs") (auto simp: empty_key_def)
  qed
  then show ?case
    using IH len by simp
qed simp

lemma replace_empty_key_head: "replace_all empty_key [] (empty_key @ y) = replace_all empty_key [] y"
  by (simp add: empty_key_def)

lemma rfind_snoc: "rfind c (s @ [c]) = Some (length s)"
  by (induction s) simp_all

text \<open>osquery's object of objects under empty keys becomes the array of those objects.\<close>

definition status_object :: "string \<Rightarrow> bool" where
  "status_object s = (\<not> contains empty_key s \<and> s \<noteq> [] \<and> last s = CHR 0x7D)"

definition osquery_statuses :: "string list \<Rightarrow> string" where
  "osquery_statuses objs = CHR 0x7B # join '','' (map (\<lambda>s. empty_key @ s) objs) @ [CHR 0x7D]"

lemma replace_statuses:
  "\<forall>s \<in> set objs. status_object s \<Longrightarrow>
   replace_all empty_key [] (join '','' (map (\<lambda>s. empty_key @ s) objs) @ [CHR 0x7D]) = join '','' objs @ [CHR 0x7D]"
proof (induction objs)
  case (Cons s objs)
  have s: "\<not> contains empty_key s" "s \<noteq> [] \<longrightarrow> last s \<noteq> CHR 0x22"
    using Cons.prems by (auto simp: status_object_def)
  have tail: "replace_all empty_key [] (CHR '','' # t) = CHR '','' # replace_all empty_key [] t" for t
    by (simp add: empty_key_def)
  have close: "replace_all empty_key [] [CHR 0x7D] = [CHR 0x7D]"
    by (simp add: empty_key_def)
  show ?case
  proof (cases objs)
    case Nil
    then show ?thesis
      using replace_empty_key_append [OF s, of "[CHR 0x7D]"] by (simp add: replace_empty_key_head close del: replace_all.simps)
  next
    case (Cons s' objs')
    let ?rest = "join '','' (map (\<lambda>s. empty_key @ s) objs) @ [CHR 0x7D]"
    have "replace_all empty_key [] (join '','' (map (\<lambda>s. empty_key @ s) (s # objs)) @ [CHR 0x7D])
        = replace_all empty_key [] (empty_key @ s @ CHR '','' # ?rest)"
      using Cons by simp
    also have "\<dots> = s @ CHR '','' # replace_all empty_key [] ?rest"
      by (simp add: replace_empty_key_head replace_empty_key_append [OF s] tail del: replace_all.simps)
    also have "\<dots> = join '','' (s # objs) @ [CHR 0x7D]"
      using Cons.IH Cons.prems Cons by (simp del: replace_all.simps)
    finally show ?thesis .
  qed
qed (simp add: empty_key_def)

lemma repair_osquery_statuses:
  assumes "\<forall>s \<in> set objs. status_object s"
  shows "repair_status (osquery_statuses objs) = CHR ''['' # join '','' objs @ '']''"
proof -
  let ?body = "join '','' (map (\<lambda>s. empty_key @ s) objs) @ [CHR 0x7D]"
  have "replace_all empty_key [] (CHR 0x7B # ?body) = CHR 0x7B # replace_all empty_key [] ?body"
    by (simp add: empty_key_def)
  then have "replace_all empty_key [] (osquery_statuses objs) = CHR 0x7B # join '','' objs @ [CHR 0x7D]"
    unfolding osquery_statuses_def using replace_statuses [OF assms] by simp
  then show ?thesis
    using rfind_snoc [of "CHR 0x7D" "CHR ''['' # join '','' objs"]
    by (simp add: repair_status_def replace_from_def empty_key_def [symmetric])
qed

section \<open>Properties\<close>

text \<open>
  C25: every status line is delivered. From the object of objects under empty keys that
  osquery sends, the plugin makes the text of an array of those objects, and when that
  text parses, the logging closure runs on each element in order, also after one has
  failed; if none fails the answer is success without rows.
\<close>

theorem statuses_are_delivered:
  assumes "objs \<noteq> []" and "\<forall>s \<in> set objs. status_object s" and "returns (lg_log_fn p)"
    and "jl_parse L (CHR ''['' # join '','' objs @ '']'') = Ok (JArray vs)"
  shows "\<exists>r. logger_call L [(''log'', osquery_statuses objs), (''status'', st)] p
      = (r, p\<lparr>lg_state := fold (\<lambda>v g. snd (lg_log_fn p LStatus (jl_show L v) g)) vs (lg_state p)\<rparr>)
    \<and> ((\<forall>ty text g. is_ok (fst (lg_log_fn p ty text g))) \<longrightarrow> r = Ok [])"
proof -
  let ?data = "osquery_statuses objs" and ?g = "fold (\<lambda>v g. snd (lg_log_fn p LStatus (jl_show L v) g)) vs (lg_state p)"
  have d: "log_status_data L (lg_log_fn p) ?data = log_statuses L (lg_log_fn p) vs"
    using assms(4) repair_osquery_statuses [OF assms(2)] by (simp add: log_status_data_def osquery_statuses_def)
  obtain es where es: "log_statuses L (lg_log_fn p) vs ([], lg_state p) = (Ok (), (es, ?g))"
    and ok: "(\<forall>ty text g. is_ok (fst (lg_log_fn p ty text g))) \<longrightarrow> es = []"
    using log_statuses_all [OF assms(3), of L vs "[]" "lg_state p"] by auto
  have "log_entries L (lg_log_fn p) [(''log'', ?data), (''status'', st)] [(''log'', ?data), (''status'', st)] ([], lg_state p)
      = (Ok (), (es, ?g))"
    by (simp add: log_entry_def log_type_from_str_def bt_get_Cons d seq_def bnd_def ret_def es)
  then show ?thesis
    using ok by (simp add: logger_call_def)
qed

definition collecting_logger :: "string list logger_plugin" where
  "collecting_logger = new_logger_plugin ''l'' (\<lambda>ty text g. (Ok (), g @ [text])) []"

theorem statuses_are_delivered_witness:
  "\<exists>r. logger_call (one_document JNull\<lparr>jl_parse := \<lambda>_. Ok (JArray [JNull])\<rparr>)
      [(''log'', osquery_statuses [[CHR 0x7B, CHR 0x7D]]), (''status'', ''true'')] collecting_logger
    = (r, collecting_logger\<lparr>lg_state := [''doc'']\<rparr>)"
proof -
  have "status_object [CHR 0x7B, CHR 0x7D]"
    by (simp add: status_object_def empty_key_def)
  moreover have "returns (lg_log_fn collecting_logger)"
    by (simp add: returns_def collecting_logger_def new_logger_plugin_def)
  ultimately show ?thesis
    using statuses_are_delivered [of "[[CHR 0x7B, CHR 0x7D]]" collecting_logger
      "one_document JNull\<lparr>jl_parse := \<lambda>_. Ok (JArray [JNull])\<rparr>" "[JNull]" "''true''"]
    by (auto simp: collecting_logger_def new_logger_plugin_def one_document_def)
qed

end
