(* ===== verification/Distributed.thy ===== *)
theory Distributed
  imports Plugin
begin

text \<open>
  \<open>src/src/plugin/distributed.rs\<close>: the distributed queries plugin. Its JSON types are
  read from a \<open>Value\<close>; integers may be numbers or quoted strings.
\<close>

section \<open>Requests and responses\<close>

record queries_request =
  qr_queries :: "(string, string) btree"
  qr_discovery :: "(string, string) btree"
  qr_accelerate_seconds :: i64

definition new_queries_request :: "(string, string) btree \<Rightarrow> queries_request" where
  "new_queries_request queries =
     \<lparr>qr_queries = queries, qr_discovery = [], qr_accelerate_seconds = i64_of_int 5\<rparr>"

definition with_discovery :: "(string, string) btree \<Rightarrow> queries_request \<Rightarrow> queries_request" where
  "with_discovery d q = q\<lparr>qr_discovery := d\<rparr>"

definition with_accelerate_seconds :: "i64 \<Rightarrow> queries_request \<Rightarrow> queries_request" where
  "with_accelerate_seconds s q = q\<lparr>qr_accelerate_seconds := s\<rparr>"

definition json_string_map :: "(string, string) btree \<Rightarrow> json" where
  "json_string_map m = JObject (map (\<lambda>(k, v). (k, JString v)) m)"

text \<open>The derived \<open>Serialize\<close>: the struct's fields in order, under their names.\<close>

definition encode_queries_request :: "queries_request \<Rightarrow> json" where
  "encode_queries_request q = JObject
     [(''queries'', json_string_map (qr_queries q)),
      (''discovery'', json_string_map (qr_discovery q)),
      (''accelerate'', JNumber (JInt (i64_val (qr_accelerate_seconds q))))]"

text \<open>The derived \<open>i64\<close> deserializer takes numbers only.\<close>

fun decode_i64 :: "json_lib \<Rightarrow> i64 decoder" where
  "decode_i64 L (JNumber n) = ok_or (jl_error L ''i64'' (JNumber n)) (json_i64 n)"
| "decode_i64 L v = Err (jl_error L ''i64'' v)"

definition decode_queries_request :: "json_lib \<Rightarrow> queries_request decoder" where
  "decode_queries_request L json =
     bind_result (struct_fields L ''QueriesRequest'' [''queries'', ''discovery'', ''accelerate''] json) (\<lambda>v.
     bind_result (json_field L ''QueriesRequest'' (decode_map L (decode_string L)) ''queries'' v) (\<lambda>queries.
     bind_result (json_field_default [] (decode_map L (decode_string L)) ''discovery'' v) (\<lambda>discovery.
     bind_result (json_field_default (i64_of_int 0) (decode_i64 L) ''accelerate'' v) (\<lambda>seconds.
       Ok \<lparr>qr_queries = queries, qr_discovery = discovery, qr_accelerate_seconds = seconds\<rparr>))))"

record query_stats =
  st_wall_time_ms :: i64
  st_user_time :: i64
  st_system_time :: i64
  st_memory :: i64

record query_response =
  qp_query_name :: string
  qp_status :: i64
  qp_rows :: plugin_response
  qp_stats :: "query_stats option"
  qp_message :: string

text \<open>\<open>OsqueryInt\<close>: a number, or a string that \<open>parse::<i64>\<close> takes.\<close>

fun decode_osquery_int :: "json_lib \<Rightarrow> i64 decoder" where
  "decode_osquery_int L (JString s) =
     (if s \<noteq> [] then map_err show_parse_int_error (parse_i64 s)
      else Err (''invalid value '' @ jl_show L (JString s) @ '', expected int''))"
| "decode_osquery_int L (JNumber n) =
     (case json_i64 n of
        Some i \<Rightarrow> Ok i
      | None \<Rightarrow> Err (''invalid value '' @ jl_show L (JNumber n) @ '', expected int''))"
| "decode_osquery_int L v = Err (''invalid value '' @ jl_show L v @ '', expected int'')"

definition decode_stats :: "json_lib \<Rightarrow> query_stats decoder" where
  "decode_stats L json =
     bind_result (struct_fields L ''Stats'' [''wall_time_ms'', ''user_time'', ''system_time'', ''memory''] json) (\<lambda>v.
     bind_result (json_field_default (i64_of_int 0) (decode_osquery_int L) ''wall_time_ms'' v) (\<lambda>a.
     bind_result (json_field_default (i64_of_int 0) (decode_osquery_int L) ''user_time'' v) (\<lambda>b.
     bind_result (json_field_default (i64_of_int 0) (decode_osquery_int L) ''system_time'' v) (\<lambda>c.
     bind_result (json_field_default (i64_of_int 0) (decode_osquery_int L) ''memory'' v) (\<lambda>d.
       Ok \<lparr>st_wall_time_ms = a, st_user_time = b, st_system_time = c, st_memory = d\<rparr>)))))"

record queries_response =
  qs_queries :: "(string, json) btree"
  qs_statuses :: "(string, i64) btree"
  qs_stats :: "(string, query_stats) btree"
  qs_messages :: "(string, string) btree"

definition decode_queries_response :: "json_lib \<Rightarrow> queries_response decoder" where
  "decode_queries_response L json =
     bind_result (struct_fields L ''QueriesResponse'' [''queries'', ''statuses'', ''stats'', ''messages''] json) (\<lambda>v.
     bind_result (json_field L ''QueriesResponse'' (decode_map L Ok) ''queries'' v) (\<lambda>queries.
     bind_result (json_field L ''QueriesResponse'' (decode_map L (decode_osquery_int L)) ''statuses'' v) (\<lambda>statuses.
     bind_result (json_field_default [] (decode_map L (decode_stats L)) ''stats'' v) (\<lambda>stats.
     bind_result (json_field_default [] (decode_map L (decode_string L)) ''messages'' v) (\<lambda>messages.
       Ok \<lparr>qs_queries = queries, qs_statuses = statuses, qs_stats = stats, qs_messages = messages\<rparr>)))))"

definition decode_rows :: "json_lib \<Rightarrow> plugin_response decoder" where
  "decode_rows L = decode_vec L (decode_map L (decode_string L))"

text \<open>The rows of one query: an array, or nothing where osquery sends a string or nothing.\<close>

definition response_rows_of :: "json_lib \<Rightarrow> string \<Rightarrow> json option \<Rightarrow> (plugin_response, string) result" where
  "response_rows_of L name v =
     (case v of
        Some (JArray rows) \<Rightarrow> map_err (\<lambda>err. name @ '': '' @ err) (decode_rows L (JArray rows))
      | Some (JString s) \<Rightarrow> Ok []
      | None \<Rightarrow> Ok []
      | Some other \<Rightarrow> Err (''results for \"'' @ name @ ''\" unknown type '' @ jl_show L other))"

primrec collect_responses ::
  "json_lib \<Rightarrow> queries_response \<Rightarrow> (string \<times> i64) list \<Rightarrow> (query_response list, string) result" where
  "collect_responses L qs [] = Ok []"
| "collect_responses L qs (ns # nss) =
     bind_result (response_rows_of L (fst ns) (bt_get (qs_queries qs) (fst ns))) (\<lambda>rows.
     bind_result (collect_responses L qs nss) (\<lambda>rs.
       Ok (\<lparr>qp_query_name = fst ns, qp_status = snd ns, qp_rows = rows,
            qp_stats = bt_get (qs_stats qs) (fst ns),
            qp_message = (case bt_get (qs_messages qs) (fst ns) of None \<Rightarrow> [] | Some m \<Rightarrow> m)\<rparr> # rs)))"

definition responses_of :: "json_lib \<Rightarrow> queries_response \<Rightarrow> (query_response list, string) result" where
  "responses_of L qs = collect_responses L qs (qs_statuses qs)"

section \<open>The plugin\<close>

record 'g distributed_plugin =
  dp_name :: string
  dp_get_queries :: "('g, queries_request, error) act"
  dp_write_queries :: "query_response list \<Rightarrow> ('g, unit, error) act"
  dp_state :: 'g

definition new_distributed_plugin ::
  "string \<Rightarrow> ('g, queries_request, error) act \<Rightarrow> (query_response list \<Rightarrow> ('g, unit, error) act) \<Rightarrow> 'g
    \<Rightarrow> 'g distributed_plugin" where
  "new_distributed_plugin name get_queries write_queries g =
     \<lparr>dp_name = name, dp_get_queries = get_queries, dp_write_queries = write_queries, dp_state = g\<rparr>"

definition run_distributed ::
  "('g, 'a, error) act \<Rightarrow> 'g distributed_plugin \<Rightarrow> ('a, error) result \<times> 'g distributed_plugin" where
  "run_distributed f p = (case f (dp_state p) of (r, g) \<Rightarrow> (r, p\<lparr>dp_state := g\<rparr>))"

text \<open>Serializing a request cannot fail: its maps have strings as keys.\<close>

definition queries_reply :: "json_lib \<Rightarrow> (queries_request, error) result \<Rightarrow> (plugin_response, error) result" where
  "queries_reply L r = match_result r
     (\<lambda>q. Ok [bt_of [(''results'', jl_show L (encode_queries_request q))]])
     (\<lambda>e. Err (pass_status (\<lambda>e. Other (''error getting queries: '' @ show_error e)) e))"

definition write_reply :: "(unit, error) result \<Rightarrow> (plugin_response, error) result" where
  "write_reply r = match_result r (\<lambda>_. Ok [])
     (\<lambda>e. Err (pass_status (\<lambda>e. Other (''error writing results: '' @ show_error e)) e))"

definition distributed_write ::
  "json_lib \<Rightarrow> plugin_request \<Rightarrow> ('g distributed_plugin, plugin_response, error) act" where
  "distributed_write L req p =
     (case bt_get req ''results'' of
        None \<Rightarrow> (Err (Other ''error: missing results''), p)
      | Some results_json \<Rightarrow> (case from_json_str L (decode_queries_response L) results_json of
            Err err \<Rightarrow> (Err (Other (''error deserializing results: '' @ err)), p)
          | Panic t \<Rightarrow> (Panic t, p)
          | Diverge \<Rightarrow> (Diverge, p)
          | Ok queries \<Rightarrow> (case responses_of L queries of
                Err err \<Rightarrow> (Err (Other (''error writing results: '' @ err)), p)
              | Panic t \<Rightarrow> (Panic t, p)
              | Diverge \<Rightarrow> (Diverge, p)
              | Ok results \<Rightarrow> (case run_distributed (dp_write_queries p results) p of
                    (r, p') \<Rightarrow> (write_reply r, p')))))"

definition distributed_call ::
  "json_lib \<Rightarrow> plugin_request \<Rightarrow> ('g distributed_plugin, plugin_response, error) act" where
  "distributed_call L req p =
     (case request_action req of
        None \<Rightarrow> (Err missing_action, p)
      | Some action \<Rightarrow>
          if action = ''getQueries'' then (case run_distributed (dp_get_queries p) p of
            (r, p') \<Rightarrow> (queries_reply L r, p'))
          else if action = ''writeResults'' then distributed_write L req p
          else (Err (unknown_action action), p))"

definition distributed_vtable :: "json_lib \<Rightarrow> 'g distributed_plugin plugin" where
  "distributed_vtable L =
     \<lparr>pl_name = dp_name, pl_registry_name = \<lambda>_. RDistributed, pl_routes = \<lambda>_. [], pl_ping = \<lambda>_. Ok (),
      pl_call = distributed_call L, pl_shutdown = ret ()\<rparr>"

interpretation distributed: returning_shutdown "distributed_vtable L" for L
  by unfold_locales (simp add: distributed_vtable_def ret_def)

section \<open>The contracts\<close>

interpretation distributed: action_plugin "distributed_call L" "{''getQueries'', ''writeResults''}" for L
  by unfold_locales (auto simp: distributed_call_def)

interpretation distributed_queries: status_passthrough "queries_reply L" for L
  by unfold_locales (auto simp: queries_reply_def pass_status_def)

interpretation distributed_writes: status_passthrough write_reply
  by unfold_locales (auto simp: write_reply_def pass_status_def)

section \<open>Lemmas\<close>

lemma decode_osquery_int_forms:
  "decode_osquery_int L (JNumber (JInt (i64_val i))) = Ok i"
  "decode_osquery_int L (JString (show_i64 i)) = Ok i"
proof -
  show "decode_osquery_int L (JNumber (JInt (i64_val i))) = Ok i"
    by simp
  have "show_i64 i \<noteq> []"
    by (simp add: show_i64_def show_int_def)
  then show "decode_osquery_int L (JString (show_i64 i)) = Ok i"
    by simp
qed

lemma queries_request_round_trip:
  assumes "bt_wf (qr_queries q)" and "bt_wf (qr_discovery q)"
  shows "decode_queries_request L (encode_queries_request q) = Ok q"
  using assms
  by (simp add: decode_queries_request_def encode_queries_request_def json_field_def json_field_default_def
    json_string_map_def decode_string_map bt_of_wf)

text \<open>One response per status, in key order, with the rows, stats and message of its name.\<close>

definition response_for :: "json_lib \<Rightarrow> queries_response \<Rightarrow> string \<times> i64 \<Rightarrow> query_response \<Rightarrow> bool" where
  "response_for L qs ns r =
     (response_rows_of L (fst ns) (bt_get (qs_queries qs) (fst ns)) = Ok (qp_rows r)
      \<and> qp_query_name r = fst ns \<and> qp_status r = snd ns \<and> qp_stats r = bt_get (qs_stats qs) (fst ns)
      \<and> qp_message r = (case bt_get (qs_messages qs) (fst ns) of None \<Rightarrow> [] | Some m \<Rightarrow> m))"

lemma collect_responses_Ok_iff:
  "collect_responses L qs nss = Ok rs \<longleftrightarrow> list_all2 (response_for L qs) nss rs"
proof (induction nss arbitrary: rs)
  case (Cons ns nss)
  show ?case
    by (auto simp: bind_result_Ok_iff Cons.IH list_all2_Cons1 response_for_def)
qed auto

section \<open>Properties\<close>

text \<open>
  C26: the queries arrive as the callback gave them. When the JSON library reads back what
  it prints of this request, the single row of the answer to \<open>getQueries\<close> decodes, with
  the program's own decoder, to the request of the callback.
\<close>

theorem queries_round_trip:
  assumes "request_action req = Some ''getQueries''" and "dp_get_queries p (dp_state p) = (Ok q, g)"
    and "bt_wf (qr_queries q)" and "bt_wf (qr_discovery q)"
    and "jl_parse L (jl_show L (encode_queries_request q)) = Ok (encode_queries_request q)"
  shows "\<exists>row text. distributed_call L req p = (Ok [row], p\<lparr>dp_state := g\<rparr>)
    \<and> bt_get row ''results'' = Some text
    \<and> from_json_str L (decode_queries_request L) text = Ok q"
  using assms(1,2,5) queries_request_round_trip [OF assms(3,4), of L]
  by (simp add: distributed_call_def run_distributed_def queries_reply_def from_json_str_def bt_of_def bt_get_Cons)

definition one_query :: queries_request where
  "one_query = new_queries_request [(''q'', ''select 1'')]"

definition collecting_distributed :: "query_response list distributed_plugin" where
  "collecting_distributed = new_distributed_plugin ''d'' (ret one_query) (\<lambda>rs g. (Ok (), g @ rs)) []"

theorem queries_round_trip_witness:
  "\<exists>row text. distributed_call (one_document (encode_queries_request one_query)) [(''action'', ''getQueries'')] collecting_distributed
      = (Ok [row], collecting_distributed) \<and> bt_get row ''results'' = Some text
    \<and> from_json_str (one_document (encode_queries_request one_query))
        (decode_queries_request (one_document (encode_queries_request one_query))) text = Ok one_query"
  using queries_round_trip [of "[(''action'', ''getQueries'')]" collecting_distributed one_query "[]"
      "one_document (encode_queries_request one_query)"]
  by (simp add: request_action_def bt_get_Cons collecting_distributed_def new_distributed_plugin_def ret_def
    one_query_def new_queries_request_def bt_wf_def one_document_def)


definition one_result :: json where
  "one_result = JObject [(''queries'', JObject [(''q'', JArray [JObject [(''a'', JString ''1'')]])]),
     (''statuses'', JObject [(''q'', JString ''0'')])]"


end
