(* ===== verification/Examples.thy ===== *)
theory Examples
  imports Session KvStore Config Logger Distributed
begin

text \<open>
  \<open>src/examples/\<close>: the repository's extensions, from connecting to the end of \<open>run\<close>, and its
  two programs that query osquery. What a program prints is a list of lines in its state;
  the \<open>Debug\<close> texts it prints are parameters. A theorem for all extensions says what
  osquery sees of one, from its registration on.
\<close>

section \<open>An extension\<close>

definition OSQUERY_SOCKET :: string where
  "OSQUERY_SOCKET = ''/var/osquery/osquery.em''"

text \<open>Every example makes a server on osquery's socket and registers one plugin.\<close>

definition example_server ::
  "(string \<Rightarrow> nat \<Rightarrow> ('k, error) result) \<Rightarrow> string \<Rightarrow> 'p plugin \<Rightarrow> 'p \<Rightarrow> (('k, 'p) server, error) result" where
  "example_server connect name V p =
     bind_result (new_server connect name OSQUERY_SOCKET) (\<lambda>sv.
       (case register_plugin V p (sv_registry sv) of
          (r, reg) \<Rightarrow> map_ok (\<lambda>_. sv\<lparr>sv_registry := reg\<rparr>) r))"

text \<open>
  Then it runs the server, with or without the signal thread, whose steps are steps beside
  the run, and drops it. \<open>extension_ends \<dots> r sv\<close>: the program may end with \<open>r\<close> and leave its
  server, when there was one, as \<open>sv\<close>, before its fields are dropped; \<open>env\<close> has the outcome of
  creating the runtime and the client lock's environments, of the run and of the drop.
\<close>

record extension_env =
  ee_runtime :: "(unit, io_error) result"
  ee_run1 :: lock_env
  ee_run2 :: lock_env
  ee_drop1 :: lock_env
  ee_drop2 :: lock_env

inductive extension_ends ::
  "'k ext_manager \<Rightarrow> (string \<Rightarrow> nat \<Rightarrow> ('k, error) result) \<Rightarrow> string \<Rightarrow> 'p plugin \<Rightarrow> 'p \<Rightarrow> extension_env
    \<Rightarrow> (unit, error) result \<Rightarrow> ('k, 'p) server option \<Rightarrow> bool" for EM connect name V p env where
  no_server: "example_server connect name V p = r \<Longrightarrow> \<not> is_ok r \<Longrightarrow>
    extension_ends EM connect name V p env (map_ok (\<lambda>_. ()) r) None"
| ran: "example_server connect name V p = Ok sv \<Longrightarrow>
    runs EM V (ee_runtime env) (ee_run1 env) (ee_run2 env) sv r sv' \<Longrightarrow> r \<noteq> Diverge \<Longrightarrow>
    extension_ends EM connect name V p env r (Some (drop_server EM V (ee_drop1 env) (ee_drop2 env) sv'))"

inductive_cases extension_endsE: "extension_ends EM connect name V p env r (Some sv)"

section \<open>The plugins\<close>

text \<open>\<open>table.rs\<close>\<close>

definition example_columns :: "column_definition list" where
  "example_columns = [column_text ''hello'', column_integer ''integer'', column_big_int ''big_int'', column_double ''double'']"

definition example_generate :: "(query_context \<Rightarrow> string) \<Rightarrow> query_context \<Rightarrow> (string list, table_rows, error) act" where
  "example_generate debug qctx printed =
     (Ok [bt_of [(''hello'', ''hello world''), (''integer'', ''123''), (''big_int'', ''-1234567890''), (''double'', ''3.14159'')]],
      printed @ [debug qctx])"

definition example_table :: "platform option \<Rightarrow> (query_context \<Rightarrow> string) \<Rightarrow> string list table_plugin" where
  "example_table target debug = table_plugin_new target ''example_table'' example_columns (example_generate debug) []"

text \<open>\<open>config.rs\<close>\<close>

definition newline :: string where
  "newline = [CHR 0x0A]"

definition generate_configs :: "(unit, config_map, error) act" where
  "generate_configs = ret (bt_of [(''config1'', join newline
     ['''',
      ''            {'',
      ''                \"options\": {'',
      ''                  \"host_identifier\": \"hostname\",'',
      ''                  \"schedule_splay_percent\": 10'',
      ''                },'',
      ''                \"schedule\": {'',
      ''                  \"macos_kextstat\": {'',
      ''                    \"query\": \"SELECT * FROM kernel_extensions;\",'',
      ''                    \"interval\": 10'',
      ''                  },'',
      ''                  \"foobar\": {'',
      ''                    \"query\": \"SELECT foo, bar, pid FROM foobar_table;\",'',
      ''                    \"interval\": 600'',
      ''                  }'',
      ''                }'',
      ''              }'',
      ''        ''])])"

definition incident_response_pack :: string where
  "incident_response_pack = join newline
     [''{'',
      ''                \"queries\": {'',
      ''                    \"processes\": {'',
      ''                        \"query\": \"SELECT * FROM processes;\",'',
      ''                        \"interval\": 60'',
      ''                    },'',
      ''                    \"open_files\": {'',
      ''                        \"query\": \"SELECT * FROM open_files WHERE pid IN (SELECT pid FROM processes);\",'',
      ''                        \"interval\": 300'',
      ''                    }'',
      ''                }'',
      ''            }'']"

definition compliance_pack :: string where
  "compliance_pack = join newline
     [''{'',
      ''                \"queries\": {'',
      ''                    \"sshd_config\": {'',
      ''                        \"query\": \"SELECT * FROM sshd_config;\",'',
      ''                        \"interval\": 3600'',
      ''                    }'',
      ''                }'',
      ''            }'']"

definition generate_pack :: "string \<Rightarrow> string \<Rightarrow> (unit, string, error) act" where
  "generate_pack name value =
     (if name = ''incident_response'' then ret incident_response_pack
      else if name = ''compliance'' then ret compliance_pack
      else fail (Other (''unknown pack: '' @ name)))"

definition example_config :: "unit config_plugin" where
  "example_config = with_gen_pack generate_pack (new_config_plugin ''example_config'' generate_configs ())"

text \<open>\<open>logger.rs\<close>\<close>

definition log_string :: "log_type \<Rightarrow> string \<Rightarrow> (string list, unit, error) act" where
  "log_string typ log_text printed = (Ok (), printed @ [log_type_display typ @ '': '' @ log_text])"

definition example_logger :: "string list logger_plugin" where
  "example_logger = with_shutdown (\<lambda>printed. (Ok (), printed @ [''Logger shutting down, flushing buffers...'']))
     (new_logger_plugin ''my_logger'' log_string [])"

text \<open>\<open>distributed.rs\<close>\<close>

definition get_queries :: "(string list, queries_request, error) act" where
  "get_queries = ret (new_queries_request (bt_of [(''time'', ''select * from time'')]))"

definition write_results :: "(query_response list \<Rightarrow> string) \<Rightarrow> query_response list \<Rightarrow> (string list, unit, error) act" where
  "write_results debug responses printed = (Ok (), printed @ [debug responses])"

definition example_distributed :: "(query_response list \<Rightarrow> string) \<Rightarrow> string list distributed_plugin" where
  "example_distributed debug = new_distributed_plugin ''example_distributed'' get_queries (write_results debug) []"

text \<open>Their servers.\<close>

definition table_extension :: "platform option \<Rightarrow> (query_context \<Rightarrow> string) \<Rightarrow> json_lib \<Rightarrow> (string \<Rightarrow> nat \<Rightarrow> ('k, error) result)
    \<Rightarrow> (('k, string list table_plugin) server, error) result" where
  "table_extension target debug L connect =
     example_server connect ''example_table_ext'' (table_vtable L) (example_table target debug)"

definition writable_extension :: "json_lib \<Rightarrow> (string \<Rightarrow> nat \<Rightarrow> ('k, error) result) \<Rightarrow> (('k, kv_store) server, error) result" where
  "writable_extension L connect = example_server connect ''writable_table_ext'' (writable_vtable L kv_table) kv_new"

definition config_extension :: "(string \<Rightarrow> nat \<Rightarrow> ('k, error) result) \<Rightarrow> (('k, unit config_plugin) server, error) result" where
  "config_extension connect = example_server connect ''example_extension'' config_vtable example_config"

definition logger_extension :: "json_lib \<Rightarrow> (string \<Rightarrow> nat \<Rightarrow> ('k, error) result)
    \<Rightarrow> (('k, string list logger_plugin) server, error) result" where
  "logger_extension L connect = example_server connect ''my_logger'' (logger_vtable L) example_logger"

definition distributed_extension :: "(query_response list \<Rightarrow> string) \<Rightarrow> json_lib \<Rightarrow> (string \<Rightarrow> nat \<Rightarrow> ('k, error) result)
    \<Rightarrow> (('k, string list distributed_plugin) server, error) result" where
  "distributed_extension debug L connect =
     example_server connect ''example_distributed'' (distributed_vtable L) (example_distributed debug)"

section \<open>The clients\<close>

text \<open>\<open>query.rs\<close>: one query; the client is dropped when \<open>main\<close> returns.\<close>

definition query_example ::
  "'c thrift \<Rightarrow> ('s \<Rightarrow> 'c \<Rightarrow> 'c) \<Rightarrow> (plugin_response \<Rightarrow> string) \<Rightarrow> (('c, 's) mgr_client, error) result
    \<Rightarrow> (string, error) result \<times> ('c, 's) mgr_client option" where
  "query_example T hang_up debug connected =
     (case connected of
        Ok client \<Rightarrow> (case client_mgr_query T ''SELECT * FROM users LIMIT 1'' client of
            (rows, client') \<Rightarrow> (map_ok (\<lambda>rows. ''Got results: '' @ debug rows) rows, Some (drop_client hang_up client')))
      | r \<Rightarrow> (map_ok (\<lambda>_. []) r, None))"

text \<open>
  The prompt of \<open>table.rs\<close>. An input is what \<open>read_line\<close> appended to the query, with whether
  the extension's thread has finished by then, or its failure; \<open>None\<close> is a prompt that waits
  for input, \<open>ended\<close> what joining the thread gives.
\<close>

datatype input = Line string bool | ReadError

fun prompt ::
  "'c thrift \<Rightarrow> (plugin_response \<Rightarrow> string) \<Rightarrow> (unit, error) result \<Rightarrow> input list \<Rightarrow> string
    \<Rightarrow> ('c, 's) mgr_client \<times> string list \<Rightarrow> (unit, error) result option \<times> (('c, 's) mgr_client \<times> string list)" where
  "prompt T debug ended [] query s = (None, s)"
| "prompt T debug ended (Line line finished # events) query (client, printed) =
     (let query = query @ line in
      if finished then (Some ended, (client, printed))
      else if query \<noteq> [] \<and> last query \<in> {CHR 0x0A, CHR 0x0D} then
        (if 1 < length query then
           (case client_mgr_query T query client of
              (Ok rows, client') \<Rightarrow> prompt T debug ended events [] (client', printed @ [debug rows])
            | (r, client') \<Rightarrow> (Some (map_ok (\<lambda>_. ()) r), (client', printed)))
         else prompt T debug ended events [] (client, printed))
      else prompt T debug ended events query (client, printed))"
| "prompt T debug ended (ReadError # events) query s = (Some ended, s)"

section \<open>Lemmas\<close>

text \<open>The server of an extension: unregistered, with its one plugin, and a client of its own.\<close>

lemma example_server_Ok:
  assumes "example_server connect name V p = Ok sv"
  shows "\<exists>k. connect OSQUERY_SOCKET DEFAULT_TIMEOUT = Ok k \<and> sv_client sv = Some k"
    and "sv_name sv = name" "sv_version sv = None" "sv_trace sv = []" "sv_ownership sv = Owned" "sv_rx sv"
    "\<not> sv_client_poisoned sv"
    and "sv_registry sv = \<lparr>rg_map = [(pl_registry_name V p, [(pl_name V p, \<lparr>ce_plugin = p, ce_poisoned = False\<rparr>)])],
      rg_poisoned = False\<rparr>"
    and "sv_uuid sv = None" "sv_channel sv = new_channel"
proof -
  obtain sv0 where new: "new_server connect name OSQUERY_SOCKET = Ok sv0"
    and m: "(case register_plugin V p (sv_registry sv0) of (r, reg) \<Rightarrow> map_ok (\<lambda>_. sv0\<lparr>sv_registry := reg\<rparr>) r) = Ok sv"
    using assms by (auto simp: example_server_def bind_result_Ok_iff)
  obtain reg where reg: "register_plugin V p (sv_registry sv0) = (Ok (), reg)" and sv: "sv = sv0\<lparr>sv_registry := reg\<rparr>"
    using m by (cases "register_plugin V p (sv_registry sv0)") (auto simp: map_ok_Ok_iff)
  obtain k where k: "connect OSQUERY_SOCKET DEFAULT_TIMEOUT = Ok k"
    using new by (auto simp: new_server_def build_def new_builder_def bind_result_Ok_iff split: if_splits)
  then have sv0: "sv_client sv0 = Some k" "sv_name sv0 = name" "sv_version sv0 = None" "sv_trace sv0 = []"
    "sv_ownership sv0 = Owned" "sv_rx sv0" "\<not> sv_client_poisoned sv0" "sv_registry sv0 = new_registry"
    "sv_uuid sv0 = None" "sv_channel sv0 = new_channel"
    using new by (auto simp: new_server_def build_def new_builder_def split: if_splits)
  show "\<exists>k. connect OSQUERY_SOCKET DEFAULT_TIMEOUT = Ok k \<and> sv_client sv = Some k"
    using k sv0 by (simp add: sv)
  show "sv_name sv = name" "sv_version sv = None" "sv_trace sv = []" "sv_ownership sv = Owned" "sv_rx sv"
    "\<not> sv_client_poisoned sv"
    using sv0 by (simp_all add: sv)
  show "sv_uuid sv = None" "sv_channel sv = new_channel"
    using sv0 by (simp_all add: sv)
  show "sv_registry sv = \<lparr>rg_map = [(pl_registry_name V p, [(pl_name V p, \<lparr>ce_plugin = p, ce_poisoned = False\<rparr>)])],
      rg_poisoned = False\<rparr>"
    using reg by (auto simp: sv sv0(8) register_plugin_def register_entry_def new_registry_def or_default_entry_def
      modify_entry_def Let_def split: if_splits)
qed

text \<open>What such a server registers.\<close>

definition one_plugin :: "'p plugin \<Rightarrow> 'p \<Rightarrow> extension_registry" where
  "one_plugin V p = [(registry_name_display (pl_registry_name V p), [(pl_name V p, pl_routes V p)])]"

lemma example_server_registry:
  assumes "example_server connect name V p = Ok sv"
  shows "gen_registry V (sv_registry sv) = Ok (one_plugin V p)"
  by (simp add: example_server_Ok(8) [OF assms] gen_registry_def one_plugin_def bt_contains_key_def Let_def)

lemma example_server_connects:
  assumes "connect OSQUERY_SOCKET DEFAULT_TIMEOUT = Ok k"
  shows "\<exists>sv. example_server connect name V p = Ok sv"
  using assms by (auto simp: example_server_def new_server_def build_def new_builder_def OSQUERY_SOCKET_def
    MAX_SOCKET_PATH_CHARACTERS_def register_plugin_def register_entry_def new_registry_def or_default_entry_def Let_def)

text \<open>A registration that osquery refuses, and a runtime that cannot be made after it.\<close>

context osquery_peer
begin

lemma register_reply_answers:
  "sendable_answer T E ok answer \<Longrightarrow>
    is_ok (replied register_reply (seen T norm_status answer)) \<or> is_err (replied register_reply (seen T norm_status answer))"
  by (cases answer) (auto simp: replied_def register_reply_def norm_status_def or_default_def Let_def)

lemma begin_run_outcomes:
  assumes "sv_rx sv" and "\<not> sv_client_poisoned sv" and "sv_client sv = Some (resting_client h sq stream)"
    and "gen_registry V (sv_registry sv) = Ok registry" and "sendable E (sv_name sv) (sv_version sv) registry"
    and "handle_register_extension H (norm_extension_info (registration_info (sv_name sv) (sv_version sv))) registry h
      = (answer, h1)"
    and "begin_run real_client V rt sv = (r, sv')" and "is_ok rt \<or> is_err rt"
  shows "(case replied register_reply (seen T norm_status answer) of
        Ok uuid \<Rightarrow> r = map_err error_from_io rt \<and> sv_uuid sv' = Some uuid
      | Err e \<Rightarrow> r = Err (error_context e ''registering extension'') \<and> sv_uuid sv' = sv_uuid sv
      | _ \<Rightarrow> False)
    \<and> sv_trace sv' = sv_trace sv \<and> osquery_at hang_up sv' h1 \<and> sv_client sv' \<noteq> None"
proof -
  let ?a = "replied register_reply (seen T norm_status answer)"
  have m: "em_register_extension real_client (sv_name sv) (sv_version sv) registry (resting_client h sq stream)
      = (?a, resting_client h1 (sq + 1) stream)"
    by (simp add: client_manager_def registers [OF assms(5)] assms(6))
  have "is_ok ?a \<or> is_err ?a"
    using register_reply_answers [OF register_answered] assms(6) by (metis fst_conv)
  then show ?thesis
    using assms(1-4,7,8) m
    by (cases ?a; cases rt) (auto simp: begin_run_def start_def bnd_def register_extension_def on_client_lock_def osquery_at_def)
qed

text \<open>The whole life of an extension, as osquery sees it.\<close>

lemma extension_seen:
  assumes "extension_ends real_client connect name V p env r (Some sv)"
    and "connect OSQUERY_SOCKET DEFAULT_TIMEOUT = Ok (resting_client h sq stream)"
    and "sendable E name None (one_plugin V p)" and "is_ok (ee_runtime env) \<or> is_err (ee_runtime env)"
    and "handle_register_extension H (norm_extension_info (registration_info name None)) (one_plugin V p) h = (answer, h1)"
  shows "case replied register_reply (seen T norm_status answer) of
      Ok uuid \<Rightarrow> (\<exists>h2 h3. pinged H h1 h2 \<and> osquery_at hang_up sv h3
        \<and> (if Deregistered uuid \<in> set (sv_trace sv) then pinged H (snd (handle_deregister_extension H uuid h2)) h3
           else h3 = h2 \<and> (le_busy (ee_run1 env) 0 \<or> le_busy (ee_drop1 env) 0)))
    | Err e \<Rightarrow> r = Err (error_context e ''registering extension'') \<and> osquery_at hang_up sv h1
    | _ \<Rightarrow> False"
proof -
  obtain sv0 sv' where x: "example_server connect name V p = Ok sv0"
    "runs real_client V (ee_runtime env) (ee_run1 env) (ee_run2 env) sv0 r sv'"
    "sv = drop_server real_client V (ee_drop1 env) (ee_drop2 env) sv'"
    using assms(1) by (auto elim: extension_endsE)
  note s0 = example_server_Ok [OF x(1)]
  have k: "sv_client sv0 = Some (resting_client h sq stream)"
    using s0(1) assms(2) by simp
  obtain rb sv1 where b: "begin_run real_client V (ee_runtime env) sv0 = (rb, sv1)"
    by (cases "begin_run real_client V (ee_runtime env) sv0")
  note out = begin_run_outcomes [OF s0(6,7) k example_server_registry [OF x(1)] _ _ b assms(4), of answer h1]
  let ?a = "replied register_reply (seen T norm_status answer)"
  show ?thesis
  proof (cases ?a)
    case (Err e)
    then have "rb = Err (error_context e ''registering extension'')" "sv_uuid sv1 = None" "osquery_at hang_up sv1 h1"
      using out assms(3,5) s0(2,3,9) by simp_all
    moreover from this have "r = rb \<and> sv' = sv1"
      using x(2) b by (auto elim: runsE)
    ultimately show ?thesis
      by (simp add: Err x(3) drop_server_def shutdown_unregistered)
  next
    case (Ok uuid)
    then have o: "rb = map_err error_from_io (ee_runtime env)" "sv_uuid sv1 = Some uuid" "sv_trace sv1 = []"
      "osquery_at hang_up sv1 h1" "sv_client sv1 \<noteq> None"
      using out assms(3,5) s0(2-4) by simp_all
    have "visited H hang_up uuid h1 sv \<and> (\<not> le_busy (ee_run1 env) 0 \<and> \<not> le_busy (ee_drop1 env) 0 \<longrightarrow>
        Deregistered uuid \<in> set (sv_trace sv))"
    proof (cases "ee_runtime env")
      case (Ok u)
      then have "begin_run real_client V (ee_runtime env) sv0 = (Ok (), sv1)"
        using b o(1) by simp
      from finished_run_visits [OF x(2) this o(2-4)] show ?thesis
        by (simp add: x(3) drop_server_def shutdown_unregistered)
    next
      case (Err e)
      then have "sv' = sv1"
        using x(2) b o(1) by (auto elim: runsE)
      obtain rs where d: "shutdown real_client V (ee_drop1 env) (ee_drop2 env) sv1 = (rs, sv)"
        by (cases "shutdown real_client V (ee_drop1 env) (ee_drop2 env) sv1") (simp add: x(3) drop_server_def \<open>sv' = sv1\<close>)
      have "visited H hang_up uuid h1 sv1"
        using o(3,4) unfolding visited_def by (intro exI [of _ h1]) simp
      from shutdown_visits [OF shutdown_is_teardown [OF d, of True] o(2) this] show ?thesis
        using o(3,5) by simp
    qed (use assms(4) in simp_all)
    then show ?thesis
      unfolding visited_def by (simp add: Ok) metis
  qed (use out assms(3,5) s0(2,3) in simp_all)
qed

text \<open>An extension whose registration is accepted ends well on Ctrl+C.\<close>

lemma interrupted_extension:
  assumes "connect OSQUERY_SOCKET DEFAULT_TIMEOUT = Ok (resting_client h sq stream)"
    and "sendable E name None (one_plugin V p)" and "ee_runtime env = Ok ()"
    and "handle_register_extension H (norm_extension_info (registration_info name None)) (one_plugin V p) h = (answer, h1)"
    and "replied register_reply (seen T norm_status answer) = Ok uuid"
    and "ticks (ee_run1 env)" and "ticks (ee_run2 env)" and "returning_shutdown V"
  shows "\<exists>sv. extension_ends real_client connect name V p env (Ok ()) (Some sv)"
proof -
  obtain sv0 where x: "example_server connect name V p = Ok sv0"
    using example_server_connects [of connect "resting_client h sq stream" name V p] assms(1) by blast
  note s0 = example_server_Ok [OF x]
  have k: "sv_client sv0 = Some (resting_client h sq stream)"
    using s0(1) assms(1) by simp
  obtain rb sv1 where b: "begin_run real_client V (Ok ()) sv0 = (rb, sv1)"
    by (cases "begin_run real_client V (Ok ()) sv0")
  have "rb = Ok ()"
    using begin_run_outcomes [OF s0(6,7) k example_server_registry [OF x] _ _ b, of answer h1] assms(2,4,5) s0(2,3) by simp
  note b = b [unfolded this]
  have o: "others real_client V (sv1, True) (send_signal None sv1, True)"
    by (rule others.trans [OF others.refl others_step.signal_caught])
  have c: "ch_buffer (sv_channel (send_signal None sv1)) = Some None"
    using begin_run_channel [OF b] s0(10) by (simp add: send_signal_def channel_send_def new_channel_def)
  have f: "fit_client resting (sendable E) V sv0"
    using k example_server_registry [OF x] assms(2) s0(2,3) by (simp add: fit_client_def)
  obtain sv' where "runs real_client V (Ok ()) (ee_run1 env) (ee_run2 env) sv0 (signal_result None) sv'"
    using run_with_signal [OF b o c client.answering_manager_axioms f assms(6-8)] by blast
  with x have "extension_ends real_client connect name V p env (Ok ())
      (Some (drop_server real_client V (ee_drop1 env) (ee_drop2 env) sv'))"
    by (intro extension_ends.ran) (simp_all add: assms(3))
  then show ?thesis by blast
qed

end

text \<open>
  At the end of its input the prompt of \<open>table.rs\<close> does not stop: \<open>read_line\<close> goes on to
  append nothing, and the loop goes round without doing anything.
\<close>

lemma prompt_spins_at_end_of_input:
  assumes "query = [] \<or> last query \<notin> {CHR 0x0A, CHR 0x0D}"
  shows "prompt T debug ended (replicate n (Line [] False) @ inputs) query (client, printed)
    = prompt T debug ended inputs query (client, printed)"
  using assms by (induction n) (auto simp: Let_def)

text \<open>Lines that osquery answers are printed, in order.\<close>

primrec asked :: "'h mgr_handler \<Rightarrow> string list \<Rightarrow> 'h \<Rightarrow> (w_response, thrift_error) result list \<times> 'h" where
  "asked H [] h = ([], h)"
| "asked H (sql # sqls) h = (case handle_query H sql h of (answer, h1) \<Rightarrow>
     (case asked H sqls h1 of (answers, h2) \<Rightarrow> (answer # answers, h2)))"

lemma prompt_asks_osquery:
  assumes "wire_protocol T E" and "ok_string E ''query''"
  shows "\<forall>l \<in> set ls. ok_string E l \<and> 1 < length l \<and> last l \<in> {CHR 0x0A, CHR 0x0D} \<Longrightarrow> asked H ls h = (answers, h') \<Longrightarrow>
    \<forall>a \<in> set answers. sendable_answer T E (wire_response E) a \<and> replied response_rows (seen T norm_response a) = Ok (rows a) \<Longrightarrow>
    prompt (osquery T H) debug ended (map (\<lambda>l. Line l False) ls) [] (resting_client h sq stream, printed)
      = (None, (resting_client h' (sq + of_nat (length ls)) stream, printed @ map (\<lambda>a. debug (rows a)) answers))"
proof (induction ls arbitrary: h sq printed answers)
  case (Cons l ls)
  obtain a h1 where a: "handle_query H l h = (a, h1)"
    by (cases "handle_query H l h")
  then obtain as where as: "answers = a # as" "asked H ls h1 = (as, h')"
    using Cons.prems(2) by (auto split: prod.splits)
  have "client_mgr_query (osquery T H) l (resting_client h sq stream) = (Ok (rows a), resting_client h1 (sq + 1) stream)"
    using wire_protocol.query_osquery [OF assms(1,2) _ a, of sq stream] Cons.prems(1,3) as(1) by simp
  moreover have "l \<noteq> []"
    using Cons.prems(1) by auto
  ultimately show ?case
    using Cons.IH [OF _ as(2), of "sq + 1" "printed @ [debug (rows a)]"] Cons.prems(1,3) as(1)
    by (simp add: Let_def add.assoc)
qed simp

lemma query_example_answered:
  assumes "wire_protocol T E" and "ok_string E ''query''" and "ok_string E ''SELECT * FROM users LIMIT 1''"
    and "handle_query H ''SELECT * FROM users LIMIT 1'' h = (answer, h')" and "sendable_answer T E (wire_response E) answer"
  shows "query_example (osquery T H) hang_up debug (Ok (resting_client h sq stream))
    = (map_ok (\<lambda>rows. ''Got results: '' @ debug rows) (replied response_rows (seen T norm_response answer)),
       Some (drop_client hang_up (resting_client h' (sq + 1) stream)))"
  by (simp add: query_example_def wire_protocol.query_osquery [OF assms])

text \<open>What the examples register, and some of what they answer.\<close>

lemma examples_register:
  "one_plugin (table_vtable L) (example_table target debug) = [(''table'', [(''example_table'', build_routes example_columns)])]"
  "one_plugin (writable_vtable L kv_table) kv_new = [(''table'', [(''kv_store'', build_routes kv_columns)])]"
  "one_plugin config_vtable example_config = [(''config'', [(''example_config'', [])])]"
  "one_plugin (logger_vtable L) example_logger = [(''logger'', [(''my_logger'', [])])]"
  "one_plugin (distributed_vtable L) (example_distributed debug') = [(''distributed'', [(''example_distributed'', [])])]"
  by (simp_all add: one_plugin_def table_vtable_def example_table_def table_plugin_new_def writable_vtable_def kv_table_def
    config_vtable_def example_config_def with_gen_pack_def new_config_plugin_def logger_vtable_def example_logger_def
    with_shutdown_def new_logger_plugin_def distributed_vtable_def example_distributed_def new_distributed_plugin_def)

lemma unknown_pack_refused:
  assumes "request_action req = Some ''genPack''" and "bt_get req ''name'' = Some name" and "bt_get req ''value'' = Some v"
    and "name \<notin> {''incident_response'', ''compliance''}"
  shows "config_call req example_config = (Err (error_context (Other (''unknown pack: '' @ name)) ''error generating pack''), example_config)"
  using assms by (simp add: config_call_def config_gen_pack_def example_config_def with_gen_pack_def new_config_plugin_def
    run_config_def generate_pack_def fail_def pack_reply_def pass_status_def)

lemma example_logger_prints:
  "fst (logger_call L [(''string'', text)] example_logger) = Ok []"
  "lg_state (snd (logger_call L [(''string'', text)] example_logger)) = [''string: '' @ text]"
  by (simp_all add: logger_call_def example_logger_def with_shutdown_def new_logger_plugin_def log_entry_def log_one_def
    log_string_def log_type_from_str_def seq_def bnd_def ret_def)

section \<open>Properties\<close>

text \<open>
  C7: an extension's life, as osquery sees it. A program that makes a server on osquery's
  socket, registers one plugin, runs it and drops it tells osquery its name and that
  plugin's routes. If osquery refuses, the program ends with that error, its context added.
  If osquery accepts, then whatever happens beside the run, and also when the listener's
  runtime cannot be created, all osquery gets from then on are pings and at most one
  deregistration of the uuid it gave, exactly one when the client's lock is free.
\<close>

theorem extension_lifetime:
  assumes "osquery_peer T E H"
    and "extension_ends (client_manager (osquery T H) hang_up) connect name V p env r (Some sv)"
    and "connect OSQUERY_SOCKET DEFAULT_TIMEOUT = Ok (resting_client h sq stream)"
    and "sendable E name None (one_plugin V p)" and "is_ok (ee_runtime env) \<or> is_err (ee_runtime env)"
    and "handle_register_extension H (norm_extension_info (registration_info name None)) (one_plugin V p) h = (answer, h1)"
  shows "case replied register_reply (seen T norm_status answer) of
      Ok uuid \<Rightarrow> (\<exists>h2 h3. pinged H h1 h2 \<and> osquery_at hang_up sv h3
        \<and> (if Deregistered uuid \<in> set (sv_trace sv) then pinged H (snd (handle_deregister_extension H uuid h2)) h3
           else h3 = h2 \<and> (le_busy (ee_run1 env) 0 \<or> le_busy (ee_drop1 env) 0)))
    | Err e \<Rightarrow> r = Err (error_context e ''registering extension'') \<and> osquery_at hang_up sv h1
    | _ \<Rightarrow> False"
  by (rule osquery_peer.extension_seen [OF assms])

text \<open>For the witness: the writable table's extension.\<close>

definition calm_env :: extension_env where
  "calm_env = \<lparr>ee_runtime = Ok (), ee_run1 = free_lock, ee_run2 = free_lock, ee_drop1 = free_lock, ee_drop2 = free_lock\<rparr>"

lemma kv_routes: "build_routes kv_columns =
    [[(''id'', ''column''), (''name'', ''key''), (''op'', ''1''), (''type'', ''TEXT'')],
     [(''id'', ''column''), (''name'', ''value''), (''op'', ''0''), (''type'', ''TEXT'')]]"
  by code_simp

lemma kv_one_plugin: "one_plugin (writable_vtable row_json kv_table) kv_new =
    [(''table'', [(''kv_store'', [[(''id'', ''column''), (''name'', ''key''), (''op'', ''1''), (''type'', ''TEXT'')],
       [(''id'', ''column''), (''name'', ''value''), (''op'', ''0''), (''type'', ''TEXT'')]])])]"
  by (simp add: one_plugin_def writable_vtable_def kv_table_def kv_routes)

lemma kv_extension_sendable:
  "sendable binary_enc ''writable_table_ext'' None (one_plugin (writable_vtable row_json kv_table) kv_new)"
  by (simp add: kv_one_plugin sendable_def wire_evaluation registration_info_def mk_extension_info_def)

theorem extension_lifetime_witness:
  "\<exists>sv h2 h3. extension_ends (client_manager (osquery (binary_thrift 8) noting_osquery) (\<lambda>_ c. c))
      (\<lambda>_ _. Ok (resting_client [] 0 (None :: unit option))) ''writable_table_ext'' (writable_vtable row_json kv_table) kv_new
      calm_env (Ok ()) (Some sv)
    \<and> pinged noting_osquery [''registerExtension''] h2
    \<and> pinged noting_osquery (h2 @ [''deregisterExtension'']) h3 \<and> osquery_at (\<lambda>_ c. c) sv h3"
proof -
  let ?connect = "\<lambda>_ _. Ok (resting_client [] 0 (None :: unit option))
      :: ((8 word chan \<times> (8 word list \<times> string list), unit) mgr_client, error) result"
    and ?V = "writable_vtable row_json kv_table"
  have c: "?connect OSQUERY_SOCKET DEFAULT_TIMEOUT = Ok (resting_client [] 0 None)"
    by simp
  have a: "handle_register_extension noting_osquery (norm_extension_info (registration_info ''writable_table_ext'' None))
      (one_plugin ?V kv_new) [] = (Ok (mk_status 0 ''OK'' (Some (I64 7))), [''registerExtension''])"
    by (simp add: noting_osquery_def)
  have u: "replied register_reply (seen (binary_thrift 8) norm_status (Ok (mk_status 0 ''OK'' (Some (I64 7))))) = Ok (I64 7)"
    by (simp add: replied_def register_reply_def norm_status_def mk_status_def or_default_def)
  have env: "ee_runtime calm_env = Ok ()" "ticks (ee_run1 calm_env)" "ticks (ee_run2 calm_env)"
    "\<not> le_busy (ee_run1 calm_env) 0" "\<not> le_busy (ee_drop1 calm_env) 0"
    by (simp_all add: calm_env_def free_lock_def ticks_def)
  obtain sv where x: "extension_ends (client_manager (osquery (binary_thrift 8) noting_osquery) (\<lambda>_ c. c)) ?connect
      ''writable_table_ext'' ?V kv_new calm_env (Ok ()) (Some sv)"
    using noting.interrupted_extension [OF c kv_extension_sendable env(1) a u env(2,3) writable.returning_shutdown_axioms] by blast
  have "is_ok (ee_runtime calm_env) \<or> is_err (ee_runtime calm_env)"
    by (simp add: env(1))
  note life = extension_lifetime [OF noting.osquery_peer_axioms x c kv_extension_sendable this a, unfolded u result.case]
  have "snd (handle_deregister_extension noting_osquery uuid h) = h @ [''deregisterExtension'']" for uuid h
    by (simp add: noting_osquery_def)
  then show ?thesis
    using life x env(4,5) by metis
qed

end
