(* ===== verification/AcceptLoop.thy ===== *)
theory AcceptLoop
  imports Listener
begin

text \<open>
  \<open>src/src/server/threaded.rs\<close>: the accept loops of \<open>listen_uds\<close> and \<open>listen_pipe\<close> as
  programs. What the two \<open>select!\<close>s yield, and what the spawned tasks do meanwhile, is a
  list of events; the loops compute the listener from it. Both reach exactly the states
  that the step relation of the theory \<open>Listener\<close> reaches.
\<close>

section \<open>The loops\<close>

datatype 'o listen_event =
    Bound "(unit, io_error) result"
  | PermitReady
  | Incoming 'o
  | StopSeen
  | StopCalled
  | TaskBegins
  | TaskReturns
  | TaskUnwinds
  | RuntimeDropped

text \<open>
  Binding ends with an error or enters the loop; in it the first \<open>select!\<close> takes a permit, the
  second an outcome of accepting, and both see a stop. An event that the loop or its tasks
  are not waiting for changes nothing.
\<close>

fun loop_event :: "('o \<Rightarrow> listener \<Rightarrow> listener) \<Rightarrow> 'o listen_event \<Rightarrow> listener \<Rightarrow> listener" where
  "loop_event accept (Bound r) l =
     (if l_phase l = Binding
      then (case r of Ok u \<Rightarrow> l\<lparr>l_phase := AwaitPermit\<rparr> | Err e \<Rightarrow> l\<lparr>l_phase := Stopped (Err e)\<rparr> | _ \<Rightarrow> l)
      else l)"
| "loop_event accept PermitReady l =
     (if l_phase l = AwaitPermit \<and> 0 < l_permits l
      then l\<lparr>l_phase := AwaitAccept, l_permits := l_permits l - 1\<rparr> else l)"
| "loop_event accept (Incoming outcome) l = (if l_phase l = AwaitAccept then accept outcome l else l)"
| "loop_event accept StopSeen l =
     (if \<not> l_stop l then l
      else (case l_phase l of
          AwaitPermit \<Rightarrow> l\<lparr>l_phase := Stopped (Ok ())\<rparr>
        | AwaitAccept \<Rightarrow> l\<lparr>l_phase := Stopped (Ok ()), l_permits := l_permits l + 1\<rparr>
        | _ \<Rightarrow> l))"
| "loop_event accept StopCalled l = stop_handle_stop l"
| "loop_event accept TaskBegins l =
     (if 0 < l_spawned l
      then l\<lparr>l_spawned := l_spawned l - 1, l_serving := l_serving l + 1, l_active := l_active l + 1\<rparr> else l)"
| "loop_event accept TaskReturns l =
     (if 0 < l_serving l
      then l\<lparr>l_serving := l_serving l - 1, l_active := l_active l - 1, l_permits := l_permits l + 1\<rparr> else l)"
| "loop_event accept TaskUnwinds l =
     (if 0 < l_serving l
      then l\<lparr>l_serving := l_serving l - 1, l_permits := l_permits l + 1, l_lost := l_lost l + 1\<rparr> else l)"
| "loop_event accept RuntimeDropped l =
     (case l_phase l of
        Stopped r \<Rightarrow> l\<lparr>l_spawned := 0, l_serving := 0, l_permits := l_permits l + l_spawned l + l_serving l,
          l_lost := l_lost l + l_serving l\<rparr>
      | _ \<Rightarrow> l)"

definition listen_uds :: "(unit, io_error) result listen_event list \<Rightarrow> listener \<Rightarrow> listener" where
  "listen_uds = fold (loop_event uds_accept)"

definition listen_pipe ::
  "((unit, io_error) result \<times> (unit, io_error) result) listen_event list \<Rightarrow> listener \<Rightarrow> listener" where
  "listen_pipe = fold (loop_event (\<lambda>(connected, next). pipe_accept connected next))"

section \<open>What an accept arm does\<close>

text \<open>An arm hands the connection to a task or ends the loop, and can do both.\<close>

locale accept_arm =
  fixes accept :: "'o \<Rightarrow> listener \<Rightarrow> listener"
  assumes arms: "accept x l = l \<or> accept x l = handle_accepted l \<or> (\<exists>e. accept x l = accept_failed e l)"
    and accepts: "\<exists>x. accept x = handle_accepted"
    and fails: "\<exists>x. accept x = accept_failed e"
begin

lemma event_is_step: "loop_event accept ev l = l \<or> listen_step l (loop_event accept ev l)"
proof (cases ev)
  case (Bound r)
  then show ?thesis
    by (cases r) (auto intro: listen_step.intros)
next
  case (Incoming x)
  show ?thesis
  proof (cases "l_phase l = AwaitAccept")
    case True
    from arms [of x l] show ?thesis
      by (elim disjE exE) (simp_all add: Incoming True listen_step.accept [OF True] listen_step.accept_error [OF True])
  qed (simp add: Incoming)
next
  case StopSeen
  then show ?thesis
    by (cases "l_phase l") (auto intro: listen_step.intros [simplified])
next
  case RuntimeDropped
  then show ?thesis
    by (cases "l_phase l") (auto intro: listen_step.intros)
qed (auto intro: listen_step.intros [simplified])

lemma step_is_event:
  assumes "listen_step l l'"
  shows "\<exists>ev. loop_event accept ev l = l'"
  using assms
proof (cases rule: listen_step.cases)
  case bind
  then show ?thesis by (intro exI [of _ "Bound (Ok ())"]) simp
next
  case (bind_error e)
  then show ?thesis by (intro exI [of _ "Bound (Err e)"]) simp
next
  case acquire
  then show ?thesis by (intro exI [of _ PermitReady]) simp
next
  case stop_waiting
  then show ?thesis by (intro exI [of _ StopSeen]) simp
next
  case accept
  obtain x where "accept x = handle_accepted" using accepts by blast
  with accept show ?thesis by (intro exI [of _ "Incoming x"]) simp
next
  case (accept_error e)
  obtain x where "accept x = accept_failed e" using fails by blast
  with accept_error show ?thesis by (intro exI [of _ "Incoming x"]) simp
next
  case stop_accepting
  then show ?thesis by (intro exI [of _ StopSeen]) simp
next
  case begin_serving
  then show ?thesis by (intro exI [of _ TaskBegins]) simp
next
  case end_serving
  then show ?thesis by (intro exI [of _ TaskReturns]) simp
next
  case unwind
  then show ?thesis by (intro exI [of _ TaskUnwinds]) simp
next
  case (abort r)
  then show ?thesis by (intro exI [of _ RuntimeDropped]) simp
next
  case stop
  then show ?thesis by (intro exI [of _ StopCalled]) simp
qed

lemma events_are_steps: "listen_step\<^sup>*\<^sup>* l (fold (loop_event accept) evs l)"
proof (induction evs arbitrary: l)
  case (Cons ev evs)
  have "listen_step\<^sup>*\<^sup>* l (loop_event accept ev l)"
    using event_is_step [of ev l] by (metis r_into_rtranclp rtranclp.rtrancl_refl)
  then show ?case
    using Cons.IH [of "loop_event accept ev l"] by (metis fold_simps(2) rtranclp_trans)
qed simp

lemma steps_are_events: "listen_step\<^sup>*\<^sup>* l l' \<Longrightarrow> \<exists>evs. fold (loop_event accept) evs l = l'"
proof (induction rule: rtranclp.induct)
  case (rtrancl_refl l)
  show ?case by (rule exI [of _ "[]"]) simp
next
  case (rtrancl_into_rtrancl l l1 l2)
  obtain evs where "fold (loop_event accept) evs l = l1"
    using rtrancl_into_rtrancl.IH by blast
  moreover obtain ev where "loop_event accept ev l1 = l2"
    using step_is_event [OF rtrancl_into_rtrancl.hyps(2)] by blast
  ultimately show ?case
    by (intro exI [of _ "evs @ [ev]"]) simp
qed

lemma loop_reaches: "(\<exists>evs. fold (loop_event accept) evs l = l') \<longleftrightarrow> listen_step\<^sup>*\<^sup>* l l'"
  using events_are_steps steps_are_events by metis

end

interpretation uds: accept_arm uds_accept
proof
  fix x l
  show "uds_accept x l = l \<or> uds_accept x l = handle_accepted l \<or> (\<exists>e. uds_accept x l = accept_failed e l)"
    by (cases x) auto
qed (auto intro: exI [of _ "Ok ()"] exI [of _ "Err e" for e] simp: fun_eq_iff)

interpretation pipe: accept_arm "\<lambda>(connected, next). pipe_accept connected next"
proof
  fix x l
  show "(\<lambda>(connected, next). pipe_accept connected next) x l = l
      \<or> (\<lambda>(connected, next). pipe_accept connected next) x l = handle_accepted l
      \<or> (\<exists>e. (\<lambda>(connected, next). pipe_accept connected next) x l = accept_failed e l)"
    by (cases x; cases "fst x"; cases "snd x") auto
next
  show "\<exists>x. (\<lambda>(connected, next). pipe_accept connected next) x = handle_accepted"
    by (rule exI [of _ "(Ok (), Ok ())"]) (simp add: fun_eq_iff)
next
  fix e
  show "\<exists>x. (\<lambda>(connected, next). pipe_accept connected next) x = accept_failed e"
    by (rule exI [of _ "(Err e, Ok ())"]) (simp add: fun_eq_iff)
qed

section \<open>Properties\<close>


end
