(* ===== verification/PluginHistory.thy ===== *)
theory PluginHistory
  imports ServerRun KvStore Config
begin

text \<open>
  A run as one of its plugins sees it. The plugins share the registry, the server and its
  threads, yet all that happens to one of them, whatever the threads do and in whatever
  order, is a sequence of its own operations, each under its lock: its calls and, at most
  once, its shutdown. Hence what a plugin's own operations keep, every run keeps: the locale
  \<open>plugin_invariant\<close>, with the key-value store and the configuration plugin as instances.
\<close>

section \<open>The operations of one plugin\<close>

datatype plugin_op = Asked plugin_request | ToldToStop

fun cell_op :: "'p plugin \<Rightarrow> plugin_op \<Rightarrow> 'p cell \<Rightarrow> 'p cell" where
  "cell_op V (Asked request) c = snd (call_locked V request c)"
| "cell_op V ToldToStop c = snd (shutdown_cell V c)"

lemma cell_op_poisoned [simp]: "ce_poisoned c \<Longrightarrow> cell_op V a c = c"
  by (cases a) (simp_all add: call_locked_def shutdown_cell_def)

lemma cell_ops_poisoned: "ce_poisoned c \<Longrightarrow> fold (cell_op V) ops c = c"
  by (induction ops) simp_all

text \<open>
  From \<open>sv\<close> to \<open>sv'\<close> exactly \<open>ops\<close> happened to the plugin \<open>n\<close> of the registry \<open>r\<close>; the
  shutdowns among them are those in the trace.
\<close>

definition plugin_history ::
  "'p plugin \<Rightarrow> registry_name \<Rightarrow> string \<Rightarrow> ('k, 'p) server \<Rightarrow> ('k, 'p) server \<Rightarrow> plugin_op list \<Rightarrow> bool" where
  "plugin_history V r n sv sv' ops \<longleftrightarrow>
     lookup_cell (sv_registry sv') r n = map_option (fold (cell_op V) ops) (lookup_cell (sv_registry sv) r n)
     \<and> (\<exists>t. sv_trace sv' = sv_trace sv @ t \<and> count_list t (PluginShutdown r n) = count_list ops ToldToStop)"

lemma plugin_history_none:
  "(\<And>r n. lookup_cell (sv_registry sv') r n = lookup_cell (sv_registry sv) r n) \<Longrightarrow> sv_trace sv' = sv_trace sv @ t \<Longrightarrow>
    PluginShutdown r n \<notin> set t \<Longrightarrow> plugin_history V r n sv sv' []"
  by (simp add: plugin_history_def id_def option.map_ident)

lemma plugin_history_refl: "plugin_history V r n sv sv []"
  by (simp add: plugin_history_none [where t = "[]"])

lemma no_history:
  "(\<And>r n. lookup_cell (sv_registry sv') r n = lookup_cell (sv_registry sv) r n) \<Longrightarrow> sv_trace sv' = sv_trace sv @ t \<Longrightarrow>
    PluginShutdown r n \<notin> set t \<Longrightarrow> \<exists>ops. plugin_history V r n sv sv' ops"
  by (rule exI, rule plugin_history_none)

lemmas untouched = no_history [where t = "[]"]

lemma plugin_history_trans:
  "plugin_history V r n sv sv1 ops \<Longrightarrow> plugin_history V r n sv1 sv2 ops' \<Longrightarrow> plugin_history V r n sv sv2 (ops @ ops')"
  by (auto simp: plugin_history_def option.map_comp comp_def)

text \<open>One operation on a plugin of the registry is one on that plugin and none on the others.\<close>

lemma plugin_history_set_cell:
  assumes "lookup_cell (sv_registry sv) r0 n0 = Some c"
    and "sv_registry sv' = set_cell r0 n0 (cell_op V a c) (sv_registry sv)"
    and "sv_trace sv' = sv_trace sv @ (if a = ToldToStop then [PluginShutdown r0 n0] else [])"
  shows "plugin_history V r n sv sv' (if (r, n) = (r0, n0) then [a] else [])"
  using assms by (auto simp: plugin_history_def lookup_cell_set_cell id_def option.map_ident)

section \<open>The threads beside the run\<close>

lemma missed_call:
  assumes "registry \<notin> range registry_name_display \<or> rg_poisoned (hs_registry hs)"
  shows "\<exists>resp. ext_handle_call V registry item request hs = (resp, hs)"
proof (cases "registry \<in> range registry_name_display")
  case True
  then show ?thesis
    using assms by (auto simp: ext_handle_call_def registry_name_round_trip)
qed (simp add: ext_handle_call_unknown_registry)

lemma call_history: "\<exists>ops. plugin_history V r n sv (on_handler (ext_handle_call V registry item request) sv) ops"
proof -
  let ?hs = "\<lparr>hs_registry = sv_registry sv, hs_channel = sv_channel sv\<rparr>"
    and ?sv' = "on_handler (ext_handle_call V registry item request) sv"
  consider (missed) resp where "ext_handle_call V registry item request ?hs = (resp, ?hs)"
    | (reached) r0 c where "registry = registry_name_display r0" "\<not> rg_poisoned (sv_registry sv)"
      "lookup_cell (sv_registry sv) r0 item = Some c"
  proof (cases "registry \<in> range registry_name_display \<and> \<not> rg_poisoned (sv_registry sv)")
    case True
    then obtain r0 where r0: "registry = registry_name_display r0" "\<not> rg_poisoned (sv_registry sv)"
      by auto
    show thesis
    proof (cases "lookup_cell (sv_registry sv) r0 item")
      case None
      with r0 have "\<exists>msg. ext_handle_call V registry item request ?hs = (Ok (failure_response msg), ?hs)"
        by (simp add: ext_handle_call_missing)
      then show thesis
        using missed by blast
    qed (use r0 reached in blast)
  next
    case False
    then have "\<exists>resp. ext_handle_call V registry item request ?hs = (resp, ?hs)"
      by (intro missed_call) simp
    then show thesis
      using missed by blast
  qed
  then show ?thesis
  proof cases
    case missed
    then show ?thesis
      by (intro untouched) (simp_all add: on_handler_def)
  next
    case reached
    have e: "ext_handle_call V registry item request ?hs =
        (case call_locked V request c of (resp, c') \<Rightarrow> (resp, ?hs\<lparr>hs_registry := set_cell r0 item c' (sv_registry sv)\<rparr>))"
      using ext_handle_call_found [of ?hs r0 item c V request] reached by simp
    show ?thesis
      by (rule exI, rule plugin_history_set_cell [where a = "Asked request", OF reached(3)])
        (simp_all add: e on_handler_def split: prod.split)
  qed
qed

lemma others_step_history:
  "others_step EM V s s' \<Longrightarrow> \<exists>ops. plugin_history V r n (fst s) (fst s') ops"
proof (induction rule: others_step.induct)
  case (osquery_call sv w registry item request)
  then show ?case
    using call_history by simp
next
  case (osquery_shutdown sv w)
  have "on_handler ext_handle_shutdown sv = sv\<lparr>sv_channel := snd (channel_send None (sv_channel sv))\<rparr>"
    by (simp add: on_handler_def ext_handle_shutdown_def case_prod_unfold)
  then show ?case
    by (intro untouched) simp_all
next
  case (ping sv)
  then show ?case
    using same_frame_ping_round [of sv EM]
    by (intro untouched) (simp_all add: ping_round_registry same_frame_def)
qed (rule untouched, simp_all add: send_signal_def)+

lemma others_history:
  assumes "others EM V s s'"
  shows "\<exists>ops. plugin_history V r n (fst s) (fst s') ops \<and> count_list ops ToldToStop = 0"
proof -
  have "\<exists>ops. plugin_history V r n (fst s) (fst s') ops"
    using assms
    by (induction rule: others.induct) (blast intro: plugin_history_refl plugin_history_trans dest: others_step_history)+
  then show ?thesis
    using others_frame [OF assms] by (auto simp: plugin_history_def same_frame_def)
qed

lemma others_registry_ok: "others EM V s s' \<Longrightarrow> registry_ok (sv_registry (fst s)) \<Longrightarrow> registry_ok (sv_registry (fst s'))"
  by (induction rule: others.induct) (blast dest: others_step_registry)+

lemma others_poisoned: "others EM V s s' \<Longrightarrow> rg_poisoned (sv_registry (fst s')) = rg_poisoned (sv_registry (fst s))"
  by (induction rule: others.induct) (simp_all add: others_step_kept)

section \<open>The shutdown\<close>

lemma count_list_subseq: "subseq xs ys \<Longrightarrow> count_list xs x \<le> count_list ys x"
  by (induction rule: list_emb.induct) auto

lemma shutdown_plugin_history:
  assumes "shutdown_plugin V rn sv = (res, sv')"
  shows "\<exists>ops. plugin_history V r n sv sv' ops"
proof (cases "lookup_cell (sv_registry sv) (fst rn) (snd rn)")
  case (Some c)
  show ?thesis
  proof (cases "ce_poisoned c")
    case True
    then have "sv' = sv\<lparr>sv_registry := set_cell (fst rn) (snd rn) c (sv_registry sv)\<rparr>"
      using assms Some by (simp add: shutdown_plugin_def shutdown_cell_def)
    then show ?thesis
      using Some by (intro untouched) (simp_all add: lookup_cell_set_cell)
  next
    case False
    then show ?thesis
      using assms Some plugin_history_set_cell [OF Some, of sv' V ToldToStop r n]
      by (fastforce simp: shutdown_plugin_def split: prod.splits)
  qed
qed (use assms in \<open>auto simp: shutdown_plugin_def intro: untouched\<close>)

lemma leave_registry_history:
  "\<exists>ops. plugin_history V r n sv sv1 ops \<Longrightarrow> \<exists>ops. plugin_history V r n sv (leave_registry res sv1) ops"
  by (cases res) (simp_all add: plugin_history_def lookup_cell_def plugins_of_def)

text \<open>Every other phase of the shutdown keeps the registry and adds its own effects.\<close>

lemma teardown_step_history:
  assumes "teardown_step EM V env1 env2 pc sv = (pc', sv')"
  shows "\<exists>ops. plugin_history V r n sv sv' ops"
proof (cases pc)
  case (Deregistering uuid)
  then obtain res where d: "deregister_step EM env1 uuid sv = (res, sv')"
    using assms by (auto split: prod.splits result.splits)
  obtain t where "t \<in> {[], [Deregistered uuid]}" "sv_trace sv' = sv_trace sv @ t"
    using deregister_step_effect [OF d] by blast
  with deregister_step_keeps [OF d] show ?thesis
    by (intro no_history [where t = t]) auto
next
  case StoppingListener
  then show ?thesis
    using assms by (intro no_history [where t = "if sv_stop_handle sv then [ListenerStopped] else []"])
      (auto simp: stop_listener_step_def)
next
  case (TellingPlugins rns)
  show ?thesis
  proof (cases rns)
    case (Cons rn rns')
    obtain res sv1 where m: "shutdown_plugin V rn sv = (res, sv1)"
      by (cases "shutdown_plugin V rn sv")
    then have "sv' = leave_registry res sv1"
      using assms by (cases res) (simp_all add: TellingPlugins Cons)
    then show ?thesis
      using leave_registry_history [OF shutdown_plugin_history [OF m]] by simp
  qed (use assms TellingPlugins in \<open>auto intro: untouched\<close>)
next
  case ClosingClient
  then have "\<exists>t. sv_trace sv' = sv_trace sv @ t \<and> set t \<subseteq> {ClientClosed}" "sv_registry sv' = sv_registry sv"
    using assms by (auto simp: close_client_step_def split: prod.splits if_splits lock_outcome.splits option.splits)
  then show ?thesis
    by (auto intro: no_history)
qed (use assms in \<open>auto intro: untouched split: if_splits\<close>)

lemma teardown_history:
  "teardown EM V env1 env2 s pc s' pc' \<Longrightarrow> \<exists>ops. plugin_history V r n (fst s) (fst s') ops"
proof (induction rule: teardown.induct)
  case (own s pc sv w pc1 pc2 sv')
  then show ?case
    using teardown_step_history [OF own.hyps(2)] plugin_history_trans by fastforce
qed (blast intro: plugin_history_refl plugin_history_trans dest: others_step_history)+

text \<open>Only a panic poisons the registry, and then the shutdown ends with it.\<close>

lemma teardown_step_poisoned:
  assumes "teardown_step EM V env1 env2 pc sv = (pc', sv')"
  shows "rg_poisoned (sv_registry sv') = rg_poisoned (sv_registry sv) \<or> (\<exists>m. pc' = TornDown (Panic m))"
proof (cases pc)
  case (TellingPlugins rns)
  show ?thesis
  proof (cases rns)
    case (Cons rn rns')
    obtain res sv1 where m: "shutdown_plugin V rn sv = (res, sv1)"
      by (cases "shutdown_plugin V rn sv")
    then show ?thesis
      using assms shutdown_plugin_told(2) [of V "fst rn" "snd rn" sv res sv1]
      by (cases res) (auto simp: TellingPlugins Cons)
  qed (use assms TellingPlugins in auto)
qed (use assms in \<open>auto dest!: deregister_step_keeps close_client_step_keeps split: prod.splits result.splits if_splits\<close>)

lemma teardown_poisoned:
  "teardown EM V env1 env2 s pc s' pc' \<Longrightarrow> \<forall>m. pc' \<noteq> TornDown (Panic m) \<Longrightarrow>
    rg_poisoned (sv_registry (fst s')) = rg_poisoned (sv_registry (fst s))"
proof (induction rule: teardown.induct)
  case (own s pc sv w pc1 pc2 sv')
  then have "\<forall>m. pc1 \<noteq> TornDown (Panic m)"
    by auto
  then show ?case
    using own teardown_step_poisoned [OF own.hyps(2)] by auto
qed (simp_all add: others_step_kept)

text \<open>A shutdown tells each plugin at most once, and if it returns each whose lock is intact.\<close>

lemma shutdown_beside_history:
  assumes "shutdown_beside EM V env1 env2 (sv, w) res s'" and "registry_ok (sv_registry sv)"
  shows "\<exists>ops. plugin_history V r n sv (fst s') ops \<and> count_list ops ToldToStop \<le> 1
    \<and> (sv_uuid sv \<noteq> None \<and> is_ok res \<and> \<not> rg_poisoned (sv_registry sv) \<longrightarrow>
        (\<forall>c. lookup_cell (sv_registry (fst s')) r n = Some c \<longrightarrow> ToldToStop \<in> set ops \<or> ce_poisoned c))"
  using assms(1)
proof (rule shutdown_besideE)
  assume "s' = (sv, w)" "sv_uuid sv = None"
  then show ?thesis
    using plugin_history_refl by (intro exI [of _ "[]"]) simp
next
  fix uuid
  assume registered: "sv_uuid sv = Some uuid"
    "teardown EM V env1 env2 (sv\<lparr>sv_uuid := None\<rparr>, w) (Deregistering uuid) s' (TornDown res)"
  let ?sv = "sv\<lparr>sv_uuid := None\<rparr>" and ?e = "PluginShutdown r n"
  obtain ops where ops: "plugin_history V r n sv (fst s') ops"
    using teardown_history [OF registered(2), of r n] by (auto simp: plugin_history_def)
  have "torn ?sv uuid ?sv (Deregistering uuid)" "torn_frame ?sv ?sv (Deregistering uuid)"
    by (simp_all add: torn_def torn_frame_def)
  with teardown_torn [OF registered(2)] have torn: "torn ?sv uuid (fst s') (TornDown res)"
    and keys: "plugin_keys (sv_registry (fst s')) = plugin_keys (sv_registry sv)"
    by (simp_all add: torn_frame_def)
  from torn obtain d l p c where t: "sv_trace (fst s') = sv_trace sv @ d @ l @ p @ c" "d \<in> {[], [Deregistered uuid]}"
    "l \<in> {[], [ListenerStopped]}" "subseq p (shutdown_effects (plugin_keys (sv_registry sv)))" "c \<in> {[], [ClientClosed]}"
    and at: "torn_point ?sv uuid (sv_registry (fst s')) d l p c (TornDown res)"
    unfolding torn_def by (simp del: torn_point.simps) blast
  have told: "count_list ops ToldToStop = count_list p ?e"
    using ops t(1-3,5) by (auto simp: plugin_history_def)
  have "distinct (shutdown_effects (plugin_keys (sv_registry sv)))"
    using distinct_plugin_keys [OF assms(2)] by (auto simp: distinct_map intro: inj_onI)
  then have "count_list p ?e \<le> 1"
    using count_list_subseq [OF t(4), of ?e] distinct_count_list [of _ ?e] le_trans by blast
  moreover have "ToldToStop \<in> set ops \<or> ce_poisoned cell"
    if "is_ok res" "\<not> rg_poisoned (sv_registry sv)" "lookup_cell (sv_registry (fst s')) r n = Some cell" for cell
  proof -
    have "(r, n) \<in> set (plugin_keys (sv_registry sv))"
      using that(3) keys by (metis lookup_plugin_keys)
    moreover have "\<not> rg_poisoned (sv_registry (fst s'))"
      using teardown_poisoned [OF registered(2)] that(1,2) by (cases res) auto
    ultimately have "?e \<in> set p \<or> ce_poisoned cell"
      using at that by (auto simp: told_def)
    then show ?thesis
      using told by (metis count_list_0_iff)
  qed
  ultimately show ?thesis
    using ops told registered(1) by (intro exI [of _ ops]) simp
qed

section \<open>The run\<close>

lemma register_extension_history:
  assumes "register_extension EM V sv = (res, sv')"
  shows "sv_registry sv' = sv_registry sv \<and> sv_trace sv' = sv_trace sv"
  using assms by (auto simp: register_extension_def split: if_splits prod.splits result.splits option.splits)

lemma begin_run_history:
  assumes "begin_run EM V rt sv = (res, sv')"
  shows "sv_registry sv' = sv_registry sv \<and> sv_trace sv' = sv_trace sv"
proof -
  obtain res1 sv1 where m: "register_extension EM V (sv\<lparr>sv_rx := False\<rparr>) = (res1, sv1)"
    by (cases "register_extension EM V (sv\<lparr>sv_rx := False\<rparr>)")
  then show ?thesis
    using assms register_extension_history [OF m]
    by (cases res1; cases rt) (auto simp: begin_run_def start_def bnd_def split: if_splits option.splits)
qed

text \<open>A run is a start, steps of the others, a shutdown and more steps; none but the shutdown tells a plugin.\<close>

lemma run_history:
  assumes "runs EM V rt env1 env2 sv res sv'" and "registry_ok (sv_registry sv)"
  shows "\<exists>ops. lookup_cell (sv_registry sv') r n = map_option (fold (cell_op V) ops) (lookup_cell (sv_registry sv) r n)
    \<and> count_list ops ToldToStop \<le> 1
    \<and> (res = Ok () \<and> \<not> rg_poisoned (sv_registry sv) \<longrightarrow>
        (\<forall>c. lookup_cell (sv_registry sv') r n = Some c \<longrightarrow> ToldToStop \<in> set ops \<or> ce_poisoned c))"
  using assms(1)
proof (rule runsE)
  assume "begin_run EM V rt sv = (res, sv')" "\<not> is_ok res"
  then show ?thesis
    using begin_run_history [of EM V rt sv res sv'] by (intro exI [of _ "[]"]) (auto simp: id_def option.map_ident)
next
  fix sv1 sv2 w signal ended sv3 w3 sv4 w4
  assume b: "begin_run EM V rt sv = (Ok (), sv1)" and o: "others EM V (sv1, True) (sv2, w)"
    and d: "shutdown_beside EM V env1 env2 (receive_signal sv2, w) ended (sv3, w3)"
    and o4: "others EM V (sv3, w3) (sv4, w4)" and f: "finish_run ended signal sv4 = (res, sv')"
  note reg = begin_run_history [OF b]
  obtain uuid where "sv_uuid sv1 = Some uuid"
    by (rule begin_run_Ok [OF b])
  then have uuid: "sv_uuid (receive_signal sv2) \<noteq> None"
    using others_frame [OF o] by (simp add: same_frame_def receive_signal_def)
  have ok: "registry_ok (sv_registry (receive_signal sv2))"
    using others_registry_ok [OF o] assms(2) reg by (simp add: receive_signal_def)
  have poisoned: "rg_poisoned (sv_registry (receive_signal sv2)) = rg_poisoned (sv_registry sv)"
    using others_poisoned [OF o] reg by (simp add: receive_signal_def)
  obtain ops1 where 1: "plugin_history V r n sv1 sv2 ops1" "count_list ops1 ToldToStop = 0"
    using others_history [OF o] by auto
  obtain ops2 where 2: "plugin_history V r n (receive_signal sv2) sv3 ops2" "count_list ops2 ToldToStop \<le> 1"
    and told: "is_ok ended \<and> \<not> rg_poisoned (sv_registry sv) \<longrightarrow>
      (\<forall>c. lookup_cell (sv_registry sv3) r n = Some c \<longrightarrow> ToldToStop \<in> set ops2 \<or> ce_poisoned c)"
    using shutdown_beside_history [OF d ok, of r n] uuid poisoned by auto
  obtain ops3 where 3: "plugin_history V r n sv3 sv4 ops3" "count_list ops3 ToldToStop = 0"
    using others_history [OF o4] by auto
  have sv': "sv_registry sv' = sv_registry sv4" "res = Ok () \<longrightarrow> is_ok ended"
    using f by (cases ended; auto simp: finish_run_def)+
  show ?thesis
  proof (intro exI [of _ "ops1 @ ops2 @ ops3"] conjI impI allI)
    show "lookup_cell (sv_registry sv') r n = map_option (fold (cell_op V) (ops1 @ ops2 @ ops3)) (lookup_cell (sv_registry sv) r n)"
      using 1(1) 2(1) 3(1) by (simp add: plugin_history_def receive_signal_def sv' reg option.map_comp comp_def)
    show "count_list (ops1 @ ops2 @ ops3) ToldToStop \<le> 1"
      using 1(2) 2(2) 3(2) by simp
    fix c assume "res = Ok () \<and> \<not> rg_poisoned (sv_registry sv)" "lookup_cell (sv_registry sv') r n = Some c"
    moreover from this obtain c3 where "lookup_cell (sv_registry sv3) r n = Some c3" "c = fold (cell_op V) ops3 c3"
      using 3(1) by (auto simp: plugin_history_def sv' dest: sym [of "Some c"])
    ultimately show "ToldToStop \<in> set (ops1 @ ops2 @ ops3) \<or> ce_poisoned c"
      using told sv'(2) cell_ops_poisoned [of c3 V ops3] by auto
  qed
qed

section \<open>What the operations of a plugin keep\<close>

locale plugin_invariant =
  fixes V :: "'p plugin" and I :: "'p \<Rightarrow> bool"
  assumes calls_keep: "I p \<Longrightarrow> I (snd (pl_call V request p))"
    and shutdown_keeps: "I p \<Longrightarrow> I (snd (pl_shutdown V p))"
begin

lemma cell_op_keeps: "I (ce_plugin c) \<Longrightarrow> I (ce_plugin (cell_op V a c))"
  using calls_keep [of "ce_plugin c"] shutdown_keeps [of "ce_plugin c"]
  by (cases a) (auto simp: call_locked_def shutdown_cell_def case_prod_unfold split: result.split prod.split)

lemma cell_ops_keep: "I (ce_plugin c) \<Longrightarrow> I (ce_plugin (fold (cell_op V) ops c))"
  by (induction ops arbitrary: c) (simp_all add: cell_op_keeps)

lemma run_keeps:
  assumes "runs EM V rt env1 env2 sv res sv'" and "registry_ok (sv_registry sv)"
    and "\<And>c. lookup_cell (sv_registry sv) r n = Some c \<Longrightarrow> I (ce_plugin c)"
    and "lookup_cell (sv_registry sv') r n = Some c'"
  shows "I (ce_plugin c')"
  using run_history [OF assms(1,2), of r n] assms(3,4) cell_ops_keep by force

end

lemma writable_call_keeps:
  assumes "I t" and "\<And>ctx t. I t \<Longrightarrow> I (snd (wt_generate W ctx t))" and "\<And>q t. I t \<Longrightarrow> I (snd (wt_insert W q t))"
    and "\<And>q t. I t \<Longrightarrow> I (snd (wt_update W q t))" and "\<And>q t. I t \<Longrightarrow> I (snd (wt_delete W q t))"
  shows "I (snd (writable_call L W request t))"
  using assms
  by (simp add: writable_call_def table_handle_generate_def table_handle_insert_def table_handle_update_def
    table_handle_delete_def run_mutation_def case_prod_unfold split: option.split result.split)

interpretation kv_intact: plugin_invariant "writable_vtable L kv_table" bt_wf for L
proof unfold_locales
  fix request and t :: kv_store
  assume "bt_wf t"
  then have "bt_wf (snd (writable_call L kv_table request t))"
    by (rule writable_call_keeps) (simp_all add: kv_table_def kv_generate_def kv_insert_def kv_update_def kv_delete_def Let_def)
  then show "bt_wf (snd (pl_call (writable_vtable L kv_table) request t))"
    by (simp add: writable_vtable_def)
qed (simp add: writable_vtable_def ret_def)

interpretation config_fixed: plugin_invariant config_vtable
  "\<lambda>p. cf_name p = name \<and> cf_generate p = generate \<and> cf_gen_pack p = gen_pack" for name generate gen_pack
  by unfold_locales (auto simp: config_vtable_def ret_def config_call_def config_gen_pack_def run_config_def
    split: option.split prod.split)

text \<open>
  So the store a run leaves is one its requests were served from as a map: its rows are still
  kept by id.
\<close>

lemma stores_of_a_run:
  assumes "runs EM (writable_vtable L kv_table) rt env1 env2 sv res sv'" and "registry_ok (sv_registry sv)"
    and "\<forall>n c. lookup_cell (sv_registry sv) RTable n = Some c \<longrightarrow> bt_wf (ce_plugin c)"
    and "lookup_cell (sv_registry sv') RTable n = Some c'"
  shows "kv_generate ctx (ce_plugin c')
    = (Ok (map (\<lambda>i. kv_show_row (the (bt_get (ce_plugin c') i))) (sorted_list_of_set (dom (bt_get (ce_plugin c'))))), ce_plugin c')"
proof -
  have "bt_wf (ce_plugin c')"
    using kv_intact.run_keeps [OF assms(1,2) _ assms(4)] assms(3) by blast
  then show ?thesis
    by (simp add: kv_generate_def bt_values_by_key comp_def)
qed

section \<open>Properties\<close>

text \<open>
  C11: all that happens to a plugin in a run are its own operations. However osquery's calls,
  the ping watcher, the listener, the signal thread and the run itself interleave, the state a
  run leaves a plugin in is the one its own calls and shutdown make of it, one after the other,
  each begun under its intact lock; it was told to shut down at most once, and when the run
  returned success exactly once, unless a panic had poisoned its lock before.
\<close>

theorem run_serializes_plugins:
  assumes "runs EM V rt env1 env2 sv res sv'" and "registry_ok (sv_registry sv)" and "\<not> rg_poisoned (sv_registry sv)"
  shows "\<exists>ops. lookup_cell (sv_registry sv') r n = map_option (fold (cell_op V) ops) (lookup_cell (sv_registry sv) r n)
    \<and> count_list ops ToldToStop \<le> 1
    \<and> (\<forall>c. res = Ok () \<and> lookup_cell (sv_registry sv') r n = Some c \<longrightarrow>
        count_list ops ToldToStop = 1 \<or> ce_poisoned c)"
proof -
  obtain ops where ops: "lookup_cell (sv_registry sv') r n = map_option (fold (cell_op V) ops) (lookup_cell (sv_registry sv) r n)"
    "count_list ops ToldToStop \<le> 1"
    and told: "res = Ok () \<longrightarrow> (\<forall>c. lookup_cell (sv_registry sv') r n = Some c \<longrightarrow> ToldToStop \<in> set ops \<or> ce_poisoned c)"
    using run_history [OF assms(1,2), of r n] assms(3) by auto
  have "count_list ops ToldToStop = 1" if "ToldToStop \<in> set ops"
    using that ops(2) count_list_0_iff [of ops ToldToStop] by linarith
  with ops told show ?thesis
    by blast
qed

interpretation notes_shutdown: returning_shutdown noting_plugin
  by unfold_locales (simp add: noting_plugin_def)

lemma noting_never_poisoned: "\<not> ce_poisoned c \<Longrightarrow> \<not> ce_poisoned (fold (cell_op noting_plugin) ops c)"
proof (induction ops arbitrary: c)
  case (Cons a ops)
  then have "\<not> ce_poisoned (cell_op noting_plugin a c)"
    by (cases a) (simp_all add: call_locked_def shutdown_cell_def noting_plugin_def)
  with Cons.IH show ?case
    by simp
qed simp

theorem run_serializes_plugins_witness:
  "\<exists>sv' ops c. runs mock_ext_manager noting_plugin (Ok ()) free_lock free_lock registered_server (Ok ()) sv'
    \<and> lookup_cell (sv_registry sv') RTable ''a'' = Some c \<and> count_list ops ToldToStop = 1
    \<and> c = fold (cell_op noting_plugin) ops \<lparr>ce_plugin = ''a'', ce_poisoned = False\<rparr>"
proof -
  let ?EM = mock_ext_manager and ?V = noting_plugin
  obtain sv1 where b: "begin_run ?EM ?V (Ok ()) registered_server = (Ok (), sv1)"
    and ch: "sv_channel sv1 = new_channel"
    by (simp add: begin_run_def start_def bnd_def register_extension_def gen_registry_def echo_registry_eq
      noting_plugin_def echo_plugin_def registered_server_def on_client_lock_def mock_defs)
  have o: "others ?EM ?V (sv1, True) (send_signal None sv1, True)"
    by (rule others.trans [OF others.refl others_step.signal_caught])
  have c: "ch_buffer (sv_channel (send_signal None sv1)) = Some None"
    by (simp add: send_signal_def channel_send_def ch new_channel_def)
  have t: "ticks free_lock"
    by (simp add: ticks_def free_lock_def)
  obtain sv' where run: "runs ?EM ?V (Ok ()) free_lock free_lock registered_server (Ok ()) sv'"
    using run_with_signal [OF b o c mock.answering_manager_axioms registered_fit t t notes_shutdown.returning_shutdown_axioms] by auto
  have reg: "registry_ok (sv_registry registered_server)" "\<not> rg_poisoned (sv_registry registered_server)"
    "lookup_cell (sv_registry registered_server) RTable ''a'' = Some \<lparr>ce_plugin = ''a'', ce_poisoned = False\<rparr>"
    by (simp_all add: registered_server_def echo_registry_eq registry_ok_def lookup_cell_def plugins_of_def)
  from run_serializes_plugins [OF run reg(1,2), of RTable "''a''"] show ?thesis
    using run reg(3) noting_never_poisoned [of "\<lparr>ce_plugin = ''a'', ce_poisoned = False\<rparr>"] by auto
qed

end
