(* ===== verification/Spec2Isabelle.thy ===== *)
theory Spec2Isabelle
  imports Examples AcceptLoop PluginHistory
begin

text \<open>
  This library models \<open>osquery-rs-sdk\<close>, a Rust SDK for extensions of osquery, as functions
  and step relations, and proves what its parts promise. osquery and an extension talk
  Thrift over Unix sockets or named pipes: the extension's client registers with osquery's
  extension manager, osquery then calls the extension's own server, which runs the plugins.

  \<^bold>\<open>The parts, and the theories that model them.\<close>

  \<^item> \<open>Prelude\<close>: results with panics and divergence, state-passing actions, \<open>BTreeMap\<close> as an
    association list in key order, 64-bit integers, and the string operations of the Rust
    standard library the program uses. A string is the list of its UTF-8 bytes.
  \<^item> \<open>Errors\<close> (\<open>src/src/lib.rs\<close>): the error type, its texts and conversions.
  \<^item> \<open>Wire\<close>, \<open>WireTypes\<close>, \<open>WireMessages\<close> (\<open>src/src/osquery.rs\<close>): the shapes of the generated
    readers and writers, then every struct, argument and result over the record \<open>thrift\<close> of
    the protocol's operations. The protocol belongs to the Thrift crate and is a parameter.
  \<^item> \<open>Rpc\<close> (\<open>src/src/osquery.rs\<close>): the generated clients and processors of both services.
  \<^item> \<open>WireRoundtrip\<close>, \<open>RpcRoundtrip\<close>: the locale \<open>wire_protocol\<close>, what a protocol must do for
    a value that is written to be read back, and round trips of every struct and method.
    \<open>WireStream\<close>: the locale \<open>stream_protocol\<close>, what a protocol must do when bytes arrive in
    pieces. \<open>WireWellformed\<close>: what the readers make of any bytes. \<open>BinaryProtocol\<close>: the
    documented binary protocol; both locales are interpreted on it.
  \<^item> \<open>Client\<close> (\<open>src/src/client/manager.rs\<close>, \<open>src/src/client/named_pipe.rs\<close>): the extension
    manager client, connecting with a timeout, the Windows pipe; the trait of clients as the
    record \<open>ext_manager\<close> and, for the server, the locale \<open>answering_manager\<close>.
  \<^item> \<open>Registry\<close> (\<open>src/src/server/mod.rs\<close>, \<open>src/src/server/manager.rs\<close>): plugins under their
    locks, registration, the broadcast routes, the shutdown channel and the request handler.
  \<^item> \<open>Connection\<close> (\<open>src/src/server/threaded.rs\<close>): serving one connection; the locale
    \<open>stream_processor\<close> is what it needs of a processor, and the generated processor is one
    over every stream protocol. \<open>Listener\<close> (same file): the accept loop and its permits, as a
    step relation; \<open>AcceptLoop\<close>: the loops over Unix sockets and named pipes as programs.
  \<^item> \<open>Server\<close>, \<open>Shutdown\<close> (\<open>src/src/server/manager.rs\<close>): building, registering and starting;
    shutting down, with the waits for the client lock and plugins whose own shutdown may
    panic. \<open>Beside\<close>: the steps of the threads beside a server (requests, the listener, the
    ping watcher, shutdown handles, signals). \<open>Teardown\<close>: a shutdown as steps with those
    of the other threads in between, which \<open>shutdown\<close> alone is an instance of. \<open>ServerRun\<close>:
    \<open>run\<close>, with its start, its first signal and the shutdown beside the other threads.
  \<^item> \<open>Serving\<close> joins \<open>Connection\<close> and \<open>ServerRun\<close>: serving a connection is a sequence of the
    steps that \<open>Beside\<close> has for calls of the handler. \<open>Peer\<close> puts osquery, the generated
    processor of its service over any handler, at the other end of the client's connection
    and computes every method of the client. \<open>Session\<close> runs the server on that client; its
    locale \<open>osquery_peer\<close> gives \<open>answering_manager\<close> and is interpreted on the binary protocol.
  \<^item> \<open>Json\<close>, \<open>Plugin\<close>, \<open>Config\<close>, \<open>Logger\<close>, \<open>Distributed\<close>, \<open>Table\<close> (\<open>src/src/plugin/\<close>): the four
    kinds of plugin. The JSON library is the parameter \<open>json_lib\<close>; the decoders are written
    over its values as the derived and hand-written code has them. The locales
    \<open>action_plugin\<close> (unknown actions are refused) and \<open>status_passthrough\<close> (a callback's
    status reaches osquery) are interpreted on the plugins.
  \<^item> \<open>KvStore\<close>, \<open>Examples\<close> (\<open>src/examples/\<close>): the key-value store, a writable table of rows by id
    (locale \<open>row_table\<close>), and the repository's extensions and clients as whole programs.
  \<^item> \<open>PluginHistory\<close>: a run as one plugin sees it, a sequence of its own operations; the locale
    \<open>plugin_invariant\<close>, what these keep a run keeps, is interpreted on the key-value store and
    the configuration plugin.
  \<^item> \<open>Mock\<close> (\<open>src/src/mock.rs\<close>): the mocks of the client and of a plugin; the mock client
    is an \<open>answering_manager\<close>, and the witnesses about the server run on it.

  \<^bold>\<open>State and operations.\<close> A struct of the code is a record with its fields, a method on
  \<open>&mut self\<close> a function that returns its result and the new state, a user's closure an
  action on a state of its own, a plugin a record of methods (\<open>plugin\<close>) over a type of plugin
  states. A lock is the value it protects and whether it is poisoned. Results have the
  constructors \<open>Ok\<close> and \<open>Err\<close> of Rust, \<open>Panic\<close> for an unwinding panic, and \<open>Diverge\<close> for a
  call that does not return. Concurrency is a step relation where the code has threads
  (\<open>listen_step\<close>, \<open>others_step\<close>); \<open>runs\<close> relates a call of \<open>run\<close> to its outcomes.

  \<^bold>\<open>What is shown.\<close> Values and calls cross the wire unchanged, up to the defaults the
  generated readers give to absent fields, also when a request arrives in pieces; an
  incomplete request has no effect; the buffer of a request, the connections and the loops
  are bounded. A call reaches the plugin it names and no other, and a panic takes one plugin
  down only; a plugin is called with well-formed requests whatever the bytes are. The
  broadcast registry is the registered one. A run returns what its first signal says, and
  osquery's \<open>shutdown\<close> call, or the loss of osquery, ends it; a shutdown takes its steps in
  order also while other threads act, and returns if the client and the plugins do; a
  plugin that panics in its shutdown ends it. Both accept loops go through the states of one
  relation and no others. All that a run does to a plugin is a sequence of the plugin's own
  calls and at most one shutdown. Over a real client osquery sees of an extension, from its start
  to its drop, one registration, pings, and one deregistration of the same uuid. Tables,
  loggers, configuration and distributed queries hand their callbacks what osquery sent and
  answer what they returned; the example's key-value store is a map from row ids to rows.
  The lemmas \<open>active_count_leaks\<close> of \<open>Listener\<close> and \<open>prompt_spins_at_end_of_input\<close> of \<open>Examples\<close>
  and the properties on unknown methods, on missing codes, on plugins that panic in their
  shutdown and on rows without an id show where the code departs from what it means to do.

  \<^bold>\<open>Fuel and bounds.\<close> \<open>t_fuel\<close> bounds the fields of a struct. The contract asks for at least
  five, the most any struct has with its stop; with more fuel than a request has bytes no
  loop runs out, since every field takes a byte, so \<open>binary_fuel\<close> is one more than
  \<open>MAX_REQUEST_BYTES\<close>. The loop over buffered requests has one round per byte and one more.
  Waiting for the client lock has a round per 10 ms of its deadline and two more, waiting for
  the socket one per 200 ms and two more, opening the pipe 202 attempts: while the clock
  advances by the sleeps, these are never used up. Integers of the wire are words; the
  sequence number of a client wraps as in a release build.

  \<^bold>\<open>Not modelled.\<close> The Thrift crate, the JSON library, tokio and the operating system are
  parameters: protocol operations, parsing and printing, reads of a stream, the outcomes of
  binding, connecting, creating a runtime and locking, and the clock. \<open>Debug\<close>
  implementations (their texts are parameters where an example prints them), tracing,
  re-exports, getters that return a field, the generated processors' methods that only
  forward to the process functions, tests and benchmarks are left out. \<open>block_in_place\<close> only moves a call to another thread.
  The error of receiving from a channel without senders is not modelled, since the server
  holds a sender. The counters of the mocks are unbounded, and memory is. The calls of the
  client have no deadline and a plugin's lock is waited for without one, so the theorems on
  runs name as hypotheses that osquery answers and that the plugins' shutdowns return.
\<close>

section \<open>Lemmas\<close>

lemma handler_call_found:
  assumes "\<not> rg_poisoned (hs_registry hs)" and "lookup_cell (hs_registry hs) r item = Some c"
    and "\<not> ce_poisoned c" and "pl_call V request (ce_plugin c) = (res, p')"
    and "plugin_response_to_wire res = Ok v"
  shows "handle_call (extension_handler V) (registry_name_display r) item request hs
    = (Ok v, hs\<lparr>hs_registry := set_cell r item \<lparr>ce_plugin = p', ce_poisoned = False\<rparr> (hs_registry hs)\<rparr>)"
proof -
  have "\<not> (\<exists>p. res = Panic p)"
    using assms(5) by (cases res) auto
  then have "call_locked V request c = (Ok v, \<lparr>ce_plugin = p', ce_poisoned = False\<rparr>)"
    using assms(3-5) by (cases res) (auto simp: call_locked_def)
  then show ?thesis
    using ext_handle_call_found [OF assms(1,2), of V request] by (simp add: extension_handler_def)
qed

section \<open>Properties across the components\<close>

text \<open>
  C1: a plugin call crosses the wire and comes back. For any protocol that meets the
  contract, a client's \<open>call\<close>, processed by the extension's handler, runs the named plugin
  once: the client gets the rows of the plugin's result, its status, or status 1 with the
  text of its error; the plugin's state is the new one and neither end has bytes left.
\<close>

theorem plugin_call_over_the_wire:
  assumes "wire_protocol T E" and "ok_string E ''call''"
    and "wire_call_args E \<lparr>ca_registry = registry_name_display r, ca_item = item, ca_request = request\<rparr>"
    and "\<not> rg_poisoned (hs_registry hs)" and "lookup_cell (hs_registry hs) r item = Some c" and "\<not> ce_poisoned c"
    and "pl_call V request (ce_plugin c) = (res, p')" and "plugin_response_to_wire res = Ok v" and "wire_response E v"
  shows "\<exists>wire_result hs'. over_the_wire T (process T (extension_handler V)) ''call''
      (write_call_args T \<lparr>ca_registry = registry_name_display r, ca_item = item, ca_request = request\<rparr>)
      (read_call_result T) call_result_ok_or sq hs = (wire_result, hs', [], [])
    \<and> replied response_rows wire_result = reported res
    \<and> lookup_cell (hs_registry hs') r item = Some \<lparr>ce_plugin = p', ce_poisoned = False\<rparr>"
proof -
  let ?a = "\<lparr>ca_registry = registry_name_display r, ca_item = item, ca_request = request\<rparr>"
  let ?hs' = "hs\<lparr>hs_registry := set_cell r item \<lparr>ce_plugin = p', ce_poisoned = False\<rparr> (hs_registry hs)\<rparr>"
  have "handle_call (extension_handler V) (ca_registry ?a) (ca_item ?a) (ca_request ?a) hs = (Ok v, ?hs')"
    using handler_call_found [OF assms(4-8)] by simp
  from wire_protocol.call_over_the_wire [OF assms(1-3) this assms(9), of sq]
  show ?thesis
    using response_rows_to_wire [OF assms(8)] assms(5) by (simp add: lookup_cell_set_cell)
qed

theorem plugin_call_over_the_wire_witness:
  "\<exists>wire_result hs'. over_the_wire (binary_thrift 8) (process (binary_thrift 8) (extension_handler echo_plugin)) ''call''
      (write_call_args (binary_thrift 8) \<lparr>ca_registry = ''table'', ca_item = ''b'', ca_request = [(''action'', ''x'')]\<rparr>)
      (read_call_result (binary_thrift 8)) call_result_ok_or 0 \<lparr>hs_registry = echo_registry, hs_channel = new_channel\<rparr>
      = (wire_result, hs', [], [])
    \<and> replied response_rows wire_result = Ok [[(''action'', ''x'')]]"
proof -
  have T: "wire_protocol (binary_thrift 8) binary_enc"
    by (rule binary_wire_protocol) simp
  show ?thesis
    using plugin_call_over_the_wire [OF T, of RTable "''b''" "[(''action'', ''x'')]"
      "\<lparr>hs_registry = echo_registry, hs_channel = new_channel\<rparr>" "\<lparr>ce_plugin = ''b'', ce_poisoned = False\<rparr>"
      echo_plugin "Ok [[(''action'', ''x'')]]" "''b''"
      "mk_response (mk_status 0 ''OK'' None) (Some [[(''action'', ''x'')]])" 0]
    by (auto simp: wire_evaluation echo_registry_eq lookup_cell_def plugins_of_def echo_plugin_def mk_response_def mk_status_def)
qed

text \<open>
  C2: a request that arrives in pieces is served as a whole. However the bytes of a
  client's \<open>call\<close> are cut into reads, serving the connection ends waiting for more with an
  empty buffer, the handler has run once, and the bytes written back are exactly what the
  client accepts as the handler's answer.
\<close>

theorem call_served_in_pieces:
  assumes "wire_protocol T E" and "stream_protocol T" and "ok_string E ''call''" and "wire_call_args E a"
    and "handle_call H (ca_registry a) (ca_item a) (ca_request a) h = (Ok v, h')" and "wire_response E v"
  shows "\<exists>request reply. client_send T ''call'' (write_call_args T a) (([], [], False), sq)
        = (Ok (), (([], request, False), sq + 1))
    \<and> (\<forall>cs. fits cs \<and> concat cs = request \<and> length request \<le> MAX_REQUEST_BYTES \<longrightarrow>
        serve_connection disp (process T H) collect_stream (map Ok cs) ([], h, [])
          = (Waiting, ([], h', reply)))
    \<and> client_recv T ''call'' (read_call_result T) call_result_ok_or ((reply, [], False), sq + 1)
        = (Ok (norm_response v), (([], [], False), sq + 1))"
proof -
  obtain request reply where p:
    "client_send T ''call'' (write_call_args T a) (([], [], False), sq) = (Ok (), (([], request, False), sq + 1))"
    "process T H ((request, [], False), h) = (Ok (), (([], reply, False), h'))"
    "client_recv T ''call'' (read_call_result T) call_result_ok_or ((reply, [], False), sq + 1)
      = (Ok (norm_response v), (([], [], False), sq + 1))"
    by (rule wire_protocol.plugin_call_pieces [OF assms(1,3,4,5,6)])
  note served = stream_processor.one_request_served [OF stream_protocol.extension_processor [OF assms(2)] p(2)]
  have "serve_connection disp (process T H) collect_stream (map Ok cs) ([], h, []) = (Waiting, ([], h', reply))"
    if "fits cs" "concat cs = request" "length request \<le> MAX_REQUEST_BYTES" for cs
    by (rule served [OF that])
  with p show ?thesis by blast
qed

theorem call_served_in_pieces_witness:
  "\<exists>request reply. client_send (binary_thrift 8) ''call''
      (write_call_args (binary_thrift 8) \<lparr>ca_registry = ''table'', ca_item = ''b'', ca_request = []\<rparr>) (([], [], False), 0)
        = (Ok (), (([], request, False), 1))
    \<and> client_recv (binary_thrift 8) ''call'' (read_call_result (binary_thrift 8)) call_result_ok_or ((reply, [], False), 1)
        = (Ok (norm_response (mk_response (mk_status 0 ''OK'' None) (Some [[]]))), (([], [], False), 1))"
proof -
  have T: "wire_protocol (binary_thrift 8) binary_enc"
    by (rule binary_wire_protocol) simp
  show ?thesis
    using call_served_in_pieces [OF T binary_stream_protocol, of "\<lparr>ca_registry = ''table'', ca_item = ''b'', ca_request = []\<rparr>"
      mock_server_handler "()" "mk_response (mk_status 0 ''OK'' None) (Some [[]])" "()" 0 show_thrift]
    by (auto simp: wire_evaluation mock_server_handler_def ret_def mk_response_def mk_status_def)
qed

text \<open>
  A registration arrives as it was sent. Over the wire, osquery's handler is called
  with the extension's registry, route by route, and with its name and version; when it
  answers with code zero and a uuid, that uuid is what the client's registration returns.
\<close>

lemma registration_over_the_wire:
  assumes "wire_protocol T E" and "ok_string E ''registerExtension''"
    and "wire_register_args E \<lparr>ra_info = registration_info name version, ra_registry = registry\<rparr>"
    and "handle_register_extension H
        \<lparr>we_name = Some name, we_version = Some (unwrap_or [] version), we_sdk_version = Some [],
          we_min_sdk_version = Some []\<rparr> registry h
      = (Ok \<lparr>ws_code = Some 0, ws_message = message, ws_uuid = Some uuid\<rparr>, h')"
    and "wire_option (ok_string E) message"
  shows "\<exists>wire_result. over_the_wire T (process_manager T H) ''registerExtension''
      (write_register_args T \<lparr>ra_info = registration_info name version, ra_registry = registry\<rparr>)
      (read_register_result T) register_result_ok_or sq h = (wire_result, h', [], [])
    \<and> replied register_reply wire_result = Ok uuid"
proof -
  let ?a = "\<lparr>ra_info = registration_info name version, ra_registry = registry\<rparr>"
  let ?v = "\<lparr>ws_code = Some 0, ws_message = message, ws_uuid = Some uuid\<rparr>"
  have "norm_extension_info (ra_info ?a) = \<lparr>we_name = Some name, we_version = Some (unwrap_or [] version),
      we_sdk_version = Some [], we_min_sdk_version = Some []\<rparr>"
    by (cases version) (simp_all add: norm_extension_info_def registration_info_def mk_extension_info_def or_default_def)
  then have h: "handle_register_extension H (norm_extension_info (ra_info ?a)) (ra_registry ?a) h = (Ok ?v, h')"
    using assms(4) by simp
  have "wire_status E ?v"
    using assms(5) by (simp add: wire_status_def)
  from wire_protocol.register_over_the_wire [OF assms(1-3) h this, of sq] show ?thesis
    by (simp add: register_reply_def norm_status_def or_default_def)
qed

text \<open>
  A query's rows come back. Over the wire, osquery's handler is called with the SQL
  text, and the client's query returns the rows it answered, when its code is zero, and
  otherwise its code and message.
\<close>

lemma query_rows_over_the_wire:
  assumes "wire_protocol T E" and "ok_string E ''query''" and "ok_string E sql"
    and "handle_query H sql h = (Ok (mk_response (mk_status code message None) rows), h')"
    and "ok_string E message" and "wire_option (wire_rows E) rows"
  shows "\<exists>wire_result. over_the_wire T (process_manager T H) ''query'' (write_query_args T sql)
      (read_query_result T) query_result_ok_or sq h = (wire_result, h', [], [])
    \<and> replied response_rows wire_result
      = (if code = 0 then Ok (case rows of None \<Rightarrow> [] | Some rows \<Rightarrow> rows) else Err (Status code message))"
proof -
  have "wire_response E (mk_response (mk_status code message None) rows)"
    using assms(5,6) by (simp add: wire_response_def wire_status_def wire_option_def mk_response_def mk_status_def)
  from wire_protocol.query_over_the_wire [OF assms(1-4) this, of sq] show ?thesis
    by (cases rows) (simp_all add: response_rows_def norm_response_def norm_status_def or_default_def
      mk_response_def mk_status_def)
qed

text \<open>
  C39: an unknown method is refused and its arguments stay. The refusal is the Thrift
  crate's handling of an \<open>UnknownMethod\<close> error; the bytes of the arguments are not read,
  so they are what the next message is read from.
\<close>

theorem unknown_method_keeps_arguments:
  assumes "wire_protocol T E" and "ok_string E name" and "name \<notin> {''ping'', ''call'', ''shutdown''}"
  shows "process T H ((e_message E \<lparr>mi_name = name, mi_type = MCall, mi_seq = sq\<rparr> @ args, [], False), h)
    = on_conn (t_process_result T \<lparr>mi_name = name, mi_type = MCall, mi_seq = sq\<rparr> (Err (unknown_method name)))
        ((args, [], False), h)"
  by (rule wire_protocol.process_unknown_method [OF assms])

theorem unknown_method_keeps_arguments_witness:
  "fst (fst (snd (process (binary_thrift 8) mock_server_handler
      ((enc_message \<lparr>mi_name = ''extensions'', mi_type = MCall, mi_seq = 1\<rparr> @ [0], [], False), ())))) = [0]"
proof -
  have T: "wire_protocol (binary_thrift 8) binary_enc"
    by (rule binary_wire_protocol) simp
  have "process (binary_thrift 8) mock_server_handler
      ((e_message binary_enc \<lparr>mi_name = ''extensions'', mi_type = MCall, mi_seq = 1\<rparr> @ [0], [], False), ())
    = on_conn (t_process_result (binary_thrift 8) \<lparr>mi_name = ''extensions'', mi_type = MCall, mi_seq = 1\<rparr>
        (Err (unknown_method ''extensions''))) (([0], [], False), ())"
    by (rule unknown_method_keeps_arguments [OF T]) (simp_all add: wire_evaluation)
  then show ?thesis
    by (simp add: binary_enc_def binary_thrift_def on_conn_def unknown_method_def put_exception_def
      put_bytes_def split: prod.split)
qed

text \<open>
  C34: every plugin refuses what it does not know. A call of a table, a writable table, a
  configuration or a distributed plugin with an action none of them has is an error that
  names the action, and without one is the error \<open>missing action\<close>; the plugin's state does
  not change, so no callback has run.
\<close>

theorem unknown_actions_refused:
  assumes "request_action req \<notin> Some ` {''generate'', ''columns'', ''insert'', ''update'', ''delete'', ''genConfig'',
      ''genPack'', ''getQueries'', ''writeResults''}"
  shows "let e = (case request_action req of None \<Rightarrow> Other ''missing action'' | Some a \<Rightarrow> Other (''unknown action: '' @ a))
    in table_call L req t = (Err e, t) \<and> writable_call L W req w = (Err e, w)
      \<and> config_call req c = (Err e, c) \<and> distributed_call L req d = (Err e, d)"
proof -
  have "table_call L req t = (Err (action_plugin.refusal req), t)"
    by (rule table.refused) (use assms in auto)
  moreover have "writable_call L W req w = (Err (action_plugin.refusal req), w)"
    by (rule writable.refused) (use assms in auto)
  moreover have "config_call req c = (Err (action_plugin.refusal req), c)"
    by (rule config.refused) (use assms in auto)
  moreover have "distributed_call L req d = (Err (action_plugin.refusal req), d)"
    by (rule distributed.refused) (use assms in auto)
  moreover have "action_plugin.refusal req
      = (case request_action req of None \<Rightarrow> Other ''missing action'' | Some a \<Rightarrow> Other (''unknown action: '' @ a))"
    by (simp add: config.refusal_def missing_action_def unknown_action_def split: option.split)
  ultimately show ?thesis
    by (simp add: Let_def)
qed

theorem unknown_actions_refused_witness:
  "fst (config_call [(''action'', ''drop'')] (new_config_plugin ''c'' (ret []) ())) = Err (Other (''unknown action: '' @ ''drop''))"
  using unknown_actions_refused [of "[(''action'', ''drop'')]" "one_document JNull"
      "table_plugin_new None ''t'' [] (\<lambda>_. ret []) ()" read_only_table "()" "new_config_plugin ''c'' (ret []) ()"
      collecting_distributed]
  by (simp add: request_action_def bt_get_Cons Let_def)

text \<open>
  C21: what a handler answers survives the encoding. Writing a response and reading it back
  gives the same rows, code, message and uuid, with the reader's defaults for what was
  absent, and consumes exactly the bytes written.
\<close>

theorem response_round_trip:
  assumes "wire_protocol T E" and "wire_response E x"
  shows "\<exists>bs. emits (write_response T x) bs \<and> accepts (read_response T) bs (norm_response x)"
  using wire_protocol.crosses_response [OF assms] by (simp add: crosses_def)

theorem response_round_trip_witness:
  "\<exists>bs. emits (write_response (binary_thrift 8) (mk_response (mk_status 3 ''no'' None) (Some [[(''a'', ''1'')]]))) bs
    \<and> accepts (read_response (binary_thrift 8)) bs
        \<lparr>wp_status = Some \<lparr>ws_code = Some 3, ws_message = Some ''no'', ws_uuid = Some (I64 0)\<rparr>, wp_response = Some [[(''a'', ''1'')]]\<rparr>"
proof -
  have T: "wire_protocol (binary_thrift 8) binary_enc"
    by (rule binary_wire_protocol) simp
  show ?thesis
    using response_round_trip [OF T, of "mk_response (mk_status 3 ''no'' None) (Some [[(''a'', ''1'')]])"]
    by (simp add: wire_evaluation mk_response_def mk_status_def norm_response_def norm_status_def or_default_def)
qed

end
